(* ===== verification/Prelude.thy ===== *)
theory Prelude
  imports Main "HOL-Library.Word"
begin

text \<open>
  The vocabulary every component shares: Go's machine integers as words, Go's error values and
  panics as values, the sequencing of fallible stateful calls, and the collections of rewrite
  rules the component proofs use.

  A Go function that returns \<open>(T, error)\<close> and may panic is a HOL function with a result of type
  \<open>'a outcome\<close>: \<open>Ok\<close> is a nil error, \<open>Err\<close> a non-nil one, \<open>Panic\<close> an unrecovered panic. A function
  that also writes through pointers returns its new state beside the outcome, so that what an
  operation changed before it failed stays visible.
\<close>

unbundle bit_operations_syntax

section \<open>Machine integers\<close>

type_synonym byte = "8 word"
type_synonym u16 = "16 word"
type_synonym u32 = "32 word"
type_synonym u64 = "64 word"

text \<open>Go's \<open>int32\<close> and \<open>int64\<close> are words read with \<open>sint\<close>.\<close>

type_synonym i32 = "32 word"
type_synonym i64 = "64 word"

section \<open>Collections of rewrite rules\<close>

named_theorems go_step "one step of a sequence of fallible calls"
named_theorems wire "lengths and inverses of the wire encodings"
named_theorems frame "what an operation leaves unchanged"

section \<open>Errors and outcomes\<close>

text \<open>
  Go error values: the sentinels of package io and context, a failure of the transport, a message
  built by \<open>Errorf\<close> (its format and its arguments), and \<open>errors.Wrap\<close>, which keeps its cause.
  The two decode errors of message/error.go are types of their own, because \<open>handleMessage\<close>
  dispatches on the dynamic type of the error.
\<close>

datatype go_arg = ArgInt int | ArgStr string

text \<open>
  The dynamic values the program hands to its AMF library and gets back from it: Go's nil,
  booleans, numbers by their Go type, strings, byte slices, maps and the library's array type, and
  structs by name with their tagged fields.
\<close>

datatype amf_value =
    ANil
  | ABool bool
  | AInt int
  | AUint8 byte
  | AUint32 u32
  | AInt64 i64
  | AFloat64 u64
  | AString string
  | ABytes "byte list"
  | AMap "(string \<times> amf_value) list"
  | AECMAArray "(string \<times> amf_value) list"
  | AStruct string "(string \<times> amf_value) list"

datatype go_err =
    EOF
  | ErrUnexpectedEOF
  | ErrShortBuffer
  | ErrNoProgress
  | DeadlineExceeded
  | TransportErr nat
  | ErrPassThroughMsg
  | Errorf string "go_arg list"
  | UnknownDataBodyDecodeError string "amf_value list"
  | UnknownCommandBodyDecodeError string i64 "amf_value list"
  | UserErr nat
  | Wrap go_err string

text \<open>\<open>errors.Is (err, io.EOF)\<close> looks through the wrapping, \<open>err == io.EOF\<close> does not.\<close>

fun errors_Is_EOF :: "go_err \<Rightarrow> bool" where
  "errors_Is_EOF EOF = True"
| "errors_Is_EOF (Wrap e _) = errors_Is_EOF e"
| "errors_Is_EOF _ = False"

datatype 'a outcome = Ok 'a | Err go_err | Panic string

fun is_Ok :: "'a outcome \<Rightarrow> bool" where
  "is_Ok (Ok _) = True"
| "is_Ok _ = False"

fun map_outcome_err :: "(go_err \<Rightarrow> go_err) \<Rightarrow> 'a outcome \<Rightarrow> 'a outcome" where
  "map_outcome_err f (Ok x) = Ok x"
| "map_outcome_err f (Err e) = Err (f e)"
| "map_outcome_err f (Panic m) = Panic m"

section \<open>Sequencing\<close>

text \<open>
  \<open>bindo p f\<close> is the Go idiom \<open>x, err := p; if err != nil { return err }; f x\<close>: an error or a panic
  ends the sequence with the state reached so far.
\<close>

fun bindo :: "'a outcome \<times> 's \<Rightarrow> ('a \<Rightarrow> 's \<Rightarrow> 'b outcome \<times> 't) \<Rightarrow> ('s \<Rightarrow> 't) \<Rightarrow> 'b outcome \<times> 't" where
  "bindo (Ok x, s) f g = f x s"
| "bindo (Err e, s) f g = (Err e, g s)"
| "bindo (Panic m, s) f g = (Panic m, g s)"

text \<open>The common case in which the state keeps its type.\<close>

abbreviation andthen :: "'a outcome \<times> 's \<Rightarrow> ('a \<Rightarrow> 's \<Rightarrow> 'b outcome \<times> 's) \<Rightarrow> 'b outcome \<times> 's" where
  "andthen p f \<equiv> bindo p f id"

text \<open>Sequencing without a state, for pure decoders.\<close>

fun bindr :: "'a outcome \<Rightarrow> ('a \<Rightarrow> 'b outcome) \<Rightarrow> 'b outcome" where
  "bindr (Ok x) f = f x"
| "bindr (Err e) f = Err e"
| "bindr (Panic m) f = Panic m"

lemma bindo_cong [fundef_cong]:
  assumes "p = q" "\<And>x s. q = (Ok x, s) \<Longrightarrow> f x s = f' x s" "g = g'"
  shows "bindo p f g = bindo q f' g'"
  using assms by (cases q; cases "fst q") auto

lemma bindo_Ok_iff:
  "bindo p f g = (Ok y, t) \<longleftrightarrow> (\<exists>x s. p = (Ok x, s) \<and> f x s = (Ok y, t))"
  by (cases p; cases "fst p") auto

lemma bindr_Ok_iff: "bindr p f = Ok y \<longleftrightarrow> (\<exists>x. p = Ok x \<and> f x = Ok y)"
  by (cases p) auto

lemma bindo_cases:
  obtains (ok) x s where "p = (Ok x, s)" "bindo p f g = f x s"
  | (err) e s where "p = (Err e, s)" "bindo p f g = (Err e, g s)"
  | (panic) m s where "p = (Panic m, s)" "bindo p f g = (Panic m, g s)"
  by (cases p; cases "fst p") auto

text \<open>The state after a sequence keeps what each of its calls keeps.\<close>

lemma snd_bindo_keeps:
  assumes "\<And>x s. p = (Ok x, s) \<Longrightarrow> P (snd (f x s))" and "P (g (snd p))"
  shows "P (snd (bindo p f g))"
  using assms by (cases p; cases "fst p") auto

declare bindo.simps [go_step] bindr.simps [go_step]

section \<open>Lists\<close>

lemma take_eq_append_drop: "n \<le> length xs \<Longrightarrow> xs = take n xs @ drop n xs"
  by simp

lemma length_1_conv: "length xs = 1 \<longleftrightarrow> (\<exists>x. xs = [x])"
  by (cases xs) auto

lemma length_3_conv: "length xs = 3 \<longleftrightarrow> (\<exists>a b c. xs = [a, b, c])"
  by (auto simp: numeral_3_eq_3 length_Suc_conv)

lemma length_4_conv: "length xs = 4 \<longleftrightarrow> (\<exists>a b c d. xs = [a, b, c, d])"
  by (auto simp: numeral_eq_Suc length_Suc_conv)

text \<open>Removing a key from an association list, and looking it up again.\<close>

definition del_key :: "'k \<Rightarrow> ('k \<times> 'v) list \<Rightarrow> ('k \<times> 'v) list" where
  "del_key k t = filter (\<lambda>p. fst p \<noteq> k) t"

fun set_key :: "'k \<Rightarrow> 'v \<Rightarrow> ('k \<times> 'v) list \<Rightarrow> ('k \<times> 'v) list" where
  "set_key k v [] = [(k, v)]"
| "set_key k v (p # t) = (if fst p = k then (k, v) # t else p # set_key k v t)"

lemma map_of_del_key [simp]: "map_of (del_key k t) = (map_of t)(k := None)"
  by (induction t) (auto simp: del_key_def fun_eq_iff)

lemma map_of_set_key [simp]: "map_of (set_key k v t) = (map_of t)(k \<mapsto> v)"
  by (induction t) (auto simp: fun_eq_iff)

lemma fst_del_key: "fst ` set (del_key k t) = fst ` set t - {k}"
  by (auto simp: del_key_def)

lemma fst_set_key: "fst ` set (set_key k v t) = insert k (fst ` set t)"
  by (induction t) auto

lemma distinct_del_key: "distinct (map fst t) \<Longrightarrow> distinct (map fst (del_key k t))"
  by (induction t) (auto simp: del_key_def)

lemma distinct_set_key: "distinct (map fst t) \<Longrightarrow> distinct (map fst (set_key k v t))"
  by (induction t) (auto simp: fst_set_key)

lemma length_del_key:
  "distinct (map fst t) \<Longrightarrow> map_of t k \<noteq> None \<Longrightarrow> Suc (length (del_key k t)) = length t"
proof (induction t)
  case Nil
  then show ?case by simp
next
  case (Cons p t)
  show ?case
  proof (cases "fst p = k")
    case True
    with Cons.prems have "\<forall>q \<in> set t. fst q \<noteq> k" by (auto simp: image_iff)
    then have "filter (\<lambda>q. fst q \<noteq> k) t = t" by simp
    with True show ?thesis by (simp add: del_key_def)
  next
    case False
    with Cons show ?thesis by (simp add: del_key_def split: if_splits)
  qed
qed

lemma length_set_key:
  "length (set_key k v t) = (if map_of t k = None then Suc (length t) else length t)"
  by (induction t) auto

end
