(* ===== verification/ByteOrder.thy ===== *)
theory ByteOrder
  imports Prelude
begin

text \<open>
  Package encoding/binary of the Go standard library, as the source uses it: \<open>PutUint16\<close>,
  \<open>PutUint32\<close>, \<open>PutUint64\<close> and their readers, in big and in little endian order, written by
  shifting and truncating words. The lemmas give the inverses, the lengths and the 24-bit fields
  that chunk_header.go cuts out of a 32-bit buffer.
\<close>

section \<open>Writing and reading words\<close>

fun put_le :: "nat \<Rightarrow> 'a::len word \<Rightarrow> byte list" where
  "put_le 0 w = []"
| "put_le (Suc n) w = ucast w # put_le n (drop_bit 8 w)"

fun get_le :: "byte list \<Rightarrow> 'a::len word" where
  "get_le [] = 0"
| "get_le (b # bs) = ucast b OR push_bit 8 (get_le bs)"

definition put_be :: "nat \<Rightarrow> 'a::len word \<Rightarrow> byte list" where
  "put_be n w = rev (put_le n w)"

definition get_be :: "byte list \<Rightarrow> 'a::len word" where
  "get_be bs = get_le (rev bs)"

section \<open>Lengths and inverses\<close>

lemma length_put_le [simp]: "length (put_le n w) = n"
  by (induction n arbitrary: w) auto

lemma length_put_be [simp]: "length (put_be n w) = n"
  by (simp add: put_be_def)

lemma bit_get_le:
  "bit (get_le bs :: 'a::len word) i \<longleftrightarrow>
     i < LENGTH('a) \<and> i div 8 < length bs \<and> bit (bs ! (i div 8)) (i mod 8)"
proof (induction bs arbitrary: i)
  case Nil
  then show ?case by simp
next
  case (Cons b bs)
  show ?case
  proof (cases "i < 8")
    case True
    then show ?thesis by (auto simp: bit_simps)
  next
    case False
    then obtain j where j: "i = 8 + j" using le_Suc_ex by (metis not_less)
    have "\<not> bit b (8 + j)" using bit_imp_le_length [of b "8 + j"] by auto
    moreover have "(8 + j) div 8 = Suc (j div 8)" by simp
    ultimately show ?thesis using Cons.IH [of j] by (auto simp: bit_simps j)
  qed
qed

lemma nth_put_le: "i < n \<Longrightarrow> put_le n w ! i = ucast (drop_bit (8 * i) w)"
proof (induction n arbitrary: w i)
  case 0
  then show ?case by simp
next
  case (Suc n)
  then show ?case by (cases i) (simp_all add: add.commute)
qed

lemma get_le_put_le:
  fixes w :: "'a::len word"
  shows "get_le (put_le n w) = take_bit (8 * n) w"
proof (rule bit_word_eqI)
  fix i assume i: "i < LENGTH('a)"
  have "i div 8 < n \<longleftrightarrow> i < 8 * n" by (simp add: div_less_iff_less_mult mult.commute)
  then show "bit (get_le (put_le n w) :: 'a word) i \<longleftrightarrow> bit (take_bit (8 * n) w) i"
    using i by (auto simp: bit_get_le nth_put_le bit_simps)
qed

lemma put_le_get_le:
  assumes "8 * length bs \<le> LENGTH('a::len)"
  shows "put_le (length bs) (get_le bs :: 'a word) = bs"
proof (rule nth_equalityI)
  show "length (put_le (length bs) (get_le bs :: 'a word)) = length bs" by simp
next
  fix i assume "i < length (put_le (length bs) (get_le bs :: 'a word))"
  then have i: "i < length bs" by simp
  show "put_le (length bs) (get_le bs :: 'a word) ! i = bs ! i"
  proof (rule bit_word_eqI)
    fix k :: nat assume "k < LENGTH(8)"
    then have k: "k < 8" by simp
    moreover have "8 * i + k < LENGTH('a)" using i k assms by linarith
    moreover have "(8 * i + k) div 8 = i" "(8 * i + k) mod 8 = k" using k by simp_all
    ultimately show "bit (put_le (length bs) (get_le bs :: 'a word) ! i) k \<longleftrightarrow> bit (bs ! i) k"
      using i by (simp add: nth_put_le bit_simps bit_get_le)
  qed
qed

lemma take_bit_whole_word: "LENGTH('a::len) \<le> n \<Longrightarrow> take_bit n (w :: 'a word) = w"
  by (rule bit_word_eqI) (auto simp: bit_simps)

lemma get_be_put_be: "get_be (put_be n w) = take_bit (8 * n) w"
  by (simp add: get_be_def put_be_def get_le_put_le)

lemma put_be_get_be:
  "8 * length bs \<le> LENGTH('a::len) \<Longrightarrow> put_be (length bs) (get_be bs :: 'a word) = bs"
  using put_le_get_le [of "rev bs", where 'a = 'a] by (simp add: get_be_def put_be_def)

text \<open>The widths the source uses: what is written whole is read back.\<close>

lemma get_put_be_16 [wire]: "get_be (put_be 2 (w :: u16)) = w"
  by (simp add: get_be_put_be take_bit_whole_word)

lemma get_put_be_32 [wire]: "get_be (put_be 4 (w :: u32)) = w"
  by (simp add: get_be_put_be take_bit_whole_word)

lemma get_put_le_32 [wire]: "get_le (put_le 4 (w :: u32)) = w"
  by (simp add: get_le_put_le take_bit_whole_word)

lemma get_put_be_64 [wire]: "get_be (put_be 8 (w :: u64)) = w"
  by (simp add: get_be_put_be take_bit_whole_word)

section \<open>24-bit fields\<close>

text \<open>
  \<open>copy (cache32bits[1:], buf[0:3])\<close> with \<open>cache32bits[0] = 0\<close>, and the other way round.
\<close>

definition get_be24 :: "byte list \<Rightarrow> u32" where
  "get_be24 bs = get_be (0 # bs)"

definition put_be24 :: "u32 \<Rightarrow> byte list" where
  "put_be24 w = tl (put_be 4 w)"

lemma put_be_Suc: "put_be (Suc n) w = put_be n (drop_bit 8 w) @ [ucast w]"
  by (simp add: put_be_def)

lemma get_le_append_zero: "get_le (bs @ [0]) = get_le bs"
  by (induction bs) auto

lemma get_be24_eq: "get_be24 bs = get_be bs"
  by (simp add: get_be24_def get_be_def get_le_append_zero)

lemma put_le_snoc: "put_le (Suc n) w = put_le n w @ [ucast (drop_bit (8 * n) w)]"
proof (induction n arbitrary: w)
  case 0
  then show ?case by simp
next
  case (Suc n)
  have "put_le (Suc (Suc n)) w = ucast w # put_le (Suc n) (drop_bit 8 w)" by simp
  also have "\<dots> = ucast w # put_le n (drop_bit 8 w) @ [ucast (drop_bit (8 * n) (drop_bit 8 w))]"
    by (simp only: Suc.IH)
  finally show ?case by (simp add: add.commute)
qed

lemma put_be24_eq: "put_be24 w = put_be 3 w"
  using put_le_snoc [of 3 w] by (simp add: put_be24_def put_be_def)

lemma length_put_be24 [simp]: "length (put_be24 w) = 3"
  by (simp add: put_be24_eq)

lemma get_put_be24 [wire]: "get_be24 (put_be24 w) = take_bit 24 w"
  by (simp add: get_be24_eq put_be24_eq get_be_put_be)

lemma take_bit_24_id: "(w :: u32) \<le> 0xffffff \<Longrightarrow> take_bit 24 w = w"
  by (simp add: word_le_nat_alt word_unat_eq_iff unsigned_take_bit_eq take_bit_nat_eq_self_iff)

lemma take_bit_24_le: "take_bit 24 (w :: u32) \<le> 0xffffff"
proof -
  have "unat (take_bit 24 w) < 2 ^ 24"
    using take_bit_nat_less_exp [of 24 "unat w"] by (simp add: unsigned_take_bit_eq)
  then show ?thesis by (simp add: word_le_nat_alt)
qed

lemma get_be24_bound: "length bs = 3 \<Longrightarrow> get_be24 bs \<le> 0xffffff"
proof -
  assume "length bs = 3"
  then have "put_be 3 (get_be bs :: u32) = bs" using put_be_get_be [of bs, where 'a = 32] by simp
  then have "get_be24 bs = get_be24 (put_be24 (get_be bs))" by (simp add: put_be24_eq)
  then show ?thesis by (simp add: get_put_be24 take_bit_24_le)
qed

end
