(* ===== verification/GoIO.thy ===== *)
theory GoIO
  imports ByteOrder
begin

text \<open>
  Package io of the Go standard library, as the source uses it, and the two wrappers the streamer
  puts around its connection (chunk_streamer_reader.go, chunk_streamer_writer.go).

  An \<open>io.Reader\<close> is its method \<open>rd r n\<close>: a Read into a slice of length \<open>n\<close>, which returns the
  bytes delivered, an error, and the reader after it. The transport may deliver any number of
  bytes up to \<open>n\<close>, also none: it is a list of segments, one per Read that delivers data, and the
  error that every Read returns once they are used up. A run of the program on any connection is
  a run on one such list. \<open>io.ReadAtLeast\<close> loops over Read until it has the minimum it was asked
  for; its contract is the locale the decoders rely on.
\<close>

section \<open>Readers\<close>

record transport =
  segs :: "byte list list"
  end_err :: go_err

definition transport_Read :: "transport \<Rightarrow> nat \<Rightarrow> (byte list \<times> go_err option) \<times> transport" where
  "transport_Read t n =
     (case segs t of
        [] \<Rightarrow> (([], Some (end_err t)), t)
      | s # ss \<Rightarrow>
          if length s \<le> n then ((s, None), t\<lparr>segs := ss\<rparr>)
          else ((take n s, None), t\<lparr>segs := drop n s # ss\<rparr>))"

definition transport_pending :: "transport \<Rightarrow> byte list" where
  "transport_pending t = concat (segs t)"

definition transport_steps :: "transport \<Rightarrow> nat" where
  "transport_steps t = length (segs t) + length (concat (segs t))"

text \<open>\<open>bytes.Buffer\<close>: everything it holds is delivered at once, then \<open>io.EOF\<close>.\<close>

definition buffer_Read :: "byte list \<Rightarrow> nat \<Rightarrow> (byte list \<times> go_err option) \<times> byte list" where
  "buffer_Read b n =
     (if b = [] \<and> n \<noteq> 0 then (([], Some EOF), b) else ((take n b, None), drop n b))"

text \<open>chunk_streamer_reader.go: the streamer's reader counts what it reads, modulo \<open>2 ^ 32\<close>.\<close>

record ChunkStreamerReader =
  reader :: transport
  totalReadBytes :: u32
  fragmentReadBytes :: u32

definition ChunkStreamerReader_Read ::
  "ChunkStreamerReader \<Rightarrow> nat \<Rightarrow> (byte list \<times> go_err option) \<times> ChunkStreamerReader" where
  "ChunkStreamerReader_Read r b =
     (case transport_Read (reader r) b of
        ((bs, err), t) \<Rightarrow>
          ((bs, err), r\<lparr>reader := t,
                        totalReadBytes := totalReadBytes r + of_nat (length bs),
                        fragmentReadBytes := fragmentReadBytes r + of_nat (length bs)\<rparr>))"

definition TotalReadBytes :: "ChunkStreamerReader \<Rightarrow> u32" where
  "TotalReadBytes r = totalReadBytes r"

definition FragmentReadBytes :: "ChunkStreamerReader \<Rightarrow> u32" where
  "FragmentReadBytes r = fragmentReadBytes r"

definition ResetFragmentReadBytes :: "ChunkStreamerReader \<Rightarrow> ChunkStreamerReader" where
  "ResetFragmentReadBytes r = r\<lparr>fragmentReadBytes := 0\<rparr>"

definition csr_pending :: "ChunkStreamerReader \<Rightarrow> byte list" where
  "csr_pending r = transport_pending (reader r)"

definition csr_steps :: "ChunkStreamerReader \<Rightarrow> nat" where
  "csr_steps r = transport_steps (reader r)"

definition csr_fin :: "ChunkStreamerReader \<Rightarrow> go_err" where
  "csr_fin r = end_err (reader r)"

section \<open>io.ReadAtLeast\<close>

text \<open>
  \<open>ReadAtLeast (r, buf, min)\<close> with \<open>len (buf) = cap\<close>. The fuel bounds the number of Reads; the
  readers below pass one more than the Reads that can still succeed, and \<open>ErrNoProgress\<close> is
  shown never to be returned then.
\<close>

fun ReadAtLeast_loop ::
  "('r \<Rightarrow> nat \<Rightarrow> (byte list \<times> go_err option) \<times> 'r) \<Rightarrow> nat \<Rightarrow> 'r \<Rightarrow> nat \<Rightarrow> nat \<Rightarrow> byte list
     \<Rightarrow> byte list outcome \<times> 'r" where
  "ReadAtLeast_loop rd 0 r cap least_n acc = (Err ErrNoProgress, r)"
| "ReadAtLeast_loop rd (Suc fuel) r cap least_n acc =
     (if least_n \<le> length acc then (Ok acc, r)
      else case rd r (cap - length acc) of
        ((bs, None), r') \<Rightarrow> ReadAtLeast_loop rd fuel r' cap least_n (acc @ bs)
      | ((bs, Some e), r') \<Rightarrow>
          if least_n \<le> length (acc @ bs) then (Ok (acc @ bs), r')
          else if 0 < length (acc @ bs) \<and> e = EOF then (Err ErrUnexpectedEOF, r')
          else (Err e, r'))"

definition ReadAtLeast ::
  "('r \<Rightarrow> nat \<Rightarrow> (byte list \<times> go_err option) \<times> 'r) \<Rightarrow> nat \<Rightarrow> 'r \<Rightarrow> nat \<Rightarrow> nat
     \<Rightarrow> byte list outcome \<times> 'r" where
  "ReadAtLeast rd fuel r cap least_n =
     (if cap < least_n then (Err ErrShortBuffer, r) else ReadAtLeast_loop rd fuel r cap least_n [])"

definition transport_ReadAtLeast :: "transport \<Rightarrow> nat \<Rightarrow> nat \<Rightarrow> byte list outcome \<times> transport" where
  "transport_ReadAtLeast t = ReadAtLeast transport_Read (Suc (transport_steps t)) t"

definition csr_ReadAtLeast ::
  "ChunkStreamerReader \<Rightarrow> nat \<Rightarrow> nat \<Rightarrow> byte list outcome \<times> ChunkStreamerReader" where
  "csr_ReadAtLeast r = ReadAtLeast ChunkStreamerReader_Read (Suc (csr_steps r)) r"

definition buffer_ReadAtLeast :: "byte list \<Rightarrow> nat \<Rightarrow> nat \<Rightarrow> byte list outcome \<times> byte list" where
  "buffer_ReadAtLeast b = ReadAtLeast buffer_Read (Suc (length b)) b"

section \<open>The contract of io.Reader and of io.ReadAtLeast\<close>

text \<open>
  A reader delivers a prefix of what is pending, makes progress when asked for something, and
  fails only when nothing is pending.
\<close>

locale io_reader =
  fixes rd :: "'r \<Rightarrow> nat \<Rightarrow> (byte list \<times> go_err option) \<times> 'r"
    and pending :: "'r \<Rightarrow> byte list"
    and steps :: "'r \<Rightarrow> nat"
    and fin :: "'r \<Rightarrow> go_err"
  assumes read_some: "rd r n = ((bs, None), r') \<Longrightarrow>
      pending r = bs @ pending r' \<and> length bs \<le> n \<and> fin r' = fin r"
    and read_progress: "rd r n = ((bs, None), r') \<Longrightarrow> 0 < n \<Longrightarrow> steps r' < steps r"
    and read_end: "rd r n = ((bs, Some e), r') \<Longrightarrow> bs = [] \<and> pending r = [] \<and> e = fin r \<and> r' = r"
begin

lemma loop_spec:
  assumes "steps r < fuel" "least_n \<le> cap" "length acc \<le> cap"
  shows "(if least_n \<le> length acc + length (pending r)
          then \<exists>bs r'. ReadAtLeast_loop rd fuel r cap least_n acc = (Ok bs, r') \<and>
                 acc @ pending r = bs @ pending r' \<and> least_n \<le> length bs \<and> length bs \<le> cap \<and>
                 fin r' = fin r
          else \<exists>r'. ReadAtLeast_loop rd fuel r cap least_n acc =
                 (Err (if fin r = EOF \<and> 0 < length acc + length (pending r)
                       then ErrUnexpectedEOF else fin r), r') \<and>
                 pending r' = [] \<and> fin r' = fin r)"
  using assms
proof (induction fuel arbitrary: r acc)
  case 0
  then show ?case by simp
next
  case (Suc fuel)
  show ?case
  proof (cases "least_n \<le> length acc")
    case True
    with Suc.prems show ?thesis by simp
  next
    case False
    obtain bs e r' where rd: "rd r (cap - length acc) = ((bs, e), r')"
      by (metis surj_pair)
    show ?thesis
    proof (cases e)
      case None
      have p: "pending r = bs @ pending r'" and l: "length bs \<le> cap - length acc"
        and f: "fin r' = fin r" and s: "steps r' < steps r"
        using rd None read_some [of r "cap - length acc" bs r'] False Suc.prems
          read_progress [of r "cap - length acc" bs r'] by auto
      have "steps r' < fuel" "length (acc @ bs) \<le> cap" using s l Suc.prems by auto
      note IH = Suc.IH [OF this(1) Suc.prems(2) this(2)]
      have "ReadAtLeast_loop rd (Suc fuel) r cap least_n acc =
          ReadAtLeast_loop rd fuel r' cap least_n (acc @ bs)"
        using False rd None by simp
      with IH p f show ?thesis by (simp only: length_append add.assoc append_assoc)
    next
      case (Some x)
      with read_end [of r "cap - length acc" bs x r'] rd
      have "bs = []" "pending r = []" "x = fin r" "r' = r" by auto
      then show ?thesis using False rd Some by auto
    qed
  qed
qed

end

text \<open>
  What the decoders rely on: at most \<open>cap\<close> and at least \<open>least_n\<close> of the pending bytes, in order,
  or the error that says how the stream ended.
\<close>

locale at_least_reader =
  fixes ral :: "'r \<Rightarrow> nat \<Rightarrow> nat \<Rightarrow> byte list outcome \<times> 'r"
    and pending :: "'r \<Rightarrow> byte list"
    and fin :: "'r \<Rightarrow> go_err"
  assumes ral_ok: "least_n \<le> cap \<Longrightarrow> least_n \<le> length (pending r) \<Longrightarrow>
      \<exists>bs r'. ral r cap least_n = (Ok bs, r') \<and> pending r = bs @ pending r' \<and>
        least_n \<le> length bs \<and> length bs \<le> cap \<and> fin r' = fin r"
    and ral_short: "least_n \<le> cap \<Longrightarrow> length (pending r) < least_n \<Longrightarrow>
      \<exists>r'. ral r cap least_n =
          (Err (if fin r = EOF \<and> pending r \<noteq> [] then ErrUnexpectedEOF else fin r), r') \<and>
        pending r' = [] \<and> fin r' = fin r"
begin

text \<open>With a slice of exactly the length asked for, exactly that many bytes are read.\<close>

lemma ral_exact:
  assumes "pending r = bs @ rest" "length bs = n"
  shows "\<exists>r'. ral r n n = (Ok bs, r') \<and> pending r' = rest \<and> fin r' = fin r"
proof -
  from assms have "n \<le> length (pending r)" by simp
  from ral_ok [OF order_refl this] obtain cs r' where
    "ral r n n = (Ok cs, r')" "pending r = cs @ pending r'" "length cs = n" "fin r' = fin r"
    by (metis order_antisym)
  with assms show ?thesis by (metis append_eq_append_conv)
qed

lemma ral_never_panics: "ral r n n \<noteq> (Panic m, r')"
proof (cases "n \<le> length (pending r)")
  case True
  from ral_ok [OF order_refl this] show ?thesis by (metis Pair_inject outcome.distinct(3))
next
  case False
  then have "length (pending r) < n" by simp
  from ral_short [OF order_refl this] show ?thesis by (metis Pair_inject outcome.distinct(5))
qed

text \<open>A read consumes: what is pending afterwards is what was pending without the bytes read.\<close>

lemma ral_exact_inv:
  assumes "ral r n n = (Ok bs, r')"
  shows "pending r = bs @ pending r' \<and> length bs = n \<and> fin r' = fin r"
proof (cases "n \<le> length (pending r)")
  case True
  from ral_ok [OF order_refl this] assms show ?thesis by (metis Pair_inject order_antisym outcome.inject(1))
next
  case False
  then have "length (pending r) < n" by simp
  from ral_short [OF order_refl this] assms show ?thesis by auto
qed

lemma ral_err_inv:
  assumes "ral r n n = (Err e, r')"
  shows "length (pending r) < n \<and> pending r' = [] \<and> fin r' = fin r \<and>
    e = (if fin r = EOF \<and> pending r \<noteq> [] then ErrUnexpectedEOF else fin r)"
proof (cases "n \<le> length (pending r)")
  case True
  from ral_ok [OF order_refl this] assms show ?thesis by auto
next
  case False
  then have "length (pending r) < n" by simp
  from ral_short [OF order_refl this] this assms show ?thesis by auto
qed

end

text \<open>Every reader gives a reader of at least a minimum.\<close>

sublocale io_reader \<subseteq> full: at_least_reader
  "\<lambda>r. ReadAtLeast rd (Suc (steps r)) r" pending fin
proof
  fix r cap and least_n :: nat
  assume "least_n \<le> cap" "least_n \<le> length (pending r)"
  then show "\<exists>bs r'. ReadAtLeast rd (Suc (steps r)) r cap least_n = (Ok bs, r') \<and>
      pending r = bs @ pending r' \<and> least_n \<le> length bs \<and> length bs \<le> cap \<and> fin r' = fin r"
    using loop_spec [of r "Suc (steps r)" least_n cap "[]"] by (simp add: ReadAtLeast_def)
next
  fix r cap and least_n :: nat
  assume "least_n \<le> cap" "length (pending r) < least_n"
  then show "\<exists>r'. ReadAtLeast rd (Suc (steps r)) r cap least_n =
      (Err (if fin r = EOF \<and> pending r \<noteq> [] then ErrUnexpectedEOF else fin r), r') \<and>
      pending r' = [] \<and> fin r' = fin r"
    using loop_spec [of r "Suc (steps r)" least_n cap "[]"] by (simp add: ReadAtLeast_def)
qed

section \<open>The program's readers\<close>

interpretation transport_reader:
  io_reader transport_Read transport_pending transport_steps end_err
  by unfold_locales
    (auto simp: transport_Read_def transport_pending_def transport_steps_def split: list.splits if_splits)

interpretation buffer_reader: io_reader buffer_Read "\<lambda>b. b" length "\<lambda>_. EOF"
  by unfold_locales (auto simp: buffer_Read_def split: if_splits)

interpretation csr_reader: io_reader ChunkStreamerReader_Read csr_pending csr_steps csr_fin
  by unfold_locales
    (auto simp: ChunkStreamerReader_Read_def csr_pending_def csr_steps_def csr_fin_def
       dest: transport_reader.read_some transport_reader.read_progress transport_reader.read_end
       split: prod.splits)

text \<open>The three \<open>io.ReadAtLeast\<close> the decoders are called with keep the contract.\<close>

interpretation transp: at_least_reader transport_ReadAtLeast transport_pending end_err
  unfolding transport_ReadAtLeast_def by (rule transport_reader.full.at_least_reader_axioms)

interpretation bbuf: at_least_reader buffer_ReadAtLeast "\<lambda>b. b" "\<lambda>_. EOF"
  unfolding buffer_ReadAtLeast_def by (rule buffer_reader.full.at_least_reader_axioms)

interpretation csr: at_least_reader csr_ReadAtLeast csr_pending csr_fin
  unfolding csr_ReadAtLeast_def by (rule csr_reader.full.at_least_reader_axioms)

section \<open>io.Copy into a buffer, and writers\<close>

text \<open>
  \<open>io.CopyBuffer (&buf, io.LimitReader (r, n), cache)\<close>: reads until \<open>n\<close> bytes have been appended or
  the reader ends. The end of the stream is not an error of a copy. The slice passed to each Read
  is what the limit leaves; \<open>bytes.Buffer\<close> may offer less room, which changes the number of Reads
  and nothing else.
\<close>

fun CopyLimit_loop ::
  "('r \<Rightarrow> nat \<Rightarrow> (byte list \<times> go_err option) \<times> 'r) \<Rightarrow> nat \<Rightarrow> 'r \<Rightarrow> nat \<Rightarrow> byte list
     \<Rightarrow> (byte list \<times> go_err option) \<times> 'r" where
  "CopyLimit_loop rd 0 r n acc = ((acc, Some ErrNoProgress), r)"
| "CopyLimit_loop rd (Suc fuel) r n acc =
     (if n = 0 then ((acc, None), r)
      else case rd r n of
        ((bs, None), r') \<Rightarrow> CopyLimit_loop rd fuel r' (n - length bs) (acc @ bs)
      | ((bs, Some e), r') \<Rightarrow> ((acc @ bs, if e = EOF then None else Some e), r'))"

definition csr_CopyLimit ::
  "ChunkStreamerReader \<Rightarrow> nat \<Rightarrow> (byte list \<times> go_err option) \<times> ChunkStreamerReader" where
  "csr_CopyLimit r n = CopyLimit_loop ChunkStreamerReader_Read (Suc (csr_steps r)) r n []"

context io_reader
begin

lemma copy_spec:
  assumes "steps r < fuel"
  shows "\<exists>r'. CopyLimit_loop rd fuel r n acc =
      ((acc @ take n (pending r),
        if length (pending r) < n \<and> fin r \<noteq> EOF then Some (fin r) else None), r') \<and>
      pending r' = drop n (pending r) \<and> fin r' = fin r"
  using assms
proof (induction fuel arbitrary: r n acc)
  case 0
  then show ?case by simp
next
  case (Suc fuel)
  show ?case
  proof (cases "n = 0")
    case True
    then show ?thesis by simp
  next
    case False
    obtain bs e r' where rd: "rd r n = ((bs, e), r')" by (metis surj_pair)
    show ?thesis
    proof (cases e)
      case None
      have p: "pending r = bs @ pending r'" and l: "length bs \<le> n" and f: "fin r' = fin r"
        using rd None read_some [of r n bs r'] by auto
      have "steps r' < fuel" using rd None False read_progress [of r n bs r'] Suc.prems by simp
      from Suc.IH [OF this, of "n - length bs" "acc @ bs"]
      show ?thesis using False rd None p l f by (auto simp: less_diff_conv2)
    next
      case (Some x)
      with read_end [of r n bs x r'] rd False show ?thesis by auto
    qed
  qed
qed

end

text \<open>
  A writer takes bytes until the connection breaks; \<open>room\<close> is what it still takes (\<open>None\<close>: it never
  breaks) and \<open>werr\<close> the error every later Write returns. chunk_streamer_writer.go writes through a
  \<open>bufio.Writer\<close> and flushes it after every chunk, so at the end of a chunk what it was given is
  what was sent.
\<close>

record ChunkStreamerWriter =
  sent :: "byte list"
  room :: "nat option"
  werr :: go_err

definition ChunkStreamerWriter_Write ::
  "ChunkStreamerWriter \<Rightarrow> byte list \<Rightarrow> unit outcome \<times> ChunkStreamerWriter" where
  "ChunkStreamerWriter_Write w bs =
     (case room w of
        None \<Rightarrow> (Ok (), w\<lparr>sent := sent w @ bs\<rparr>)
      | Some k \<Rightarrow>
          if length bs \<le> k then (Ok (), w\<lparr>sent := sent w @ bs, room := Some (k - length bs)\<rparr>)
          else (Err (werr w), w\<lparr>sent := sent w @ take k bs, room := Some 0\<rparr>))"

definition ChunkStreamerWriter_Flush ::
  "ChunkStreamerWriter \<Rightarrow> unit outcome \<times> ChunkStreamerWriter" where
  "ChunkStreamerWriter_Flush w = (Ok (), w)"

lemma Write_Ok:
  "ChunkStreamerWriter_Write w bs = (Ok (), w') \<Longrightarrow> sent w' = sent w @ bs"
  by (auto simp: ChunkStreamerWriter_Write_def split: option.splits if_splits)

lemma Write_open:
  "room w = None \<Longrightarrow> ChunkStreamerWriter_Write w bs = (Ok (), w\<lparr>sent := sent w @ bs\<rparr>)"
  by (simp add: ChunkStreamerWriter_Write_def)

lemma Write_never_panics: "ChunkStreamerWriter_Write w bs \<noteq> (Panic m, w')"
  by (auto simp: ChunkStreamerWriter_Write_def split: option.splits if_splits)

end
