(* ===== verification/ChunkHeader.thy ===== *)
theory ChunkHeader
  imports GoIO
begin

text \<open>
  chunk_header.go: the basic header (chunk type and chunk stream id, one to three bytes) and the
  message header (none, three, seven or eleven bytes and an optional extended timestamp), each
  with its decoder and its encoder. The decoders take the reader's \<open>io.ReadAtLeast\<close> as an
  argument and are verified against its contract, once for every reader.
\<close>

section \<open>The basic header\<close>

record chunkBasicHeader =
  fmt :: byte
  chunkStreamID :: int

text \<open>
  \<open>buflen\<close> is the length of the scratch slice the caller passes (0 for nil). A slice shorter than 3
  is replaced by one of length 3; a longer one is used as it is, and the two bytes of a large
  chunk stream id are read into all that is left of it.
\<close>

definition decodeChunkBasicHeader ::
  "('r \<Rightarrow> nat \<Rightarrow> nat \<Rightarrow> byte list outcome \<times> 'r) \<Rightarrow> 'r \<Rightarrow> nat \<Rightarrow> chunkBasicHeader outcome \<times> 'r" where
  "decodeChunkBasicHeader ral r buflen =
     (let len_buf = (if buflen < 3 then 3 else buflen) in
      andthen (ral r 1 1) (\<lambda>buf0 r.
        let fmtTy = drop_bit 6 (buf0 ! 0 AND 0xc0);
            csID = uint (buf0 ! 0 AND 0x3f)
        in
          if csID = 0 then
            andthen (ral r 1 1) (\<lambda>buf1 r.
              (Ok \<lparr>fmt = fmtTy, chunkStreamID = uint (buf1 ! 0) + 64\<rparr>, r))
          else if csID = 1 then
            andthen (ral r (len_buf - 1) 2) (\<lambda>buf1 r.
              (Ok \<lparr>fmt = fmtTy,
                   chunkStreamID = uint (buf1 ! 1) * 256 + uint (buf1 ! 0) + 64\<rparr>, r))
          else (Ok \<lparr>fmt = fmtTy, chunkStreamID = csID\<rparr>, r)))"

text \<open>The bytes of a basic header; \<open>Errorf\<close> when the id is out of range.\<close>

definition basicHeaderBytes :: "chunkBasicHeader \<Rightarrow> byte list outcome" where
  "basicHeaderBytes mh =
     (let buf0 = push_bit 6 (fmt mh AND 0x03); csid = chunkStreamID mh in
      if 2 \<le> csid \<and> csid \<le> 63 then
        Ok [buf0 OR word_of_int (csid AND 0x3f)]
      else if 64 \<le> csid \<and> csid \<le> 319 then
        Ok [buf0 OR (0 AND 0x3f), word_of_int (csid - 64)]
      else if 320 \<le> csid \<and> csid \<le> 65599 then
        Ok [buf0 OR (1 AND 0x3f), word_of_int ((csid - 64) mod 256), word_of_int ((csid - 64) div 256)]
      else
        Err (Errorf ''Chunk stream id is out of range: %d must be in range [2, 65599]'' [ArgInt csid]))"

definition encodeChunkBasicHeader ::
  "ChunkStreamerWriter \<Rightarrow> chunkBasicHeader \<Rightarrow> unit outcome \<times> ChunkStreamerWriter" where
  "encodeChunkBasicHeader w mh =
     (case basicHeaderBytes mh of
        Ok buf \<Rightarrow> ChunkStreamerWriter_Write w buf
      | Err e \<Rightarrow> (Err e, w)
      | Panic m \<Rightarrow> (Panic m, w))"

section \<open>The message header\<close>

record chunkMessageHeader =
  mh_timestamp :: u32
  mh_timestampDelta :: u32
  mh_messageLength :: u32
  mh_messageTypeID :: byte
  mh_messageStreamID :: u32

definition decodeChunkMessageHeader ::
  "('r \<Rightarrow> nat \<Rightarrow> nat \<Rightarrow> byte list outcome \<times> 'r) \<Rightarrow> 'r \<Rightarrow> byte \<Rightarrow> chunkMessageHeader
     \<Rightarrow> chunkMessageHeader outcome \<times> 'r" where
  "decodeChunkMessageHeader ral r f mh =
     (if f = 0 then
        andthen (ral r 11 11) (\<lambda>buf r.
          let mh = mh\<lparr>mh_timestamp := get_be24 (take 3 buf),
                      mh_messageLength := get_be24 (take 3 (drop 3 buf)),
                      mh_messageTypeID := buf ! 6,
                      mh_messageStreamID := get_le (take 4 (drop 7 buf))\<rparr>
          in if mh_timestamp mh = 0xffffff then
               andthen (ral r 4 4) (\<lambda>cache32bits r. (Ok (mh\<lparr>mh_timestamp := get_be cache32bits\<rparr>), r))
             else (Ok mh, r))
      else if f = 1 then
        andthen (ral r 7 7) (\<lambda>buf r.
          let mh = mh\<lparr>mh_timestampDelta := get_be24 (take 3 buf),
                      mh_messageLength := get_be24 (take 3 (drop 3 buf)),
                      mh_messageTypeID := buf ! 6\<rparr>
          in if mh_timestampDelta mh = 0xffffff then
               andthen (ral r 4 4) (\<lambda>cache32bits r. (Ok (mh\<lparr>mh_timestampDelta := get_be cache32bits\<rparr>), r))
             else (Ok mh, r))
      else if f = 2 then
        andthen (ral r 3 3) (\<lambda>buf r.
          let mh = mh\<lparr>mh_timestampDelta := get_be24 (take 3 buf)\<rparr>
          in if mh_timestampDelta mh = 0xffffff then
               andthen (ral r 4 4) (\<lambda>cache32bits r. (Ok (mh\<lparr>mh_timestampDelta := get_be cache32bits\<rparr>), r))
             else (Ok mh, r))
      else if f = 3 then (Ok mh, r)
      else (Panic ''Unexpected fmt'', r))"

text \<open>The 24-bit time field: what does not fit is sent as \<open>0xffffff\<close> and then in full.\<close>

definition timeField :: "u32 \<Rightarrow> byte list" where
  "timeField t = put_be24 (if 0xffffff \<le> t then 0xffffff else t)"

definition timeExt :: "u32 \<Rightarrow> byte list" where
  "timeExt t = (if 0xffffff \<le> t then put_be 4 t else [])"

definition messageHeaderBytes :: "byte \<Rightarrow> chunkMessageHeader \<Rightarrow> byte list outcome" where
  "messageHeaderBytes f mh =
     (if f = 0 then
        Ok (timeField (mh_timestamp mh) @ put_be24 (mh_messageLength mh) @ [mh_messageTypeID mh] @
            put_le 4 (mh_messageStreamID mh) @ timeExt (mh_timestamp mh))
      else if f = 1 then
        Ok (timeField (mh_timestampDelta mh) @ put_be24 (mh_messageLength mh) @
            [mh_messageTypeID mh] @ timeExt (mh_timestampDelta mh))
      else if f = 2 then
        Ok (timeField (mh_timestampDelta mh) @ timeExt (mh_timestampDelta mh))
      else if f = 3 then Ok []
      else Panic ''Unexpected fmt'')"

text \<open>For type 3 the code returns before it writes; writing no bytes is the same.\<close>

definition encodeChunkMessageHeader ::
  "ChunkStreamerWriter \<Rightarrow> byte \<Rightarrow> chunkMessageHeader \<Rightarrow> unit outcome \<times> ChunkStreamerWriter" where
  "encodeChunkMessageHeader w f mh =
     (if f = 3 then (Ok (), w)
      else case messageHeaderBytes f mh of
        Ok buf \<Rightarrow> ChunkStreamerWriter_Write w buf
      | Err e \<Rightarrow> (Err e, w)
      | Panic m \<Rightarrow> (Panic m, w))"

text \<open>
  What a receiver learns from a header of type \<open>f\<close>: the fields that type carries, the length cut
  to 24 bits; the others keep the values \<open>mh0\<close> had.
\<close>

definition wireHeader :: "byte \<Rightarrow> chunkMessageHeader \<Rightarrow> chunkMessageHeader \<Rightarrow> chunkMessageHeader" where
  "wireHeader f mh mh0 =
     (if f = 0 then
        mh0\<lparr>mh_timestamp := mh_timestamp mh, mh_messageLength := take_bit 24 (mh_messageLength mh),
            mh_messageTypeID := mh_messageTypeID mh, mh_messageStreamID := mh_messageStreamID mh\<rparr>
      else if f = 1 then
        mh0\<lparr>mh_timestampDelta := mh_timestampDelta mh,
            mh_messageLength := take_bit 24 (mh_messageLength mh),
            mh_messageTypeID := mh_messageTypeID mh\<rparr>
      else if f = 2 then mh0\<lparr>mh_timestampDelta := mh_timestampDelta mh\<rparr>
      else mh0)"

section \<open>Basic facts\<close>

lemma length_timeField [simp]: "length (timeField t) = 3"
  by (simp add: timeField_def)

lemma get_timeField: "get_be24 (timeField t) = (if 0xffffff \<le> t then 0xffffff else t)"
  by (simp add: timeField_def get_put_be24 take_bit_24_id)

lemma basicHeaderBytes_total:
  "basicHeaderBytes mh \<noteq> Panic m"
  by (simp add: basicHeaderBytes_def Let_def)

lemma basicHeaderBytes_range:
  "(\<exists>bs. basicHeaderBytes mh = Ok bs) \<longleftrightarrow> 2 \<le> chunkStreamID mh \<and> chunkStreamID mh \<le> 65599"
  by (auto simp: basicHeaderBytes_def Let_def)

text \<open>The bits of the first byte: two of type, six of id.\<close>

lemma byte_masks:
  "(0x03 :: byte) = mask 2" "(0x3f :: byte) = mask 6" "(0xc0 :: byte) = push_bit 6 (mask 2)"
  by (simp_all add: mask_eq_exp_minus_1)

lemma six_bits: "(b :: byte) \<le> 0x3f \<longleftrightarrow> take_bit 6 b = b"
  by (simp add: word_le_nat_alt word_unat_eq_iff unsigned_take_bit_eq take_bit_nat_eq_self_iff) arith

lemma first_byte_fmt:
  fixes f b :: byte
  assumes "b \<le> 0x3f"
  shows "drop_bit 6 ((push_bit 6 (f AND 0x03) OR b) AND 0xc0) = f AND 0x03"
proof (rule bit_word_eqI)
  fix k :: nat assume "k < LENGTH(8)"
  have "\<not> bit b (6 + k)" using assms unfolding six_bits by (metis bit_take_bit_iff less_add_same_cancel1 not_add_less1)
  then show "bit (drop_bit 6 ((push_bit 6 (f AND 0x03) OR b) AND 0xc0)) k \<longleftrightarrow> bit (f AND 0x03) k"
    unfolding byte_masks by (auto simp: bit_simps)
qed

lemma first_byte_id:
  fixes f b :: byte
  assumes "b \<le> 0x3f"
  shows "(push_bit 6 (f AND 0x03) OR b) AND 0x3f = b"
proof (rule bit_word_eqI)
  fix k :: nat assume "k < LENGTH(8)"
  have "bit b k \<Longrightarrow> k < 6" using assms unfolding six_bits by (metis bit_take_bit_iff)
  then show "bit ((push_bit 6 (f AND 0x03) OR b) AND 0x3f) k \<longleftrightarrow> bit b k"
    unfolding byte_masks by (auto simp: bit_simps)
qed
lemma two_bits:
  assumes "(f :: byte) \<le> 3"
  shows "f AND 0x03 = f"
proof -
  have "take_bit 2 f = f" using assms by (simp add: word_le_nat_alt word_unat_eq_iff unsigned_take_bit_eq take_bit_nat_eq_self_iff)
  then show ?thesis by (simp add: byte_masks(1) take_bit_eq_mask)
qed

lemma small_id_word:
  assumes "0 \<le> cid" "cid \<le> 63"
  shows "(word_of_int (cid AND 0x3f) :: byte) \<le> 0x3f" "uint (word_of_int (cid AND 0x3f) :: byte) = cid"
proof -
  have "cid AND 0x3f = cid mod 2 ^ 6"
    by (simp only: take_bit_eq_mod [symmetric] take_bit_eq_mask mask_eq_exp_minus_1) simp
  with assms have "cid AND 0x3f = cid" by simp
  with assms show "(word_of_int (cid AND 0x3f) :: byte) \<le> 0x3f"
    "uint (word_of_int (cid AND 0x3f) :: byte) = cid"
    by (simp_all add: word_le_def uint_word_of_int)
qed

section \<open>Round trips, for every reader\<close>

context at_least_reader
begin

lemma read_one:
  assumes "pending r = b # rest"
  shows "\<exists>r'. ral r 1 1 = (Ok [b], r') \<and> pending r' = rest \<and> fin r' = fin r"
  using ral_exact [of r "[b]" rest 1] assms by simp

text \<open>The first byte of a basic header decides how the rest is read.\<close>

lemma decode_first_byte:
  assumes "pending r = (push_bit 6 (f AND 0x03) OR w) # rest" "w \<le> 0x3f"
  shows "\<exists>r'. pending r' = rest \<and> fin r' = fin r \<and>
    decodeChunkBasicHeader ral r buflen =
      (if w = 0 then
         andthen (ral r' 1 1) (\<lambda>b r. (Ok \<lparr>fmt = f AND 0x03, chunkStreamID = uint (b ! 0) + 64\<rparr>, r))
       else if w = 1 then
         andthen (ral r' ((if buflen < 3 then 3 else buflen) - 1) 2) (\<lambda>b r.
           (Ok \<lparr>fmt = f AND 0x03, chunkStreamID = uint (b ! 1) * 256 + uint (b ! 0) + 64\<rparr>, r))
       else (Ok \<lparr>fmt = f AND 0x03, chunkStreamID = uint w\<rparr>, r'))"
proof -
  obtain b where b: "b = push_bit 6 (f AND 0x03) OR w" by simp
  from read_one assms(1) obtain r' where r': "ral r 1 1 = (Ok [b], r')" "pending r' = rest" "fin r' = fin r"
    unfolding b by blast
  have bits: "drop_bit 6 (b AND 0xc0) = f AND 0x03" "b AND 0x3f = w"
    unfolding b using assms(2) by (simp_all only: first_byte_fmt first_byte_id)
  have ids: "uint w = 0 \<longleftrightarrow> w = 0" "uint w = 1 \<longleftrightarrow> w = 1"
    by (simp_all add: word_uint_eq_iff)
  show ?thesis
    by (rule exI [of _ r'])
      (simp only: decodeChunkBasicHeader_def Let_def r' bindo.simps nth_Cons_0 bits ids simp_thms)
qed

lemma basic_header_small:
  assumes "2 \<le> chunkStreamID mh" "chunkStreamID mh \<le> 63" "pending r = bs @ rest"
    "basicHeaderBytes mh = Ok bs"
  shows "\<exists>r'. decodeChunkBasicHeader ral r buflen = (Ok (mh\<lparr>fmt := fmt mh AND 0x03\<rparr>), r') \<and>
    pending r' = rest \<and> fin r' = fin r"
proof -
  let ?w = "word_of_int (chunkStreamID mh AND 0x3f) :: byte"
  note w = small_id_word [of "chunkStreamID mh"]
  have u: "uint ?w = chunkStreamID mh" and le: "?w \<le> 0x3f" using assms w by auto
  with assms have "?w \<noteq> 0" "?w \<noteq> 1" by auto
  moreover have "pending r = (push_bit 6 (fmt mh AND 0x03) OR ?w) # rest"
    using assms by (auto simp: basicHeaderBytes_def Let_def)
  ultimately show ?thesis using decode_first_byte [of r "fmt mh" ?w rest buflen] le u by auto
qed

lemma basic_header_medium:
  assumes "64 \<le> chunkStreamID mh" "chunkStreamID mh \<le> 319" "pending r = bs @ rest"
    "basicHeaderBytes mh = Ok bs"
  shows "\<exists>r'. decodeChunkBasicHeader ral r buflen = (Ok (mh\<lparr>fmt := fmt mh AND 0x03\<rparr>), r') \<and>
    pending r' = rest \<and> fin r' = fin r"
proof -
  let ?b = "word_of_int (chunkStreamID mh - 64) :: byte"
  have "pending r = (push_bit 6 (fmt mh AND 0x03) OR 0) # ?b # rest"
    using assms by (auto simp: basicHeaderBytes_def Let_def)
  from decode_first_byte [OF this] obtain r1 where r1: "pending r1 = ?b # rest" "fin r1 = fin r"
    "decodeChunkBasicHeader ral r buflen =
       andthen (ral r1 1 1) (\<lambda>b r. (Ok \<lparr>fmt = fmt mh AND 0x03, chunkStreamID = uint (b ! 0) + 64\<rparr>, r))"
    by auto
  moreover have "uint ?b + 64 = chunkStreamID mh"
    using assms by (simp only: uint_word_of_int) simp
  ultimately show ?thesis using read_one [OF r1(1)] by auto
qed

text \<open>
  The three-byte form is read back only when the scratch slice has length 3 (or is replaced):
  with a longer slice more than two bytes may be taken.
\<close>

lemma basic_header_large:
  assumes "320 \<le> chunkStreamID mh" "chunkStreamID mh \<le> 65599" "pending r = bs @ rest"
    "basicHeaderBytes mh = Ok bs" "buflen < 4"
  shows "\<exists>r'. decodeChunkBasicHeader ral r buflen = (Ok (mh\<lparr>fmt := fmt mh AND 0x03\<rparr>), r') \<and>
    pending r' = rest \<and> fin r' = fin r"
proof -
  let ?lo = "word_of_int ((chunkStreamID mh - 64) mod 256) :: byte"
  let ?hi = "word_of_int ((chunkStreamID mh - 64) div 256) :: byte"
  have "pending r = (push_bit 6 (fmt mh AND 0x03) OR 1) # ?lo # ?hi # rest"
    using assms by (auto simp: basicHeaderBytes_def Let_def)
  moreover have "(if buflen < 3 then 3 else buflen) - 1 = 2" using assms(5) by auto
  ultimately obtain r1 where r1: "pending r1 = [?lo, ?hi] @ rest"
    "fin r1 = fin r"
    "decodeChunkBasicHeader ral r buflen =
       andthen (ral r1 2 2) (\<lambda>b r.
         (Ok \<lparr>fmt = fmt mh AND 0x03, chunkStreamID = uint (b ! 1) * 256 + uint (b ! 0) + 64\<rparr>, r))"
    using decode_first_byte [of r "fmt mh" 1 "?lo # ?hi # rest" buflen] by auto
  moreover have "uint ?hi * 256 + uint ?lo + 64 = chunkStreamID mh"
    using assms by (simp only: uint_word_of_int) simp
  ultimately show ?thesis using ral_exact [OF r1(1), of 2] by auto
qed

lemma basic_header_roundtrip:
  assumes "basicHeaderBytes mh = Ok bs" "pending r = bs @ rest"
    "buflen < 4 \<or> chunkStreamID mh < 320"
  shows "\<exists>r'. decodeChunkBasicHeader ral r buflen = (Ok (mh\<lparr>fmt := fmt mh AND 0x03\<rparr>), r') \<and>
    pending r' = rest \<and> fin r' = fin r"
proof -
  from assms(1) have "2 \<le> chunkStreamID mh" "chunkStreamID mh \<le> 65599"
    using basicHeaderBytes_range by blast+
  then consider "chunkStreamID mh \<le> 63" | "64 \<le> chunkStreamID mh" "chunkStreamID mh \<le> 319"
    | "320 \<le> chunkStreamID mh" by linarith
  then show ?thesis
    using basic_header_small basic_header_medium basic_header_large assms
      \<open>2 \<le> chunkStreamID mh\<close> \<open>chunkStreamID mh \<le> 65599\<close>
    by cases (auto simp: not_less)
qed

text \<open>The extended time field follows exactly when the 24-bit field is all ones.\<close>

lemma read_time_ext:
  assumes "pending r = timeExt t @ rest"
  shows "\<exists>r'. pending r' = rest \<and> fin r' = fin r \<and>
    (if get_be24 (timeField t) = 0xffffff then ral r 4 4 = (Ok (put_be 4 t), r')
     else r' = r \<and> get_be24 (timeField t) = t)"
proof (cases "0xffffff \<le> t")
  case True
  then have "pending r = put_be 4 t @ rest" using assms by (simp add: timeExt_def)
  from ral_exact [OF this, of 4] True show ?thesis by (auto simp: get_timeField)
next
  case False
  then show ?thesis using assms by (auto simp: timeExt_def get_timeField)
qed

lemma message_header_0:
  assumes "messageHeaderBytes 0 mh = Ok bs" "pending r = bs @ rest"
  shows "\<exists>r'. decodeChunkMessageHeader ral r 0 mh0 = (Ok (wireHeader 0 mh mh0), r') \<and>
    pending r' = rest \<and> fin r' = fin r"
proof -
  obtain buf where buf_eq: "buf = timeField (mh_timestamp mh) @ put_be24 (mh_messageLength mh) @
      [mh_messageTypeID mh] @ put_le 4 (mh_messageStreamID mh)"
    by simp
  have "pending r = buf @ timeExt (mh_timestamp mh) @ rest"
    using assms by (auto simp: messageHeaderBytes_def buf_eq)
  from ral_exact [OF this, of 11] obtain r1 where r1: "ral r 11 11 = (Ok buf, r1)"
    "pending r1 = timeExt (mh_timestamp mh) @ rest" "fin r1 = fin r"
    by (auto simp: buf_eq)
  have buf: "take 3 buf = timeField (mh_timestamp mh)"
    "take 3 (drop 3 buf) = put_be24 (mh_messageLength mh)"
    "buf ! 6 = mh_messageTypeID mh"
    "take 4 (drop 7 buf) = put_le 4 (mh_messageStreamID mh)"
    by (simp_all add: buf_eq nth_append)
  from read_time_ext [OF r1(2)] show ?thesis
    unfolding decodeChunkMessageHeader_def Let_def r1(1) bindo.simps buf
    by (cases "get_be24 (timeField (mh_timestamp mh)) = 0xffffff") (auto simp: r1(3) wireHeader_def wire)
qed

lemma message_header_1:
  assumes "messageHeaderBytes 1 mh = Ok bs" "pending r = bs @ rest"
  shows "\<exists>r'. decodeChunkMessageHeader ral r 1 mh0 = (Ok (wireHeader 1 mh mh0), r') \<and>
    pending r' = rest \<and> fin r' = fin r"
proof -
  obtain buf where buf_eq: "buf = timeField (mh_timestampDelta mh) @ put_be24 (mh_messageLength mh) @
      [mh_messageTypeID mh]"
    by simp
  have "pending r = buf @ timeExt (mh_timestampDelta mh) @ rest"
    using assms by (auto simp: messageHeaderBytes_def buf_eq)
  from ral_exact [OF this, of 7] obtain r1 where r1: "ral r 7 7 = (Ok buf, r1)"
    "pending r1 = timeExt (mh_timestampDelta mh) @ rest" "fin r1 = fin r"
    by (auto simp: buf_eq)
  have buf: "take 3 buf = timeField (mh_timestampDelta mh)"
    "take 3 (drop 3 buf) = put_be24 (mh_messageLength mh)"
    "buf ! 6 = mh_messageTypeID mh"
    by (simp_all add: buf_eq nth_append)
  from read_time_ext [OF r1(2)] show ?thesis
    unfolding decodeChunkMessageHeader_def Let_def r1(1) bindo.simps buf
    by (cases "get_be24 (timeField (mh_timestampDelta mh)) = 0xffffff") (auto simp: r1(3) wireHeader_def wire)
qed

lemma message_header_2:
  assumes "messageHeaderBytes 2 mh = Ok bs" "pending r = bs @ rest"
  shows "\<exists>r'. decodeChunkMessageHeader ral r 2 mh0 = (Ok (wireHeader 2 mh mh0), r') \<and>
    pending r' = rest \<and> fin r' = fin r"
proof -
  obtain buf where buf_eq: "buf = timeField (mh_timestampDelta mh)"
    by simp
  have "pending r = buf @ timeExt (mh_timestampDelta mh) @ rest"
    using assms by (auto simp: messageHeaderBytes_def buf_eq)
  from ral_exact [OF this, of 3] obtain r1 where r1: "ral r 3 3 = (Ok buf, r1)"
    "pending r1 = timeExt (mh_timestampDelta mh) @ rest" "fin r1 = fin r"
    by (auto simp: buf_eq)
  have buf: "take 3 buf = timeField (mh_timestampDelta mh)"
    by (simp_all add: buf_eq nth_append)
  from read_time_ext [OF r1(2)] show ?thesis
    unfolding decodeChunkMessageHeader_def Let_def r1(1) bindo.simps buf
    by (cases "get_be24 (timeField (mh_timestampDelta mh)) = 0xffffff") (auto simp: r1(3) wireHeader_def wire)
qed

lemma message_header_roundtrip:
  assumes "messageHeaderBytes f mh = Ok bs" "pending r = bs @ rest"
  shows "\<exists>r'. decodeChunkMessageHeader ral r f mh0 = (Ok (wireHeader f mh mh0), r') \<and>
    pending r' = rest \<and> fin r' = fin r"
proof -
  from assms(1) consider "f = 0" | "f = 1" | "f = 2" | "f = 3"
    by (auto simp: messageHeaderBytes_def split: if_splits)
  then show ?thesis
  proof cases
    case 4
    with assms have "decodeChunkMessageHeader ral r f mh0 = (Ok (wireHeader f mh mh0), r)" "pending r = rest"
      by (auto simp: messageHeaderBytes_def decodeChunkMessageHeader_def wireHeader_def)
    then show ?thesis by auto
  qed (use message_header_0 message_header_1 message_header_2 assms in blast)+
qed

end

section \<open>Properties\<close>

text \<open>
  The decoder of the basic header, on the connection's reader and under every segmentation of
  the bytes, reads back the header the encoder wrote and leaves exactly the bytes after it, for
  chunk stream ids below 320, or with a scratch slice shorter than four bytes.
\<close>

lemma basic_header_read_back:
  assumes "basicHeaderBytes mh = Ok bs" "csr_pending r = bs @ rest"
    and "buflen < 4 \<or> chunkStreamID mh < 320"
  shows "\<exists>r'. decodeChunkBasicHeader csr_ReadAtLeast r buflen = (Ok (mh\<lparr>fmt := fmt mh AND 0x03\<rparr>), r') \<and>
    csr_pending r' = rest"
  using csr.basic_header_roundtrip [OF assms] by blast

definition sampleReader :: "byte list list \<Rightarrow> ChunkStreamerReader" where
  "sampleReader ss = \<lparr>reader = \<lparr>segs = ss, end_err = EOF\<rparr>, totalReadBytes = 0, fragmentReadBytes = 0\<rparr>"

lemma sampleReader_pending [simp]: "csr_pending (sampleReader ss) = concat ss"
  by (simp add: sampleReader_def csr_pending_def transport_pending_def)

lemma basic_header_read_back_witness:
  "\<exists>r'. decodeChunkBasicHeader csr_ReadAtLeast (sampleReader [[0x80], [36, 7]]) 65536 =
      (Ok \<lparr>fmt = 2, chunkStreamID = 100\<rparr>, r') \<and> csr_pending r' = [7]"
  using basic_header_read_back [of "\<lparr>fmt = 2, chunkStreamID = 100\<rparr>" "[0x80, 36]"
      "sampleReader [[0x80], [36, 7]]" "[7]" 65536]
  by (simp add: basicHeaderBytes_def Let_def)

text \<open>Reads from a connection that delivered one segment.\<close>

lemma csr_read_segment:
  assumes "segs (reader r) = [s]" "0 < m" "m \<le> length s" "length s \<le> cap"
  shows "\<exists>r'. csr_ReadAtLeast r cap m = (Ok s, r') \<and> segs (reader r') = []"
proof -
  have "csr_steps r = Suc (length s)"
    using assms(1) by (simp add: csr_steps_def transport_steps_def)
  then show ?thesis
    using assms by (cases s) (auto simp: csr_ReadAtLeast_def ReadAtLeast_def
        ChunkStreamerReader_Read_def transport_Read_def)
qed

lemma csr_read_first:
  assumes "segs (reader r) = [b # s]" "s \<noteq> []"
  shows "\<exists>r'. csr_ReadAtLeast r 1 1 = (Ok [b], r') \<and> segs (reader r') = [s]"
proof -
  have "csr_steps r = Suc (Suc (length s))"
    using assms(1) by (simp add: csr_steps_def transport_steps_def)
  then show ?thesis
    using assms by (cases s) (auto simp: csr_ReadAtLeast_def ReadAtLeast_def
        ChunkStreamerReader_Read_def transport_Read_def)
qed

text \<open>
  With the streamer's 64 KiB scratch slice the three-byte form takes everything that the
  connection has delivered together with it: of a segment that carries such a header and more, no
  byte is left for the message header.
\<close>

lemma basic_header_overread:
  assumes "320 \<le> chunkStreamID mh" "basicHeaderBytes mh = Ok bs"
    and "segs (reader r) = [bs @ rest]" "length rest \<le> 65533"
  shows "\<exists>r'. decodeChunkBasicHeader csr_ReadAtLeast r 65536 = (Ok (mh\<lparr>fmt := fmt mh AND 0x03\<rparr>), r') \<and>
    csr_pending r' = []"
proof -
  obtain lo hi :: byte where lh: "lo = word_of_int ((chunkStreamID mh - 64) mod 256)"
    "hi = word_of_int ((chunkStreamID mh - 64) div 256)" by simp
  have "chunkStreamID mh \<le> 65599" using assms(2) basicHeaderBytes_range by blast
  then have id: "uint hi * 256 + uint lo + 64 = chunkStreamID mh"
    using assms(1) unfolding lh by (simp only: uint_word_of_int) simp
  obtain b where b: "b = push_bit 6 (fmt mh AND 0x03) OR (1 :: byte)" by simp
  have bs: "bs = [b, lo, hi]" using assms(1,2) \<open>chunkStreamID mh \<le> 65599\<close> b
    by (simp add: basicHeaderBytes_def Let_def lh)
  have bits: "drop_bit 6 (b AND 0xc0) = fmt mh AND 0x03" "b AND 0x3f = 1"
    unfolding b using first_byte_fmt [of 1 "fmt mh"] first_byte_id [of 1 "fmt mh"]
    by (simp_all add: word_le_def)
  obtain r1 where r1: "csr_ReadAtLeast r 1 1 = (Ok [b], r1)" "segs (reader r1) = [lo # hi # rest]"
    using csr_read_first [of r b "lo # hi # rest"] assms(3) bs by auto
  obtain r2 where r2: "csr_ReadAtLeast r1 65535 2 = (Ok (lo # hi # rest), r2)" "segs (reader r2) = []"
    using csr_read_segment [OF r1(2), of 2 65535] assms(4) by auto
  have num: "(if (65536 :: nat) < 3 then 3 else 65536) - 1 = (65535 :: nat)" "uint (1 :: byte) = 1"
    by simp_all
  have "decodeChunkBasicHeader csr_ReadAtLeast r 65536 = (Ok (mh\<lparr>fmt := fmt mh AND 0x03\<rparr>), r2)"
    by (simp only: decodeChunkBasicHeader_def Let_def r1(1) bindo.simps nth_Cons_0 bits num)
      (simp add: r2 id)
  then show ?thesis by (simp add: r2 csr_pending_def transport_pending_def)
qed

lemma basic_header_overread_witness:
  "\<exists>r'. decodeChunkBasicHeader csr_ReadAtLeast (sampleReader [[0x01, 0, 1, 9, 9, 9]]) 65536 =
      (Ok \<lparr>fmt = 0, chunkStreamID = 320\<rparr>, r') \<and> csr_pending r' = []"
  using basic_header_overread [of "\<lparr>fmt = 0, chunkStreamID = 320\<rparr>" "[0x01, 0, 1]"
      "sampleReader [[0x01, 0, 1, 9, 9, 9]]" "[9, 9, 9]"]
  by (simp add: basicHeaderBytes_def Let_def sampleReader_def)

text \<open>
  C29. The decoder of the message header, under every segmentation of the bytes, reads back what the
  encoder wrote for each of the four chunk types, with its extended timestamp, and leaves exactly
  the bytes after it; the message length arrives cut to 24 bits.
\<close>

theorem message_header_read_back:
  assumes "messageHeaderBytes f mh = Ok bs" "csr_pending r = bs @ rest"
  shows "\<exists>r'. decodeChunkMessageHeader csr_ReadAtLeast r f mh0 = (Ok (wireHeader f mh mh0), r') \<and>
    csr_pending r' = rest"
  using csr.message_header_roundtrip [OF assms] by blast

theorem message_header_read_back_witness:
  "\<exists>r'. decodeChunkMessageHeader csr_ReadAtLeast
        (sampleReader [[0xff, 0xff], [0xff, 1, 0, 0], [0, 0xaa]]) 2
        \<lparr>mh_timestamp = 5, mh_timestampDelta = 0, mh_messageLength = 3, mh_messageTypeID = 8,
         mh_messageStreamID = 1\<rparr> =
      (Ok \<lparr>mh_timestamp = 5, mh_timestampDelta = 0x1000000, mh_messageLength = 3,
           mh_messageTypeID = 8, mh_messageStreamID = 1\<rparr>, r') \<and>
    csr_pending r' = [0xaa]"
proof -
  have bytes: "messageHeaderBytes 2 \<lparr>mh_timestamp = 0, mh_timestampDelta = 0x1000000,
      mh_messageLength = 0, mh_messageTypeID = 0, mh_messageStreamID = 0\<rparr> =
    Ok [0xff, 0xff, 0xff, 1, 0, 0, 0]" by code_simp
  have pending: "csr_pending (sampleReader [[0xff, 0xff], [0xff, 1, 0, 0], [0, 0xaa]]) =
    [0xff, 0xff, 0xff, 1, 0, 0, 0] @ [0xaa]" by simp
  have learnt: "wireHeader 2 \<lparr>mh_timestamp = 0, mh_timestampDelta = 0x1000000,
      mh_messageLength = 0, mh_messageTypeID = 0, mh_messageStreamID = 0\<rparr>
    \<lparr>mh_timestamp = 5, mh_timestampDelta = 0, mh_messageLength = 3, mh_messageTypeID = 8,
     mh_messageStreamID = 1\<rparr> =
    \<lparr>mh_timestamp = 5, mh_timestampDelta = 0x1000000, mh_messageLength = 3, mh_messageTypeID = 8,
     mh_messageStreamID = 1\<rparr>" by (simp add: wireHeader_def)
  show ?thesis
    by (rule message_header_read_back [OF bytes pending, where ?mh0.0 = "\<lparr>mh_timestamp = 5,
        mh_timestampDelta = 0, mh_messageLength = 3, mh_messageTypeID = 8, mh_messageStreamID = 1\<rparr>",
        unfolded learnt])
qed

end
