(* ===== verification/ConnState.thy ===== *)
theory ConnState
  imports Prelude
begin

text \<open>
  conn_state.go: the limits a connection is configured with, the defaults that \<open>normalize\<close> fills
  in, and the control state each side keeps (chunk size, acknowledgement window, bandwidth).
  Go's \<open>int\<close> has 64 bits here and is an \<open>int\<close>; \<open>int32\<close> fields are words read with \<open>sint\<close>.
\<close>

section \<open>State\<close>

definition DefaultChunkSize :: u32 where
  "DefaultChunkSize = 128"

definition MaxChunkSize :: u32 where
  "MaxChunkSize = 0xffffff"

record StreamControlStateConfig =
  cfgDefaultChunkSize :: u32
  cfgMaxChunkSize :: u32
  cfgMaxChunkStreams :: int
  cfgDefaultAckWindowSize :: i32
  cfgMaxAckWindowSize :: i32
  cfgDefaultBandwidthWindowSize :: i32
  cfgDefaultBandwidthLimitType :: byte
  cfgMaxBandwidthWindowSize :: i32
  cfgMaxMessageSize :: u32
  cfgMaxMessageStreams :: int

record StreamControlState =
  chunkSize :: u32
  ackWindowSize :: i32
  bandwidthWindowSize :: i32
  bandwidthLimitType :: byte
  config :: StreamControlStateConfig

section \<open>Operations\<close>

definition normalize :: "StreamControlStateConfig \<Rightarrow> StreamControlStateConfig" where
  "normalize c = \<lparr>
     cfgDefaultChunkSize =
       (if cfgDefaultChunkSize c = 0 then DefaultChunkSize else cfgDefaultChunkSize c),
     cfgMaxChunkSize = (if cfgMaxChunkSize c = 0 then MaxChunkSize else cfgMaxChunkSize c),
     cfgMaxChunkStreams =
       (if cfgMaxChunkStreams c = 0 then 0xffffffff else cfgMaxChunkStreams c),
     cfgDefaultAckWindowSize =
       (if cfgDefaultAckWindowSize c = 0 then 0x7fffffff else cfgDefaultAckWindowSize c),
     cfgMaxAckWindowSize =
       (if cfgMaxAckWindowSize c = 0 then 0x7fffffff else cfgMaxAckWindowSize c),
     cfgDefaultBandwidthWindowSize =
       (if cfgDefaultBandwidthWindowSize c = 0 then 0x7fffffff
        else cfgDefaultBandwidthWindowSize c),
     cfgDefaultBandwidthLimitType = cfgDefaultBandwidthLimitType c,
     cfgMaxBandwidthWindowSize =
       (if cfgMaxBandwidthWindowSize c = 0 then 0x7fffffff else cfgMaxBandwidthWindowSize c),
     cfgMaxMessageSize = (if cfgMaxMessageSize c = 0 then MaxChunkSize else cfgMaxMessageSize c),
     cfgMaxMessageStreams =
       (if cfgMaxMessageStreams c = 0 then 0xffffffff else cfgMaxMessageStreams c)\<rparr>"

definition zeroConfig :: StreamControlStateConfig where
  "zeroConfig = \<lparr>cfgDefaultChunkSize = 0, cfgMaxChunkSize = 0, cfgMaxChunkStreams = 0,
     cfgDefaultAckWindowSize = 0, cfgMaxAckWindowSize = 0, cfgDefaultBandwidthWindowSize = 0,
     cfgDefaultBandwidthLimitType = 0, cfgMaxBandwidthWindowSize = 0, cfgMaxMessageSize = 0,
     cfgMaxMessageStreams = 0\<rparr>"

definition defaultStreamControlStateConfig :: StreamControlStateConfig where
  "defaultStreamControlStateConfig = normalize zeroConfig"

text \<open>A nil configuration is \<open>None\<close>.\<close>

definition NewStreamControlState :: "StreamControlStateConfig option \<Rightarrow> StreamControlState" where
  "NewStreamControlState cfg =
     (let c = (case cfg of None \<Rightarrow> defaultStreamControlStateConfig | Some c \<Rightarrow> c) in
      \<lparr>chunkSize = cfgDefaultChunkSize c, ackWindowSize = cfgDefaultAckWindowSize c,
       bandwidthWindowSize = cfgDefaultBandwidthWindowSize c,
       bandwidthLimitType = cfgDefaultBandwidthLimitType c, config = c\<rparr>)"

definition SetChunkSize_state :: "StreamControlState \<Rightarrow> u32 \<Rightarrow> unit outcome \<times> StreamControlState" where
  "SetChunkSize_state s sz =
     (let sz = (if sz > MaxChunkSize then MaxChunkSize else sz) in
      if sz > cfgMaxChunkSize (config s) then
        (Err (Errorf ''Exceeded configured max chunk size: Limit = %d, Value = %d''
               [ArgInt (uint (cfgMaxChunkSize (config s))), ArgInt (uint sz)]), s)
      else (Ok (), s\<lparr>chunkSize := sz\<rparr>))"

definition SetAckWindowSize :: "StreamControlState \<Rightarrow> i32 \<Rightarrow> unit outcome \<times> StreamControlState" where
  "SetAckWindowSize s sz =
     (if sint sz > sint (cfgMaxAckWindowSize (config s)) then
        (Err (Errorf ''Exceeded configured max ack window size: Limit = %d, Value = %d''
               [ArgInt (sint (cfgMaxAckWindowSize (config s))), ArgInt (sint sz)]), s)
      else (Ok (), s\<lparr>ackWindowSize := sz\<rparr>))"

section \<open>Facts\<close>

text \<open>A chunk size that both the protocol and the configuration allow.\<close>

definition chunk_size_ok :: "StreamControlState \<Rightarrow> bool" where
  "chunk_size_ok s \<longleftrightarrow> chunkSize s \<le> MaxChunkSize \<and> chunkSize s \<le> cfgMaxChunkSize (config s)"

lemma normalize_idem: "normalize (normalize c) = normalize c"
  by (simp add: normalize_def DefaultChunkSize_def MaxChunkSize_def)

lemma SetChunkSize_config [frame]:
  "config (snd (SetChunkSize_state s n)) = config s"
  "ackWindowSize (snd (SetChunkSize_state s n)) = ackWindowSize s"
  by (simp_all add: SetChunkSize_state_def Let_def)

lemma SetAckWindowSize_config [frame]:
  "config (snd (SetAckWindowSize s n)) = config s"
  "chunkSize (snd (SetAckWindowSize s n)) = chunkSize s"
  by (simp_all add: SetAckWindowSize_def)

lemma SetChunkSize_ok:
  "fst (SetChunkSize_state s n) = Ok () \<Longrightarrow> chunk_size_ok (snd (SetChunkSize_state s n))"
  by (auto simp: SetChunkSize_state_def chunk_size_ok_def Let_def split: if_splits)

lemma SetChunkSize_keeps: "chunk_size_ok s \<Longrightarrow> chunk_size_ok (snd (SetChunkSize_state s n))"
  by (auto simp: SetChunkSize_state_def chunk_size_ok_def Let_def)

lemma SetChunkSize_value:
  "n \<le> MaxChunkSize \<Longrightarrow> n \<le> cfgMaxChunkSize (config s) \<Longrightarrow>
   SetChunkSize_state s n = (Ok (), s\<lparr>chunkSize := n\<rparr>)"
  by (auto simp: SetChunkSize_state_def Let_def)

lemma SetChunkSize_positive:
  "n \<noteq> 0 \<Longrightarrow> chunkSize s \<noteq> 0 \<Longrightarrow> chunkSize (snd (SetChunkSize_state s n)) \<noteq> 0"
  by (auto simp: SetChunkSize_state_def Let_def MaxChunkSize_def)

end
