(* ===== verification/Messages.thy ===== *)
theory Messages
  imports GoIO
begin

text \<open>
  Package message: the message types and their type ids (message.go), user control events with
  their encoder and decoder, and the message \<open>Encoder\<close> and \<open>Decoder\<close>.

  The encoder writes into the buffer of a chunk writer, which is the byte list it extends; what it
  wrote before a failure stays there. The decoder reads from the buffer of a chunk reader, the byte
  list it consumes; the payload of an audio, video, data or command message is what is left of it,
  because the code shares the reader instead of copying. The AMF0 library is a third-party package
  and is the argument \<open>amf0_lib\<close>.
\<close>

section \<open>The AMF library\<close>

text \<open>
  \<open>amf_enc v\<close>: the outcome of \<open>Encode (v)\<close> and the bytes it wrote. The decoders return what they
  decoded into a variable of the given type, and the reader's remaining bytes.
\<close>

record amf0_lib =
  amf_enc :: "amf_value \<Rightarrow> unit outcome \<times> byte list"
  amf_dec_string :: "byte list \<Rightarrow> string outcome \<times> byte list"
  amf_dec_int64 :: "byte list \<Rightarrow> i64 outcome \<times> byte list"
  amf_dec_uint32 :: "byte list \<Rightarrow> u32 outcome \<times> byte list"
  amf_dec_map :: "byte list \<Rightarrow> (string \<times> amf_value) list outcome \<times> byte list"
  amf_dec_any :: "byte list \<Rightarrow> amf_value outcome \<times> byte list"

section \<open>Types\<close>

datatype UserCtrlEvent =
    UserCtrlEventStreamBegin u32
  | UserCtrlEventStreamEOF u32
  | UserCtrlEventStreamDry u32
  | UserCtrlEventSetBufferLength u32 u32
  | UserCtrlEventStreamIsRecorded u32
  | UserCtrlEventPingRequest u32
  | UserCtrlEventPingResponse u32
  | UserCtrlEventOther

text \<open>\<open>EncodingType\<close> is a \<open>uint8\<close> with two named values.\<close>

definition EncodingTypeAMF0 :: byte where "EncodingTypeAMF0 = 0"
definition EncodingTypeAMF3 :: byte where "EncodingTypeAMF3 = 3"

datatype message =
    SetChunkSize u32
  | AbortMessage u32
  | Ack u32
  | UserCtrl UserCtrlEvent
  | WinAckSize i32
  | SetPeerBandwidth i32 byte
  | AudioMessage "byte list"
  | VideoMessage "byte list"
  | DataMessage string byte "byte list"
  | SharedObjectMessageAMF3
  | SharedObjectMessageAMF0
  | CommandMessage string i64 byte "byte list"
  | AggregateMessage

fun TypeID :: "message \<Rightarrow> byte outcome" where
  "TypeID (SetChunkSize _) = Ok 1"
| "TypeID (AbortMessage _) = Ok 2"
| "TypeID (Ack _) = Ok 3"
| "TypeID (UserCtrl _) = Ok 4"
| "TypeID (WinAckSize _) = Ok 5"
| "TypeID (SetPeerBandwidth _ _) = Ok 6"
| "TypeID (AudioMessage _) = Ok 8"
| "TypeID (VideoMessage _) = Ok 9"
| "TypeID (DataMessage _ enc _) =
     (if enc = EncodingTypeAMF3 then Ok 15
      else if enc = EncodingTypeAMF0 then Ok 18
      else Panic ''Unreachable'')"
| "TypeID SharedObjectMessageAMF3 = Ok 16"
| "TypeID SharedObjectMessageAMF0 = Ok 19"
| "TypeID (CommandMessage _ _ enc _) =
     (if enc = EncodingTypeAMF3 then Ok 17
      else if enc = EncodingTypeAMF0 then Ok 20
      else Panic ''Unreachable'')"
| "TypeID AggregateMessage = Ok 22"

section \<open>User control events\<close>

fun UserControlEventEncode :: "UserCtrlEvent \<Rightarrow> byte list \<Rightarrow> unit outcome \<times> byte list" where
  "UserControlEventEncode (UserCtrlEventStreamBegin sid) w =
     (Ok (), w @ put_be 2 (0 :: u16) @ put_be 4 sid)"
| "UserControlEventEncode (UserCtrlEventStreamEOF sid) w =
     (Ok (), w @ put_be 2 (1 :: u16) @ put_be 4 sid)"
| "UserControlEventEncode (UserCtrlEventStreamDry sid) w =
     (Ok (), w @ put_be 2 (2 :: u16) @ put_be 4 sid)"
| "UserControlEventEncode (UserCtrlEventSetBufferLength sid ms) w =
     (Ok (), w @ put_be 2 (3 :: u16) @ put_be 4 sid @ put_be 4 ms)"
| "UserControlEventEncode (UserCtrlEventStreamIsRecorded sid) w =
     (Ok (), w @ put_be 2 (4 :: u16) @ put_be 4 sid)"
| "UserControlEventEncode (UserCtrlEventPingRequest t) w =
     (Ok (), w @ put_be 2 (6 :: u16) @ put_be 4 t)"
| "UserControlEventEncode (UserCtrlEventPingResponse t) w =
     (Ok (), w @ put_be 2 (7 :: u16) @ put_be 4 t)"
| "UserControlEventEncode UserCtrlEventOther w =
     (Err (Errorf ''Unsupported type for UserCtrl: Type = %T'' []), w)"

text \<open>The decoders of the events with one 32-bit field differ in the event they build.\<close>

definition decodeU32 ::
  "('r \<Rightarrow> nat \<Rightarrow> nat \<Rightarrow> byte list outcome \<times> 'r) \<Rightarrow> (u32 \<Rightarrow> 'e) \<Rightarrow> 'r \<Rightarrow> 'e outcome \<times> 'r" where
  "decodeU32 ral mk r = andthen (ral r 4 4) (\<lambda>buf r. (Ok (mk (get_be buf)), r))"

definition decodeSetBufferLength ::
  "('r \<Rightarrow> nat \<Rightarrow> nat \<Rightarrow> byte list outcome \<times> 'r) \<Rightarrow> 'r \<Rightarrow> UserCtrlEvent outcome \<times> 'r" where
  "decodeSetBufferLength ral r =
     andthen (ral r 8 8) (\<lambda>buf r.
       (Ok (UserCtrlEventSetBufferLength (get_be (take 4 buf)) (get_be (take 4 (drop 4 buf)))), r))"

definition UserControlEventDecode ::
  "('r \<Rightarrow> nat \<Rightarrow> nat \<Rightarrow> byte list outcome \<times> 'r) \<Rightarrow> 'r \<Rightarrow> UserCtrlEvent outcome \<times> 'r" where
  "UserControlEventDecode ral r =
     andthen (ral r 2 2) (\<lambda>buf r.
       let eventType = (get_be buf :: u16) in
       if eventType = 0 then decodeU32 ral UserCtrlEventStreamBegin r
       else if eventType = 1 then decodeU32 ral UserCtrlEventStreamEOF r
       else if eventType = 2 then decodeU32 ral UserCtrlEventStreamDry r
       else if eventType = 3 then decodeSetBufferLength ral r
       else if eventType = 4 then decodeU32 ral UserCtrlEventStreamIsRecorded r
       else if eventType = 6 then decodeU32 ral UserCtrlEventPingRequest r
       else if eventType = 7 then decodeU32 ral UserCtrlEventPingResponse r
       else (Err (Errorf ''Unsupported type for UserCtrl: TypeID = %d'' [ArgInt (uint eventType)]), r))"

section \<open>The message encoder\<close>

definition encodeSetChunkSize :: "u32 \<Rightarrow> byte list \<Rightarrow> unit outcome \<times> byte list" where
  "encodeSetChunkSize n w =
     (if n < 1 \<or> n > 0x7fffffff then
        (Err (Errorf ''Invalid format: chunk size is out of range [1, 0x80000000)'' []), w)
      else (Ok (), w @ put_be 4 (n AND 0x7fffffff)))"

text \<open>\<open>NewAMFEncoder\<close> and \<open>NewAMFDecoder\<close> panic on every encoding but AMF0.\<close>

definition NewAMF :: "byte \<Rightarrow> unit outcome" where
  "NewAMF encTy =
     (if encTy = EncodingTypeAMF3 then Panic ''Unsupported encoding: AMF3''
      else if encTy = EncodingTypeAMF0 then Ok ()
      else Panic ''Unreachable'')"

definition amf_write :: "amf0_lib \<Rightarrow> amf_value \<Rightarrow> byte list \<Rightarrow> unit outcome \<times> byte list" where
  "amf_write lib v w = (case amf_enc lib v of (res, bs) \<Rightarrow> (res, w @ bs))"

lemma amf_write_eq: "amf_write lib v w = (fst (amf_enc lib v), w @ snd (amf_enc lib v))"
  by (simp add: amf_write_def split_def)

definition encodeDataMessage ::
  "amf0_lib \<Rightarrow> string \<Rightarrow> byte \<Rightarrow> byte list \<Rightarrow> byte list \<Rightarrow> unit outcome \<times> byte list" where
  "encodeDataMessage lib name enc body w =
     andthen (NewAMF enc, w) (\<lambda>_ w.
     andthen (amf_write lib (AString name) w) (\<lambda>_ w. (Ok (), w @ body)))"

definition encodeCommandMessage ::
  "amf0_lib \<Rightarrow> string \<Rightarrow> i64 \<Rightarrow> byte \<Rightarrow> byte list \<Rightarrow> byte list \<Rightarrow> unit outcome \<times> byte list" where
  "encodeCommandMessage lib name tid enc body w =
     andthen (NewAMF enc, w) (\<lambda>_ w.
     andthen (amf_write lib (AString name) w) (\<lambda>_ w.
     andthen (amf_write lib (AInt64 tid) w) (\<lambda>_ w. (Ok (), w @ body))))"

fun Encode :: "amf0_lib \<Rightarrow> message \<Rightarrow> byte list \<Rightarrow> unit outcome \<times> byte list" where
  "Encode lib (SetChunkSize n) w = encodeSetChunkSize n w"
| "Encode lib (AbortMessage csid) w = (Ok (), w @ put_be 4 csid)"
| "Encode lib (Ack seq) w = (Ok (), w @ put_be 4 seq)"
| "Encode lib (UserCtrl ev) w = UserControlEventEncode ev w"
| "Encode lib (WinAckSize n) w = (Ok (), w @ put_be 4 n)"
| "Encode lib (SetPeerBandwidth n limit) w = (Ok (), w @ put_be 4 n @ [limit])"
| "Encode lib (AudioMessage payload) w = (Ok (), w @ payload)"
| "Encode lib (VideoMessage payload) w = (Ok (), w @ payload)"
| "Encode lib (DataMessage name enc body) w = encodeDataMessage lib name enc body w"
| "Encode lib SharedObjectMessageAMF3 w =
     (Err (Errorf ''Not implemented: SharedObjectMessageAMF3'' []), w)"
| "Encode lib (CommandMessage name tid enc body) w = encodeCommandMessage lib name tid enc body w"
| "Encode lib SharedObjectMessageAMF0 w =
     (Err (Errorf ''Not implemented: SharedObjectMessageAMF0'' []), w)"
| "Encode lib AggregateMessage w = (Err (Errorf ''Not implemented: AggregateMessage'' []), w)"

section \<open>The message decoder\<close>

definition decodeSetChunkSize ::
  "('r \<Rightarrow> nat \<Rightarrow> nat \<Rightarrow> byte list outcome \<times> 'r) \<Rightarrow> 'r \<Rightarrow> message outcome \<times> 'r" where
  "decodeSetChunkSize ral r =
     andthen (ral r 4 4) (\<lambda>buf r.
       let total = (get_be buf :: u32);
           b = drop_bit 31 (total AND 0x80000000);
           size' = total AND 0x7fffffff
       in if b \<noteq> 0 then (Err (Errorf ''Invalid format: bit must be 0'' []), r)
          else if size' = 0 then (Err (Errorf ''Invalid format: chunk size is 0'' []), r)
          else (Ok (SetChunkSize size'), r))"

definition decodeUserCtrl ::
  "('r \<Rightarrow> nat \<Rightarrow> nat \<Rightarrow> byte list outcome \<times> 'r) \<Rightarrow> 'r \<Rightarrow> message outcome \<times> 'r" where
  "decodeUserCtrl ral r =
     (case UserControlEventDecode ral r of
        (Ok ev, r) \<Rightarrow> (Ok (UserCtrl ev), r)
      | (Err e, r) \<Rightarrow> (Err (Wrap e ''Failed to decode UserCtrl''), r)
      | (Panic m, r) \<Rightarrow> (Panic m, r))"

definition decodeSetPeerBandwidth ::
  "('r \<Rightarrow> nat \<Rightarrow> nat \<Rightarrow> byte list outcome \<times> 'r) \<Rightarrow> 'r \<Rightarrow> message outcome \<times> 'r" where
  "decodeSetPeerBandwidth ral r =
     andthen (ral r 5 5) (\<lambda>buf r. (Ok (SetPeerBandwidth (get_be (take 4 buf)) (buf ! 4)), r))"

definition wrap_err :: "string \<Rightarrow> 'a outcome \<times> 's \<Rightarrow> 'a outcome \<times> 's" where
  "wrap_err what p = (map_outcome_err (\<lambda>e. Wrap e what) (fst p), snd p)"

text \<open>The decoder and its encoding type are arguments in the code as well; only AMF0 is ever given.\<close>

definition decodeDataMessage :: "amf0_lib \<Rightarrow> byte \<Rightarrow> byte list \<Rightarrow> message outcome \<times> byte list" where
  "decodeDataMessage d encTy r =
     andthen (wrap_err ''Failed to decode name'' (amf_dec_string d r)) (\<lambda>name r.
       (Ok (DataMessage name encTy r), r))"

definition decodeCommandMessage :: "amf0_lib \<Rightarrow> byte \<Rightarrow> byte list \<Rightarrow> message outcome \<times> byte list" where
  "decodeCommandMessage d encTy r =
     andthen (wrap_err ''Failed to decode name'' (amf_dec_string d r)) (\<lambda>name r.
     andthen (wrap_err ''Failed to decode transactionID'' (amf_dec_int64 d r)) (\<lambda>tid r.
       (Ok (CommandMessage name tid encTy r), r)))"

definition decodeDataMessageAMF0 :: "amf0_lib \<Rightarrow> byte list \<Rightarrow> message outcome \<times> byte list" where
  "decodeDataMessageAMF0 lib = decodeDataMessage lib EncodingTypeAMF0"

definition decodeCommandMessageAMF0 :: "amf0_lib \<Rightarrow> byte list \<Rightarrow> message outcome \<times> byte list" where
  "decodeCommandMessageAMF0 lib = decodeCommandMessage lib EncodingTypeAMF0"

definition not_implemented :: "string \<Rightarrow> 'r \<Rightarrow> message outcome \<times> 'r" where
  "not_implemented what r = (Err (Errorf what []), r)"

definition Decode :: "amf0_lib \<Rightarrow> byte \<Rightarrow> byte list \<Rightarrow> message outcome \<times> byte list" where
  "Decode lib typeID r =
     (let ral = buffer_ReadAtLeast in
      if typeID = 1 then decodeSetChunkSize ral r
      else if typeID = 2 then decodeU32 ral AbortMessage r
      else if typeID = 3 then decodeU32 ral Ack r
      else if typeID = 4 then decodeUserCtrl ral r
      else if typeID = 5 then decodeU32 ral WinAckSize r
      else if typeID = 6 then decodeSetPeerBandwidth ral r
      else if typeID = 8 then (Ok (AudioMessage r), r)
      else if typeID = 9 then (Ok (VideoMessage r), r)
      else if typeID = 15 then not_implemented ''Not implemented: DataMessageAMF3'' r
      else if typeID = 16 then not_implemented ''Not implemented: SharedObjectMessageAMF3'' r
      else if typeID = 17 then not_implemented ''Not implemented: CommandMessageAMF3'' r
      else if typeID = 18 then decodeDataMessageAMF0 lib r
      else if typeID = 19 then not_implemented ''Not implemented: SharedObjectMessageAMF0'' r
      else if typeID = 20 then decodeCommandMessageAMF0 lib r
      else if typeID = 22 then not_implemented ''Not implemented: AggregateMessage'' r
      else (Err (Errorf ''Unexpected message type(decode): ID = %d'' [ArgInt (uint typeID)]), r))"

section \<open>Round trips\<close>

context at_least_reader
begin

lemma decodeU32_roundtrip:
  assumes "pending r = put_be 4 w @ rest"
  shows "\<exists>r'. decodeU32 ral mk r = (Ok (mk w), r') \<and> pending r' = rest \<and> fin r' = fin r"
  using ral_exact [OF assms, of 4] by (auto simp: decodeU32_def wire)

lemma decodeSetBufferLength_roundtrip:
  assumes "pending r = put_be 4 a @ put_be 4 b @ rest"
  shows "\<exists>r'. decodeSetBufferLength ral r = (Ok (UserCtrlEventSetBufferLength a b), r') \<and>
    pending r' = rest \<and> fin r' = fin r"
  using ral_exact [of r "put_be 4 a @ put_be 4 b" rest 8] assms
  by (auto simp: decodeSetBufferLength_def wire)

text \<open>The event's number selects its decoder.\<close>

lemma event_number:
  assumes "pending r = put_be 2 (k :: u16) @ rest"
  shows "\<exists>r'. pending r' = rest \<and> fin r' = fin r \<and> ral r 2 2 = (Ok (put_be 2 k), r')"
  using ral_exact [OF assms, of 2] by auto

lemma user_ctrl_roundtrip:
  assumes "UserControlEventEncode ev [] = (Ok (), bs)" "pending r = bs @ rest"
  shows "\<exists>r'. UserControlEventDecode ral r = (Ok ev, r') \<and> pending r' = rest \<and> fin r' = fin r"
proof -
  have "\<exists>(k :: u16) body. bs = put_be 2 k @ body" using assms(1) by (cases ev) auto
  then obtain k :: u16 and body where bs: "bs = put_be 2 k @ body" by blast
  with assms(2) event_number [of r k "body @ rest"] obtain r1 where
    r1: "pending r1 = body @ rest" "fin r1 = fin r" "ral r 2 2 = (Ok (put_be 2 k), r1)" by auto
  have k: "put_be 2 k = take 2 bs" "body = drop 2 bs" using bs by simp_all
  have inj: "put_be 2 k = put_be 2 (j :: u16) \<longleftrightarrow> k = j" for j by (metis get_put_be_16)
  have body4: "\<exists>r'. ral r1 4 4 = (Ok body, r') \<and> pending r' = rest \<and> fin r' = fin r"
    if "length body = 4" using ral_exact [OF r1(1) that] r1(2) by auto
  show ?thesis
  proof (cases ev)
    case (UserCtrlEventSetBufferLength a b)
    with assms(1) k inj r1 show ?thesis
      using decodeSetBufferLength_roundtrip [of r1 a b rest]
      by (auto simp: UserControlEventDecode_def wire)
  next
    case UserCtrlEventOther
    with assms(1) show ?thesis by simp
  qed (insert assms(1) k inj r1 body4, auto simp: UserControlEventDecode_def decodeU32_def wire)
qed

end

text \<open>The messages the program can encode.\<close>

fun wf_message :: "message \<Rightarrow> bool" where
  "wf_message (SetChunkSize n) \<longleftrightarrow> 1 \<le> n \<and> n \<le> 0x7fffffff"
| "wf_message (UserCtrl ev) \<longleftrightarrow> ev \<noteq> UserCtrlEventOther"
| "wf_message (DataMessage name enc body) \<longleftrightarrow> enc = EncodingTypeAMF0 \<and> length name \<le> 0xffff"
| "wf_message (CommandMessage name tid enc body) \<longleftrightarrow>
     enc = EncodingTypeAMF0 \<and> length name \<le> 0xffff \<and> \<bar>sint tid\<bar> \<le> 2 ^ 53"
| "wf_message SharedObjectMessageAMF3 \<longleftrightarrow> False"
| "wf_message SharedObjectMessageAMF0 \<longleftrightarrow> False"
| "wf_message AggregateMessage \<longleftrightarrow> False"
| "wf_message _ \<longleftrightarrow> True"

text \<open>
  What the program relies on of its AMF0 library: strings of up to 65535 bytes and integers a
  double represents are decoded from what encoding them wrote, whatever follows.
\<close>

definition amf_string_law :: "amf0_lib \<Rightarrow> bool" where
  "amf_string_law lib \<longleftrightarrow> (\<forall>s rest. length s \<le> 0xffff \<longrightarrow>
     fst (amf_enc lib (AString s)) = Ok () \<and>
     amf_dec_string lib (snd (amf_enc lib (AString s)) @ rest) = (Ok s, rest))"

definition amf_int64_law :: "amf0_lib \<Rightarrow> bool" where
  "amf_int64_law lib \<longleftrightarrow> (\<forall>t rest. \<bar>sint t\<bar> \<le> 2 ^ 53 \<longrightarrow>
     fst (amf_enc lib (AInt64 t)) = Ok () \<and>
     amf_dec_int64 lib (snd (amf_enc lib (AInt64 t)) @ rest) = (Ok t, rest))"

lemma amf_write_string:
  assumes "amf_string_law lib" "length s \<le> 0xffff"
  obtains bs where "amf_write lib (AString s) w = (Ok (), w @ bs)"
    "\<And>rest. amf_dec_string lib (bs @ rest) = (Ok s, rest)"
  using assms that [of "snd (amf_enc lib (AString s))"]
  by (auto simp: amf_string_law_def amf_write_eq)

lemma amf_write_int64:
  assumes "amf_int64_law lib" "\<bar>sint t\<bar> \<le> 2 ^ 53"
  obtains bs where "\<And>w. amf_write lib (AInt64 t) w = (Ok (), w @ bs)"
    "\<And>rest. amf_dec_int64 lib (bs @ rest) = (Ok t, rest)"
  using assms that [of "snd (amf_enc lib (AInt64 t))"]
  by (auto simp: amf_int64_law_def amf_write_eq)

text \<open>The sign bit of a chunk size.\<close>

lemma chunk_size_mask:
  fixes n :: u32
  assumes "n \<le> 0x7fffffff"
  shows "n AND 0x7fffffff = n" "drop_bit 31 (n AND 0x80000000) = 0"
proof -
  have m: "(0x7fffffff :: u32) = mask 31" "(0x80000000 :: u32) = push_bit 31 1"
    by (simp_all add: mask_eq_exp_minus_1)
  have t: "take_bit 31 n = n" using assms
    by (simp add: word_le_nat_alt word_unat_eq_iff unsigned_take_bit_eq take_bit_nat_eq_self_iff)
  then show "n AND 0x7fffffff = n" unfolding m by (simp add: take_bit_eq_mask)
  have "\<not> bit n 31" using t by (metis bit_take_bit_iff less_irrefl)
  then show "drop_bit 31 (n AND 0x80000000) = 0"
    unfolding m by (auto intro!: bit_word_eqI simp: bit_simps)
qed

lemma SetChunkSize_roundtrip:
  assumes "1 \<le> n" "n \<le> 0x7fffffff"
  shows "Encode lib (SetChunkSize n) w = (Ok (), w @ put_be 4 n) \<and>
    fst (Decode lib 1 (put_be 4 n)) = Ok (SetChunkSize n)"
proof -
  have "n \<noteq> 0" using assms(1) by auto
  then show ?thesis
    using assms bbuf.ral_exact [of "put_be 4 n" "put_be 4 n" "[]" 4] chunk_size_mask [OF assms(2)]
    by (auto simp: encodeSetChunkSize_def Decode_def decodeSetChunkSize_def wire not_less)
qed

lemma SetPeerBandwidth_roundtrip:
  "fst (Decode lib 6 (put_be 4 n @ [l])) = Ok (SetPeerBandwidth n l)"
  using bbuf.ral_exact [of "put_be 4 n @ [l]" "put_be 4 n @ [l]" "[]" 5]
  by (auto simp: Decode_def decodeSetPeerBandwidth_def wire nth_append)

lemma DataMessage_roundtrip:
  assumes "amf_string_law lib" "length name \<le> 0xffff"
  shows "\<exists>bs. Encode lib (DataMessage name EncodingTypeAMF0 body) w = (Ok (), w @ bs) \<and>
    fst (Decode lib 18 bs) = Ok (DataMessage name EncodingTypeAMF0 body)"
proof -
  from amf_write_string [OF assms] obtain bs where
    "amf_write lib (AString name) w = (Ok (), w @ bs)"
    "\<And>rest. amf_dec_string lib (bs @ rest) = (Ok name, rest)" by blast
  then show ?thesis
    by (auto simp: encodeDataMessage_def NewAMF_def EncodingTypeAMF0_def EncodingTypeAMF3_def
        Decode_def decodeDataMessageAMF0_def decodeDataMessage_def wrap_err_def)
qed

lemma CommandMessage_roundtrip:
  assumes "amf_string_law lib" "amf_int64_law lib" "length name \<le> 0xffff" "\<bar>sint tid\<bar> \<le> 2 ^ 53"
  shows "\<exists>bs. Encode lib (CommandMessage name tid EncodingTypeAMF0 body) w = (Ok (), w @ bs) \<and>
    fst (Decode lib 20 bs) = Ok (CommandMessage name tid EncodingTypeAMF0 body)"
proof -
  from amf_write_string [OF assms(1,3)] obtain bs where
    "amf_write lib (AString name) w = (Ok (), w @ bs)"
    "\<And>rest. amf_dec_string lib (bs @ rest) = (Ok name, rest)" by blast
  moreover from amf_write_int64 [OF assms(2,4)] obtain cs where
    "\<And>w. amf_write lib (AInt64 tid) w = (Ok (), w @ cs)"
    "\<And>rest. amf_dec_int64 lib (cs @ rest) = (Ok tid, rest)" by blast
  ultimately show ?thesis
    by (auto simp: encodeCommandMessage_def NewAMF_def EncodingTypeAMF0_def EncodingTypeAMF3_def
        Decode_def decodeCommandMessageAMF0_def decodeCommandMessage_def wrap_err_def)
qed

lemma message_roundtrip:
  assumes "wf_message m" "amf_string_law lib" "amf_int64_law lib"
  shows "\<exists>tid bs. TypeID m = Ok tid \<and> Encode lib m w = (Ok (), w @ bs) \<and> fst (Decode lib tid bs) = Ok m"
proof (cases m)
  case (SetChunkSize n)
  with assms SetChunkSize_roundtrip show ?thesis by auto
next
  case (UserCtrl ev)
  with assms have "\<exists>bs. UserControlEventEncode ev [] = (Ok (), bs) \<and> Encode lib m w = (Ok (), w @ bs)"
    by (cases ev) auto
  then obtain bs where bs: "UserControlEventEncode ev [] = (Ok (), bs)" "Encode lib m w = (Ok (), w @ bs)"
    by blast
  with bbuf.user_ctrl_roundtrip [OF bs(1), of bs "[]"] UserCtrl show ?thesis
    by (auto simp: Decode_def decodeUserCtrl_def)
next
  case (SetPeerBandwidth n l)
  then show ?thesis using SetPeerBandwidth_roundtrip by auto
next
  case (DataMessage name enc body)
  with assms DataMessage_roundtrip [OF assms(2), of name body w] show ?thesis
    by (auto simp: EncodingTypeAMF0_def EncodingTypeAMF3_def)
next
  case (CommandMessage name tid enc body)
  with assms CommandMessage_roundtrip [OF assms(2,3), of name tid body w] show ?thesis
    by (auto simp: EncodingTypeAMF0_def EncodingTypeAMF3_def)
next
  case (AbortMessage n)
  then show ?thesis using bbuf.decodeU32_roundtrip [of "put_be 4 n" n "[]" AbortMessage]
    by (auto simp: Decode_def)
next
  case (Ack n)
  then show ?thesis using bbuf.decodeU32_roundtrip [of "put_be 4 n" n "[]" Ack]
    by (auto simp: Decode_def)
next
  case (WinAckSize n)
  then show ?thesis using bbuf.decodeU32_roundtrip [of "put_be 4 n" n "[]" WinAckSize]
    by (auto simp: Decode_def)
qed (use assms(1) in \<open>simp_all add: Decode_def\<close>)

section \<open>Failures\<close>

text \<open>What an encoder wrote before it failed stays in the buffer: it only ever extends it.\<close>

lemma UserControlEventEncode_extends: "\<exists>bs. snd (UserControlEventEncode ev w) = w @ bs"
  by (cases ev) auto

lemma snd_andthen_extends:
  assumes "\<exists>bs. snd p = w @ bs" "\<And>x v. \<exists>bs. snd (f x v) = v @ bs"
  shows "\<exists>bs. snd (andthen p f) = w @ bs"
  using assms by (cases p; cases "fst p") (auto, metis append.assoc)

lemma Encode_extends: "\<exists>bs. snd (Encode lib m w) = w @ bs"
proof (cases m)
  case (SetChunkSize n)
  then show ?thesis by (simp add: encodeSetChunkSize_def)
next
  case (DataMessage name enc body)
  then show ?thesis
    by (auto simp: encodeDataMessage_def amf_write_eq intro!: snd_andthen_extends)
next
  case (CommandMessage name tid enc body)
  then show ?thesis
    by (auto simp: encodeCommandMessage_def amf_write_eq intro!: snd_andthen_extends)
qed (auto simp: UserControlEventEncode_extends)

section \<open>A library that keeps the laws\<close>

text \<open>
  A length-prefixed coding of strings, integers and nil, used only to show that the laws can hold.
\<close>

definition byte_of :: "char \<Rightarrow> byte" where
  "byte_of c = of_nat (of_char c)"

definition char_from :: "byte \<Rightarrow> char" where
  "char_from b = char_of (unat b)"

definition sampleAmf :: amf0_lib where
  "sampleAmf = \<lparr>
     amf_enc = (\<lambda>v. case v of
         AString s \<Rightarrow>
           if length s \<le> 0xffff
           then (Ok (), 2 # put_be 2 (of_nat (length s) :: u16) @ map byte_of s)
           else (Err (Errorf ''string too long'' []), [])
       | AInt64 t \<Rightarrow> (Ok (), 0 # put_be 8 t)
       | AUint32 n \<Rightarrow> (Ok (), 1 # put_be 4 n)
       | ANil \<Rightarrow> (Ok (), [5])
       | _ \<Rightarrow> (Err (Errorf ''unsupported'' []), [])),
     amf_dec_string = (\<lambda>bs.
         let n = unat (get_be (take 2 (drop 1 bs)) :: u16) in
         if take 1 bs = [2] \<and> 3 + n \<le> length bs
         then (Ok (map char_from (take n (drop 3 bs))), drop (3 + n) bs)
         else (Err (Errorf ''not a string'' []), bs)),
     amf_dec_int64 = (\<lambda>bs.
         if take 1 bs = [0] \<and> 9 \<le> length bs
         then (Ok (get_be (take 8 (drop 1 bs))), drop 9 bs)
         else (Err (Errorf ''not a number'' []), bs)),
     amf_dec_uint32 = (\<lambda>bs.
         if take 1 bs = [1] \<and> 5 \<le> length bs
         then (Ok (get_be (take 4 (drop 1 bs))), drop 5 bs)
         else (Err (Errorf ''not a number'' []), bs)),
     amf_dec_map = (\<lambda>bs. (Err (Errorf ''unsupported'' []), bs)),
     amf_dec_any = (\<lambda>bs.
         if take 1 bs = [5] then (Ok ANil, drop 1 bs)
         else (Err (Errorf ''unsupported'' []), bs))\<rparr>"

lemma char_from_byte_of [simp]: "char_from (byte_of c) = c"
proof -
  have "(of_char c :: nat) < 256" by (cases c) (use of_char_mod_256 [of c, where ?'a = nat] in \<open>metis mod_less_divisor zero_less_numeral\<close>)
  then show ?thesis by (simp add: char_from_def byte_of_def unat_of_nat)
qed

lemma sampleAmf_string: "amf_string_law sampleAmf"
proof -
  have "unat (of_nat n :: u16) = n" if "n \<le> 0xffff" for n
    using that by (simp add: unat_of_nat)
  then show ?thesis
    by (auto simp: amf_string_law_def sampleAmf_def wire Let_def comp_def numeral_3_eq_3)
qed

lemma sampleAmf_int64: "amf_int64_law sampleAmf"
  by (auto simp: amf_int64_law_def sampleAmf_def wire)

section \<open>Properties\<close>

text \<open>
  C28. Every message the protocol can encode (chunk sizes in range, AMF0 names of at most 65535
  bytes, transaction ids a double represents) is decoded, by its type id and from what \<open>Encode\<close>
  appended to the chunk writer's buffer, to the same message, for every AMF library that keeps its
  laws on strings and integers.
\<close>

theorem message_read_back:
  assumes "wf_message m" "amf_string_law lib" "amf_int64_law lib"
  shows "\<exists>tid bs. TypeID m = Ok tid \<and> Encode lib m w = (Ok (), w @ bs) \<and> fst (Decode lib tid bs) = Ok m"
  by (rule message_roundtrip [OF assms])

theorem message_read_back_witness:
  "\<exists>tid bs. TypeID (CommandMessage ''play'' 4 EncodingTypeAMF0 [5]) = Ok tid \<and>
     Encode sampleAmf (CommandMessage ''play'' 4 EncodingTypeAMF0 [5]) [] = (Ok (), [] @ bs) \<and>
     fst (Decode sampleAmf tid bs) = Ok (CommandMessage ''play'' 4 EncodingTypeAMF0 [5])"
  by (rule message_read_back [OF _ sampleAmf_string sampleAmf_int64]) simp

text \<open>
  A user control event is decoded from exactly the bytes it was encoded to, whatever follows
  them, and those are left.
\<close>

lemma user_control_read_back:
  assumes "UserControlEventEncode ev [] = (Ok (), bs)"
  shows "UserControlEventDecode buffer_ReadAtLeast (bs @ rest) = (Ok ev, rest)"
  using bbuf.user_ctrl_roundtrip [OF assms, of "bs @ rest" rest] by auto

lemma user_control_read_back_witness:
  "UserControlEventDecode buffer_ReadAtLeast
     ((put_be 2 (3 :: u16) @ put_be 4 (1 :: u32) @ put_be 4 (3000 :: u32)) @ [7]) =
   (Ok (UserCtrlEventSetBufferLength 1 3000), [7])"
  by (rule user_control_read_back) simp

end
