(* ===== verification/ChunkReader.thy ===== *)
theory ChunkReader
  imports ChunkHeader ConnState Messages
begin

text \<open>
  The reading half of the chunk streamer: chunk_stream_reader.go and, of chunk_streamer.go,
  \<open>prepareChunkReader\<close>, \<open>readChunk\<close>, \<open>NewChunkReader\<close> and \<open>Read\<close>.

  The state is the connection's counting reader, the table of chunk stream readers, the control
  state of the peer and the configuration. The code returns a pointer to an entry of the table; the
  model returns its key. \<open>sendAck\<close> writes to the other half of the streamer, which is the argument
  \<open>'w\<close> with the operation the code stores in \<open>controlStreamWriter\<close>.
\<close>

section \<open>State\<close>

record ChunkStreamReader =
  basicHeader :: chunkBasicHeader
  messageHeader :: chunkMessageHeader
  timestamp :: u32
  timestampDelta :: u32
  messageLength :: u32
  messageTypeID :: byte
  messageStreamID :: u32
  buf :: "byte list"
  completed :: bool

definition zeroBasicHeader :: chunkBasicHeader where
  "zeroBasicHeader = \<lparr>fmt = 0, chunkStreamID = 0\<rparr>"

definition zeroMessageHeader :: chunkMessageHeader where
  "zeroMessageHeader = \<lparr>mh_timestamp = 0, mh_timestampDelta = 0, mh_messageLength = 0,
     mh_messageTypeID = 0, mh_messageStreamID = 0\<rparr>"

definition zeroReader :: ChunkStreamReader where
  "zeroReader = \<lparr>basicHeader = zeroBasicHeader, messageHeader = zeroMessageHeader, timestamp = 0,
     timestampDelta = 0, messageLength = 0, messageTypeID = 0, messageStreamID = 0, buf = [],
     completed = False\<rparr>"

record chunk_in =
  cs_r :: ChunkStreamerReader
  cs_readers :: "(int \<times> ChunkStreamReader) list"
  peerState :: StreamControlState
  in_cfg :: StreamControlStateConfig

text \<open>\<open>cs.cacheBuffer\<close> is 64 KiB long.\<close>

definition cacheBufferLen :: nat where
  "cacheBufferLen = 64 * 1024"

section \<open>Reading one chunk\<close>

definition prepareChunkReader :: "int \<Rightarrow> chunk_in \<Rightarrow> ChunkStreamReader outcome \<times> chunk_in" where
  "prepareChunkReader csid s =
     (case map_of (cs_readers s) csid of
        Some rd \<Rightarrow> (Ok rd, s)
      | None \<Rightarrow>
          if int (length (cs_readers s)) \<ge> cfgMaxChunkStreams (in_cfg s) then
            (Err (Errorf ''Creating chunk streams limit exceeded(Reader): Limit = %d''
                   [ArgInt (cfgMaxChunkStreams (in_cfg s))]), s)
          else (Ok zeroReader, s\<lparr>cs_readers := set_key csid zeroReader (cs_readers s)\<rparr>))"

text \<open>What the code does to a reader before it reads the payload.\<close>

definition resetCompleted :: "ChunkStreamReader \<Rightarrow> ChunkStreamReader" where
  "resetCompleted rd = (if completed rd then rd\<lparr>buf := [], completed := False\<rparr> else rd)"

definition applyHeader ::
  "chunkBasicHeader \<Rightarrow> chunkMessageHeader \<Rightarrow> ChunkStreamReader \<Rightarrow> ChunkStreamReader outcome" where
  "applyHeader bh mh rd =
     (let rd = (resetCompleted rd)\<lparr>basicHeader := bh, messageHeader := mh\<rparr> in
      if fmt bh = 0 then
        Ok (rd\<lparr>timestamp := mh_timestamp mh, timestampDelta := 0,
              messageLength := mh_messageLength mh, messageTypeID := mh_messageTypeID mh,
              messageStreamID := mh_messageStreamID mh\<rparr>)
      else if fmt bh = 1 then
        Ok (rd\<lparr>timestampDelta := mh_timestampDelta mh, messageLength := mh_messageLength mh,
              messageTypeID := mh_messageTypeID mh\<rparr>)
      else if fmt bh = 2 then Ok (rd\<lparr>timestampDelta := mh_timestampDelta mh\<rparr>)
      else if fmt bh = 3 then Ok rd
      else Panic ''unsupported chunk'')"

definition putReader :: "int \<Rightarrow> ChunkStreamReader \<Rightarrow> chunk_in \<Rightarrow> chunk_in" where
  "putReader csid rd s = s\<lparr>cs_readers := set_key csid rd (cs_readers s)\<rparr>"

definition with_r :: "'a outcome \<times> ChunkStreamerReader \<Rightarrow> chunk_in \<Rightarrow> 'a outcome \<times> chunk_in" where
  "with_r p s = (fst p, s\<lparr>cs_r := snd p\<rparr>)"

definition readPayload :: "int \<Rightarrow> ChunkStreamReader \<Rightarrow> chunk_in \<Rightarrow> int outcome \<times> chunk_in" where
  "readPayload csid rd s =
     (let expectLen = uint (messageLength rd) - int (length (buf rd)) in
      if expectLen \<le> 0 then (Panic ''invalid state'', putReader csid rd s)
      else
        let expectLen =
              (if (word_of_int expectLen :: u32) > chunkSize (peerState s)
               then uint (chunkSize (peerState s)) else expectLen)
        in case csr_CopyLimit (cs_r s) (nat expectLen) of
             ((bs, err), r) \<Rightarrow>
               let rd = rd\<lparr>buf := buf rd @ bs\<rparr>; s = s\<lparr>cs_r := r\<rparr> in
               (case err of
                  Some e \<Rightarrow> (Err e, putReader csid rd s)
                | None \<Rightarrow>
                    if uint (messageLength rd) - int (length (buf rd)) \<noteq> 0
                    then (Ok csid, putReader csid rd s)
                    else (Ok csid,
                          putReader csid
                            (rd\<lparr>timestamp := timestamp rd + timestampDelta rd, completed := True\<rparr>) s)))"

definition readChunk :: "chunk_in \<Rightarrow> int outcome \<times> chunk_in" where
  "readChunk s =
     andthen (with_r (decodeChunkBasicHeader csr_ReadAtLeast (cs_r s) cacheBufferLen) s) (\<lambda>bh s.
     andthen (with_r (decodeChunkMessageHeader csr_ReadAtLeast (cs_r s) (fmt bh) zeroMessageHeader) s)
       (\<lambda>mh s.
     andthen (wrap_err ''Failed to prepare chunk reader'' (prepareChunkReader (chunkStreamID bh) s))
       (\<lambda>rd s.
     andthen (applyHeader bh mh rd, s) (\<lambda>rd s. readPayload (chunkStreamID bh) rd s))))"

section \<open>What one chunk costs and keeps\<close>

lemma pending_decrease_ral:
  "csr_ReadAtLeast r n m = (Ok bs, r') \<Longrightarrow> m \<le> n \<Longrightarrow>
   csr_pending r = bs @ csr_pending r' \<and> m \<le> length bs \<and> csr_fin r' = csr_fin r"
  by (cases "m \<le> length (csr_pending r)")
    (use csr.ral_ok [of m n r] csr.ral_short [of m n r] in auto)

lemma ral_pending_le:
  "m \<le> n \<Longrightarrow> length (csr_pending (snd (csr_ReadAtLeast r n m))) \<le> length (csr_pending r)"
  by (cases "m \<le> length (csr_pending r)")
    (use csr.ral_ok [of m n r] csr.ral_short [of m n r] in auto)

text \<open>A basic header that was decoded took at least its first byte.\<close>

lemma basic_header_consumes:
  assumes "decodeChunkBasicHeader csr_ReadAtLeast r n = (Ok bh, r')"
  shows "length (csr_pending r') < length (csr_pending r)"
  using assms
  by (auto simp: decodeChunkBasicHeader_def bindo_Ok_iff Let_def split: if_splits
      dest!: pending_decrease_ral)

lemma message_header_consumes:
  assumes "decodeChunkMessageHeader csr_ReadAtLeast r f mh0 = (Ok mh, r')"
  shows "length (csr_pending r') \<le> length (csr_pending r)"
  using assms
  by (auto simp: decodeChunkMessageHeader_def bindo_Ok_iff Let_def split: if_splits
      dest!: pending_decrease_ral)

lemma csr_copy:
  "\<exists>r'. csr_CopyLimit r n =
      ((take n (csr_pending r),
        if length (csr_pending r) < n \<and> csr_fin r \<noteq> EOF then Some (csr_fin r) else None), r') \<and>
    csr_pending r' = drop n (csr_pending r) \<and> csr_fin r' = csr_fin r"
  using csr_reader.copy_spec [of r "Suc (csr_steps r)" n "[]"] by (simp add: csr_CopyLimit_def)

lemma readPayload_consumes:
  "length (csr_pending (cs_r (snd (readPayload csid rd s)))) \<le> length (csr_pending (cs_r s))"
proof -
  obtain k where "k = nat (if (word_of_int (uint (messageLength rd) - int (length (buf rd))) :: u32)
      > chunkSize (peerState s) then uint (chunkSize (peerState s))
      else uint (messageLength rd) - int (length (buf rd)))" by simp
  with csr_copy [of "cs_r s" k] show ?thesis
    by (auto simp: readPayload_def Let_def putReader_def split: option.splits)
qed

lemma with_r_Ok: "with_r p s = (Ok x, s') \<longleftrightarrow> (\<exists>r. p = (Ok x, r) \<and> s' = s\<lparr>cs_r := r\<rparr>)"
  by (cases p) (auto simp: with_r_def)

lemma readChunk_consumes:
  assumes "readChunk s = (Ok csid, s')"
  shows "length (csr_pending (cs_r s')) < length (csr_pending (cs_r s))"
proof -
  from assms obtain bh r1 mh r2 rd s3 rd' where
    bh: "decodeChunkBasicHeader csr_ReadAtLeast (cs_r s) cacheBufferLen = (Ok bh, r1)" and
    mh: "decodeChunkMessageHeader csr_ReadAtLeast r1 (fmt bh) zeroMessageHeader = (Ok mh, r2)" and
    pr: "wrap_err ''Failed to prepare chunk reader''
      (prepareChunkReader (chunkStreamID bh) (s\<lparr>cs_r := r2\<rparr>)) = (Ok rd, s3)" and
    rp: "readPayload (chunkStreamID bh) rd' s3 = (Ok csid, s')"
    by (auto simp: readChunk_def bindo_Ok_iff with_r_Ok)
  have "cs_r s3 = r2"
    using pr by (auto simp: prepareChunkReader_def wrap_err_def split: option.splits if_splits)
  with readPayload_consumes [of "chunkStreamID bh" rd' s3] rp basic_header_consumes [OF bh]
    message_header_consumes [OF mh]
  show ?thesis by simp
qed

section \<open>Reading a message\<close>

text \<open>
  The acknowledgement threshold \<open>uint32 (ackWindowSize / 2)\<close>: Go divides towards zero, and a
  negative window gives a huge threshold.
\<close>

definition ackThreshold :: "StreamControlState \<Rightarrow> u32" where
  "ackThreshold ps =
     (let a = sint (ackWindowSize ps) in word_of_int (sgn a * (\<bar>a\<bar> div 2)))"

definition acknowledge ::
  "(u32 \<Rightarrow> 'w \<Rightarrow> unit outcome \<times> 'w) \<Rightarrow> chunk_in \<times> 'w \<Rightarrow> unit outcome \<times> (chunk_in \<times> 'w)" where
  "acknowledge sendAck sw =
     (case sw of (s, w) \<Rightarrow>
        if FragmentReadBytes (cs_r s) \<ge> ackThreshold (peerState s) then
          (case sendAck (TotalReadBytes (cs_r s)) w of
             (Ok _, w') \<Rightarrow> (Ok (), (s\<lparr>cs_r := ResetFragmentReadBytes (cs_r s)\<rparr>, w'))
           | (Err e, w') \<Rightarrow> (Err e, (s, w'))
           | (Panic m, w') \<Rightarrow> (Panic m, (s, w')))
        else (Ok (), (s, w)))"

definition reader_completed :: "chunk_in \<Rightarrow> int \<Rightarrow> bool" where
  "reader_completed s csid =
     (case map_of (cs_readers s) csid of Some rd \<Rightarrow> completed rd | None \<Rightarrow> False)"

lemma acknowledge_pending:
  "acknowledge sendAck (s, w) = (res, (s', w')) \<Longrightarrow> csr_pending (cs_r s') = csr_pending (cs_r s)"
  by (auto simp: acknowledge_def ResetFragmentReadBytes_def csr_pending_def
      split: if_splits prod.splits outcome.splits)

text \<open>Each round reads at least one byte of what is pending, so the loop ends.\<close>

function NewChunkReader ::
  "(u32 \<Rightarrow> 'w \<Rightarrow> unit outcome \<times> 'w) \<Rightarrow> chunk_in \<times> 'w \<Rightarrow> int outcome \<times> (chunk_in \<times> 'w)" where
  "NewChunkReader sendAck (s, w) =
     (case readChunk s of
        (Err e, s') \<Rightarrow> (Err e, (s', w))
      | (Panic m, s') \<Rightarrow> (Panic m, (s', w))
      | (Ok csid, s') \<Rightarrow>
          (case acknowledge sendAck (s', w) of
             (Err e, sw) \<Rightarrow> (Err e, sw)
           | (Panic m, sw) \<Rightarrow> (Panic m, sw)
           | (Ok _, (s2, w2)) \<Rightarrow>
               if reader_completed s2 csid then (Ok csid, (s2, w2))
               else NewChunkReader sendAck (s2, w2)))"
  by pat_completeness auto
termination
proof (relation "measure (\<lambda>(_, (s, _)). length (csr_pending (cs_r s)))")
qed (auto dest!: readChunk_consumes [OF sym] acknowledge_pending [OF sym])

declare NewChunkReader.simps [simp del]

record ChunkMessage =
  StreamID :: u32
  Message :: message

definition Read ::
  "amf0_lib \<Rightarrow> (u32 \<Rightarrow> 'w \<Rightarrow> unit outcome \<times> 'w) \<Rightarrow> chunk_in \<times> 'w
     \<Rightarrow> (int \<times> u32 \<times> ChunkMessage) outcome \<times> (chunk_in \<times> 'w)" where
  "Read lib sendAck sw =
     andthen (NewChunkReader sendAck sw) (\<lambda>csid (s, w).
       (case map_of (cs_readers s) csid of
          None \<Rightarrow> (Panic ''nil reader'', (s, w))
        | Some rd \<Rightarrow>
            (case Decode lib (messageTypeID rd) (buf rd) of
               (res, rest) \<Rightarrow>
                 let s = putReader csid (rd\<lparr>buf := rest\<rparr>) s in
                 (case res of
                    Ok m \<Rightarrow>
                      (Ok (chunkStreamID (basicHeader rd), timestamp rd,
                           \<lparr>StreamID = messageStreamID rd, Message = m\<rparr>), (s, w))
                  | Err e \<Rightarrow> (Err e, (s, w))
                  | Panic p \<Rightarrow> (Panic p, (s, w))))))"

end
