(* ===== verification/ChunkWriter.thy ===== *)
theory ChunkWriter
  imports ChunkReader
begin

text \<open>
  The writing half of the chunk streamer: chunk_stream_writer.go and, of chunk_streamer.go,
  \<open>prepareChunkWriter\<close>, \<open>NewChunkWriter\<close>, \<open>Write\<close>, \<open>updateWriterHeader\<close>, \<open>writeChunk\<close> and the
  writer scheduler with its goroutine.

  A channel that is only closed or replaced (\<open>doneCh\<close>, \<open>closeCh\<close>, \<open>stopCh\<close>, \<open>done\<close>) is the truth of
  its being closed. The scheduler's channel of writers is the list \<open>sched_writers\<close> with its
  capacity; \<open>sched_blocked\<close> holds the writers whose goroutines wait to send on it, and
  \<open>sched_holding\<close> the writer the scheduler itself has taken and must put back. The steps that the
  goroutines of a connection can make are the relation \<open>out_step\<close>.
\<close>

section \<open>State\<close>

record ChunkStreamWriter = ChunkStreamReader +
  doneClosed :: bool
  closeClosed :: bool
  lastErr :: "go_err option"
  newChunk :: bool

definition ctrlMsgChunkStreamID :: int where
  "ctrlMsgChunkStreamID = 2"

definition maxWriterQueueSize :: nat where
  "maxWriterQueueSize = 64"

record chunk_out =
  cs_w :: ChunkStreamerWriter
  cs_writers :: "(int \<times> ChunkStreamWriter) list"
  selfState :: StreamControlState
  out_cfg :: StreamControlStateConfig
  msgEnc :: "int option"
  sched_writers :: "int list"
  sched_holding :: "int option"
  sched_blocked :: "int list"
  stopClosed :: bool
  runDone :: bool
  cs_err :: "go_err option"

text \<open>A new writer: its done channel is closed, its header's timestamp the largest.\<close>

definition newWriter :: "int \<Rightarrow> ChunkStreamWriter" where
  "newWriter csid =
     \<lparr>basicHeader = \<lparr>fmt = 0, chunkStreamID = csid\<rparr>,
      messageHeader = zeroMessageHeader\<lparr>mh_timestamp := 0xffffffff\<rparr>,
      timestamp = 0, timestampDelta = 0, messageLength = 0, messageTypeID = 0,
      messageStreamID = 0, buf = [], completed = False,
      doneClosed = True, closeClosed = False, lastErr = None, newChunk = True\<rparr>"

definition putWriter :: "int \<Rightarrow> ChunkStreamWriter \<Rightarrow> chunk_out \<Rightarrow> chunk_out" where
  "putWriter csid w s = s\<lparr>cs_writers := set_key csid w (cs_writers s)\<rparr>"

definition getWriter :: "int \<Rightarrow> chunk_out \<Rightarrow> ChunkStreamWriter" where
  "getWriter csid s =
     (case map_of (cs_writers s) csid of Some w \<Rightarrow> w | None \<Rightarrow> newWriter csid)"

section \<open>Acquiring a writer\<close>

definition prepareChunkWriter :: "int \<Rightarrow> chunk_out \<Rightarrow> ChunkStreamWriter outcome \<times> chunk_out" where
  "prepareChunkWriter csid s =
     (case map_of (cs_writers s) csid of
        Some w \<Rightarrow> (Ok w, s)
      | None \<Rightarrow>
          if int (length (cs_writers s)) \<ge> cfgMaxChunkStreams (out_cfg s) then
            (Err (Errorf ''Creating chunk streams limit exceeded(Writer): Limit = %d''
                   [ArgInt (cfgMaxChunkStreams (out_cfg s))]), s)
          else (Ok (newWriter csid), putWriter csid (newWriter csid) s))"

text \<open>
  \<open>Wait\<close> selects among the cases that are ready; Go picks any of them. \<open>ctx\<close> is the error of the
  context once it has expired.
\<close>

datatype wait_case = WaitDone | WaitClosed | WaitCtx go_err

definition Wait_ready :: "ChunkStreamWriter \<Rightarrow> go_err option \<Rightarrow> wait_case list" where
  "Wait_ready w ctx =
     (if doneClosed w then [WaitDone] else []) @
     (if closeClosed w then [WaitClosed] else []) @
     (case ctx of Some e \<Rightarrow> [WaitCtx e] | None \<Rightarrow> [])"

fun Wait :: "wait_case \<Rightarrow> ChunkStreamWriter \<Rightarrow> unit outcome \<times> ChunkStreamWriter" where
  "Wait WaitDone w =
     (case lastErr w of Some e \<Rightarrow> (Err e, w) | None \<Rightarrow> (Ok (), w\<lparr>doneClosed := False\<rparr>))"
| "Wait WaitClosed w = (case lastErr w of Some e \<Rightarrow> (Err e, w) | None \<Rightarrow> (Ok (), w))"
| "Wait (WaitCtx e) w = (Err e, w)"

definition NewChunkWriter :: "int \<Rightarrow> wait_case \<Rightarrow> chunk_out \<Rightarrow> unit outcome \<times> chunk_out" where
  "NewChunkWriter csid c s =
     andthen (wrap_err ''Failed to prepare chunk writer'' (prepareChunkWriter csid s)) (\<lambda>w s.
       wrap_err ''Failed to wait chunk writer''
         (fst (Wait c w), putWriter csid (snd (Wait c w)) s))"

section \<open>Writing a message\<close>

text \<open>
  \<open>Write\<close> resets the shared encoder to its writer, encodes through the encoder, fills in the
  writer's header and hands it to the scheduler. The encoder is one for the whole streamer: what
  it writes goes to the writer it was reset to last.
\<close>

definition Write_reset :: "int \<Rightarrow> wait_case \<Rightarrow> chunk_out \<Rightarrow> unit outcome \<times> chunk_out" where
  "Write_reset csid c s =
     andthen (NewChunkWriter csid c s) (\<lambda>_ s. (Ok (), s\<lparr>msgEnc := Some csid\<rparr>))"

definition Write_encode :: "amf0_lib \<Rightarrow> message \<Rightarrow> chunk_out \<Rightarrow> unit outcome \<times> chunk_out" where
  "Write_encode lib m s =
     (case msgEnc s of
        None \<Rightarrow> (Panic ''nil writer'', s)
      | Some target \<Rightarrow>
          (let w = getWriter target s; p = Encode lib m (buf w)
           in (fst p, putWriter target (w\<lparr>buf := snd p\<rparr>) s)))"

definition Write_header :: "int \<Rightarrow> u32 \<Rightarrow> ChunkMessage \<Rightarrow> chunk_out \<Rightarrow> unit outcome \<times> chunk_out" where
  "Write_header csid ts cmsg s =
     (let w = getWriter csid s;
          w = w\<lparr>timestamp := ts, messageLength := of_nat (length (buf w))\<rparr>
      in case TypeID (Message cmsg) of
           Ok tid \<Rightarrow>
             (Ok (), putWriter csid (w\<lparr>messageTypeID := tid, messageStreamID := StreamID cmsg\<rparr>) s)
         | Err e \<Rightarrow> (Err e, putWriter csid w s)
         | Panic m \<Rightarrow> (Panic m, putWriter csid w s))"

text \<open>\<open>Sched\<close> marks a new chunk and sends on the scheduler's channel, which may block.\<close>

definition Sched :: "int \<Rightarrow> chunk_out \<Rightarrow> chunk_out" where
  "Sched csid s =
     putWriter csid ((getWriter csid s)\<lparr>newChunk := True\<rparr>)
       (s\<lparr>sched_blocked := sched_blocked s @ [csid]\<rparr>)"

definition Write ::
  "amf0_lib \<Rightarrow> int \<Rightarrow> u32 \<Rightarrow> ChunkMessage \<Rightarrow> wait_case \<Rightarrow> chunk_out \<Rightarrow> unit outcome \<times> chunk_out" where
  "Write lib csid ts cmsg c s =
     andthen (Write_reset csid c s) (\<lambda>_ s.
     andthen (Write_encode lib (Message cmsg) s) (\<lambda>_ s.
     andthen (Write_header csid ts cmsg s) (\<lambda>_ s. (Ok (), Sched csid s))))"

section \<open>Writing one chunk\<close>

definition updateWriterHeader :: "ChunkStreamWriter \<Rightarrow> ChunkStreamWriter" where
  "updateWriterHeader w =
     (let changed = (mh_messageLength (messageHeader w) \<noteq> messageLength w \<or>
                     messageTypeID w \<noteq> mh_messageTypeID (messageHeader w));
          w1 = (if changed then
                  w\<lparr>messageHeader := (messageHeader w)
                      \<lparr>mh_messageLength := messageLength w, mh_messageTypeID := messageTypeID w\<rparr>\<rparr>
                else w);
          f1 = (if changed then 1 else 2 :: byte);
          timed = (timestamp w1 \<noteq> mh_timestamp (messageHeader w1) \<or> newChunk w1);
          reversed = (timed \<and> timestamp w1 < mh_timestamp (messageHeader w1));
          w2 = (if timed then
                  if timestamp w1 \<ge> mh_timestamp (messageHeader w1) then
                    w1\<lparr>timestampDelta := timestamp w1 - mh_timestamp (messageHeader w1)\<rparr>
                  else w1\<lparr>timestampDelta := 0\<rparr>
                else w1);
          f2 = (if reversed then 0 else f1);
          w3 = w2\<lparr>newChunk := False\<rparr>;
          f3 = (if timestampDelta w3 = mh_timestampDelta (messageHeader w3) \<and> f2 = 2
                then 3 else f2);
          w4 = w3\<lparr>messageHeader := (messageHeader w3)
                    \<lparr>mh_timestampDelta := timestampDelta w3, mh_timestamp := timestamp w3\<rparr>\<rparr>;
          moved = (mh_messageStreamID (messageHeader w4) \<noteq> messageStreamID w4);
          w5 = (if moved then
                  w4\<lparr>messageHeader := (messageHeader w4)\<lparr>mh_messageStreamID := messageStreamID w4\<rparr>\<rparr>
                else w4);
          f5 = (if moved then 0 else f3)
      in w5\<lparr>basicHeader := (basicHeader w5)\<lparr>fmt := f5\<rparr>\<rparr>)"

text \<open>The number of payload bytes of a chunk: what the chunk size allows.\<close>

definition chunkLen :: "nat \<Rightarrow> u32 \<Rightarrow> nat" where
  "chunkLen n size' = (if (of_nat n :: u32) > size' then unat size' else n)"

definition with_w :: "unit outcome \<times> ChunkStreamerWriter \<Rightarrow> chunk_out \<Rightarrow> unit outcome \<times> chunk_out" where
  "with_w p s = (fst p, s\<lparr>cs_w := snd p\<rparr>)"

text \<open>
  The result is whether the message is complete. \<open>io.CopyN\<close> takes its bytes out of the writer's
  buffer while it writes them; when the connection breaks in between, no one reads them again.
\<close>

definition writeChunk :: "int \<Rightarrow> chunk_out \<Rightarrow> bool outcome \<times> chunk_out" where
  "writeChunk csid s =
     (let w = updateWriterHeader (getWriter csid s);
          s = putWriter csid w s;
          expectLen = chunkLen (length (buf w)) (chunkSize (selfState s))
      in andthen (with_w (encodeChunkBasicHeader (cs_w s) (basicHeader w)) s) (\<lambda>_ s.
         andthen (with_w (encodeChunkMessageHeader (cs_w s) (fmt (basicHeader w)) (messageHeader w)) s)
           (\<lambda>_ s.
         andthen (with_w (ChunkStreamerWriter_Write (cs_w s) (take expectLen (buf w)))
                   (putWriter csid (w\<lparr>buf := drop expectLen (buf w)\<rparr>) s)) (\<lambda>_ s.
         andthen (with_w (ChunkStreamerWriter_Flush (cs_w s)) s) (\<lambda>_ s.
           (Ok (drop expectLen (buf w) = []), s))))))"

section \<open>The scheduler\<close>

definition forceCloseWriters :: "chunk_out \<Rightarrow> chunk_out" where
  "forceCloseWriters s =
     s\<lparr>cs_writers := map (\<lambda>(csid, w). (csid, w\<lparr>closeClosed := True\<rparr>)) (cs_writers s)\<rparr>"

text \<open>The end of \<open>Run\<close>, as \<open>schedWriteLoop\<close> handles it.\<close>

definition schedWriteLoop_end :: "go_err option \<Rightarrow> chunk_out \<Rightarrow> chunk_out" where
  "schedWriteLoop_end err s =
     (let s = s\<lparr>runDone := True, cs_err := err\<rparr> in
      case err of None \<Rightarrow> s | Some _ \<Rightarrow> forceCloseWriters s)"

text \<open>One round of \<open>Run\<close> that received the writer \<open>csid\<close>.\<close>

definition Run_round :: "int \<Rightarrow> chunk_out \<Rightarrow> chunk_out" where
  "Run_round csid s =
     (case writeChunk csid s of
        (Ok isCompleted, s) \<Rightarrow>
          if isCompleted then putWriter csid ((getWriter csid s)\<lparr>doneClosed := True\<rparr>) s
          else s\<lparr>sched_holding := Some csid\<rparr>
      | (Err e, s) \<Rightarrow>
          schedWriteLoop_end (Some e)
            (putWriter csid ((getWriter csid s)\<lparr>lastErr := Some e, doneClosed := True\<rparr>) s)
      | (Panic m, s) \<Rightarrow>
          schedWriteLoop_end (Some (Errorf ''Panic: %+v'' [ArgStr m])) s)"

text \<open>
  What the goroutines of a connection can do: a call of \<open>Write\<close> returns or fails, a blocked sender
  finds room in the channel, the scheduler takes a writer and writes a chunk of it, puts an
  unfinished writer back when there is room, or sees that it was stopped. A \<open>Write\<close> that panics ends
  the program and has no step.
\<close>

datatype out_event =
    EvWrite int u32 ChunkMessage
  | EvWriteFail int u32 ChunkMessage
  | EvEnqueue int
  | EvChunk int
  | EvRequeue int
  | EvClose
  | EvStop

inductive out_step :: "amf0_lib \<Rightarrow> chunk_out \<Rightarrow> out_event \<Rightarrow> chunk_out \<Rightarrow> bool" for lib where
  wr_ok: "c \<in> set (Wait_ready (getWriter csid s) ctx) \<Longrightarrow>
     Write lib csid ts cmsg c s = (Ok (), s') \<Longrightarrow>
     out_step lib s (EvWrite csid ts cmsg) s'"
| wr_fail: "c \<in> set (Wait_ready (getWriter csid s) ctx) \<Longrightarrow>
     Write lib csid ts cmsg c s = (Err e, s') \<Longrightarrow>
     out_step lib s (EvWriteFail csid ts cmsg) s'"
| sender_enqueue: "csid \<in> set (sched_blocked s) \<Longrightarrow> length (sched_writers s) < maxWriterQueueSize \<Longrightarrow>
     out_step lib s (EvEnqueue csid)
       (s\<lparr>sched_blocked := remove1 csid (sched_blocked s),
          sched_writers := sched_writers s @ [csid]\<rparr>)"
| run_chunk: "\<not> runDone s \<Longrightarrow> sched_holding s = None \<Longrightarrow> sched_writers s = csid # q \<Longrightarrow>
     out_step lib s (EvChunk csid) (Run_round csid (s\<lparr>sched_writers := q\<rparr>))"
| run_requeue: "\<not> runDone s \<Longrightarrow> sched_holding s = Some csid \<Longrightarrow>
     length (sched_writers s) < maxWriterQueueSize \<Longrightarrow>
     out_step lib s (EvRequeue csid)
       (s\<lparr>sched_holding := None, sched_writers := sched_writers s @ [csid]\<rparr>)"
| close_sched: "\<not> stopClosed s \<Longrightarrow> out_step lib s EvClose (s\<lparr>stopClosed := True\<rparr>)"
| run_stop: "\<not> runDone s \<Longrightarrow> sched_holding s = None \<Longrightarrow> stopClosed s \<Longrightarrow>
     out_step lib s EvStop (schedWriteLoop_end None s)"

inductive_cases out_step_chunkE: "out_step lib s (EvChunk csid) s'"
inductive_cases out_step_writeE: "out_step lib s (EvWrite csid ts cmsg) s'"
inductive_cases out_step_requeueE: "out_step lib s (EvRequeue csid) s'"

inductive_simps out_step_requeue_simp: "out_step lib s (EvRequeue csid) s'"
inductive_simps out_step_chunk_simp: "out_step lib s (EvChunk csid) s'"

section \<open>The table of writers\<close>

lemma getWriter_putWriter [simp]:
  "getWriter a (putWriter b w s) = (if a = b then w else getWriter a s)"
  by (simp add: getWriter_def putWriter_def)

lemma putWriter_sel [simp]:
  "cs_w (putWriter c w s) = cs_w s" "selfState (putWriter c w s) = selfState s"
  "out_cfg (putWriter c w s) = out_cfg s" "msgEnc (putWriter c w s) = msgEnc s"
  "sched_writers (putWriter c w s) = sched_writers s"
  "sched_holding (putWriter c w s) = sched_holding s"
  "sched_blocked (putWriter c w s) = sched_blocked s"
  "stopClosed (putWriter c w s) = stopClosed s" "runDone (putWriter c w s) = runDone s"
  "cs_err (putWriter c w s) = cs_err s"
  by (simp_all add: putWriter_def)

lemma set_key_set_key [simp]: "set_key k v (set_key k v' t) = set_key k v t"
  by (induction t) auto

lemma putWriter_putWriter [simp]: "putWriter c w (putWriter c w' s) = putWriter c w s"
  by (simp add: putWriter_def)

end
