(* ===== verification/ChunkSync.thy ===== *)
theory ChunkSync
  imports ChunkWriter
begin

text \<open>
  One chunk from a writer to a reader. A writer and the reader of the same chunk stream at the
  other end share what the last message header said; the relations below say how, between two
  messages and in the middle of one. The lemmas show that the bytes \<open>writeChunk\<close> sends are what
  \<open>readChunk\<close> reads back, under every segmentation, and that both ends agree again afterwards.
\<close>

section \<open>What both ends of a chunk stream agree on\<close>

text \<open>Neither end has seen a message.\<close>

definition hdr_fresh :: "ChunkStreamWriter \<Rightarrow> ChunkStreamReader \<Rightarrow> bool" where
  "hdr_fresh w rd \<longleftrightarrow>
     messageHeader w = zeroMessageHeader\<lparr>mh_timestamp := 0xffffffff\<rparr> \<and> rd = zeroReader"

text \<open>Both have seen the last one: its header, and the timestamp the reader computed from it.\<close>

definition hdr_synced :: "u32 \<Rightarrow> ChunkStreamWriter \<Rightarrow> ChunkStreamReader \<Rightarrow> bool" where
  "hdr_synced sid w rd \<longleftrightarrow>
     mh_messageLength (messageHeader w) = messageLength rd \<and>
     mh_messageTypeID (messageHeader w) = messageTypeID rd \<and>
     mh_messageStreamID (messageHeader w) = sid \<and> messageStreamID rd = sid \<and>
     mh_timestampDelta (messageHeader w) = timestampDelta rd"

text \<open>Between two messages.\<close>

definition between :: "u32 \<Rightarrow> ChunkStreamWriter \<Rightarrow> ChunkStreamReader \<Rightarrow> bool" where
  "between sid w rd \<longleftrightarrow>
     hdr_fresh w rd \<or>
     hdr_synced sid w rd \<and> completed rd \<and> mh_timestamp (messageHeader w) = timestamp rd"

text \<open>A message was written to the writer and none of it was sent.\<close>

definition loaded :: "u32 \<Rightarrow> ChunkStreamWriter \<Rightarrow> bool" where
  "loaded sid w \<longleftrightarrow>
     newChunk w \<and> messageStreamID w = sid \<and> timestamp w \<noteq> 0xffffffff \<and>
     buf w \<noteq> [] \<and> length (buf w) < 2 ^ 24 \<and> messageLength w = of_nat (length (buf w))"

text \<open>
  In the middle of a message, before the payload of a chunk moves: the reader has the header, and
  what the reader has and the writer still holds are the message.
\<close>

definition header_known :: "u32 \<Rightarrow> ChunkStreamWriter \<Rightarrow> ChunkStreamReader \<Rightarrow> bool" where
  "header_known sid w rd \<longleftrightarrow>
     \<not> newChunk w \<and> hdr_synced sid w rd \<and> \<not> completed rd \<and>
     messageHeader w = \<lparr>mh_timestamp = timestamp w, mh_timestampDelta = timestampDelta w,
       mh_messageLength = messageLength w, mh_messageTypeID = messageTypeID w,
       mh_messageStreamID = messageStreamID w\<rparr> \<and>
     timestamp rd + timestampDelta rd = timestamp w \<and>
     length (buf rd @ buf w) < 2 ^ 24 \<and> messageLength w = of_nat (length (buf rd @ buf w))"

section \<open>The header of a chunk\<close>

lemma len24 [simp]:
  assumes "n < 2 ^ 24"
  shows "take_bit 24 (of_nat n :: u32) = of_nat n" "unat (of_nat n :: u32) = n" "uint (of_nat n :: u32) = int n"
proof -
  show n: "unat (of_nat n :: u32) = n" using assms by (simp add: unat_of_nat)
  then show "take_bit 24 (of_nat n :: u32) = of_nat n"
    using assms by (intro take_bit_24_id) (simp add: word_le_nat_alt)
  show "uint (of_nat n :: u32) = int n" using n by (simp add: uint_nat)
qed

text \<open>What \<open>updateWriterHeader\<close> does to a writer, by whether the chunk is the first of its message.\<close>

definition nextDelta :: "ChunkStreamWriter \<Rightarrow> u32" where
  "nextDelta w =
     (if mh_timestamp (messageHeader w) \<le> timestamp w
      then timestamp w - mh_timestamp (messageHeader w) else 0)"

definition nextFmt :: "ChunkStreamWriter \<Rightarrow> byte" where
  "nextFmt w =
     (if mh_messageStreamID (messageHeader w) \<noteq> messageStreamID w \<or>
         timestamp w < mh_timestamp (messageHeader w) then 0
      else if mh_messageLength (messageHeader w) \<noteq> messageLength w \<or>
              mh_messageTypeID (messageHeader w) \<noteq> messageTypeID w then 1
      else if nextDelta w = mh_timestampDelta (messageHeader w) then 3 else 2)"

lemma update_first_chunk:
  assumes "newChunk w"
  shows "updateWriterHeader w =
    w\<lparr>newChunk := False, timestampDelta := nextDelta w,
      messageHeader := \<lparr>mh_timestamp = timestamp w, mh_timestampDelta = nextDelta w,
        mh_messageLength = messageLength w, mh_messageTypeID = messageTypeID w,
        mh_messageStreamID = messageStreamID w\<rparr>,
      basicHeader := (basicHeader w)\<lparr>fmt := nextFmt w\<rparr>\<rparr>"
proof -
  obtain a b c d e where mh: "messageHeader w = \<lparr>mh_timestamp = a, mh_timestampDelta = b,
      mh_messageLength = c, mh_messageTypeID = d, mh_messageStreamID = e\<rparr>"
    by (cases "messageHeader w") auto
  show ?thesis
    using assms mh
    by (simp add: updateWriterHeader_def Let_def nextDelta_def nextFmt_def)
qed

lemma update_later_chunk:
  assumes "\<not> newChunk w" "messageHeader w = \<lparr>mh_timestamp = timestamp w,
      mh_timestampDelta = timestampDelta w, mh_messageLength = messageLength w,
      mh_messageTypeID = messageTypeID w, mh_messageStreamID = messageStreamID w\<rparr>"
  shows "updateWriterHeader w = w\<lparr>basicHeader := (basicHeader w)\<lparr>fmt := 3\<rparr>\<rparr>"
  using assms by (cases w) (simp add: updateWriterHeader_def Let_def)

text \<open>The first chunk of a message tells the reader the whole header, in one of four ways.\<close>

lemma first_chunk_header:
  assumes "loaded sid w" "between sid w rd"
  defines "w' \<equiv> updateWriterHeader w"
  shows "\<exists>rd'. applyHeader (basicHeader w')
      (wireHeader (fmt (basicHeader w')) (messageHeader w') zeroMessageHeader) rd = Ok rd' \<and>
    header_known sid w' rd' \<and> buf rd' = []"
proof -
  have l: "unat (messageLength w) = length (buf w)" "length (buf w) \<noteq> 0"
    "take_bit 24 (messageLength w) = messageLength w"
    using assms(1) len24(1,2) [of "length (buf w)"] by (auto simp: loaded_def)
  then have len: "take_bit 24 (messageLength w) = messageLength w" "messageLength w \<noteq> 0" by auto
  have ml: "length (buf w) < 2 ^ 24" "messageLength w = of_nat (length (buf w))"
    and nc: "newChunk w" and sid: "messageStreamID w = sid" and ts: "timestamp w \<noteq> 0xffffffff"
    using assms(1) by (auto simp: loaded_def)
  have lt: "timestamp w < 0xffffffff"
    using ts unsigned_less [of "timestamp w", where 'a = nat]
    by (simp add: word_less_nat_alt word_unat_eq_iff)
  note defs = applyHeader_def wireHeader_def header_known_def hdr_synced_def resetCompleted_def Let_def
  from assms(2) consider "hdr_fresh w rd" | "hdr_synced sid w rd" "completed rd"
    "mh_timestamp (messageHeader w) = timestamp rd" by (auto simp: between_def)
  then show ?thesis
  proof cases
    case 1
    then have "nextFmt w = 0" "nextDelta w = 0" "rd = zeroReader"
      using lt by (auto simp: nextFmt_def nextDelta_def hdr_fresh_def)
    then show ?thesis using len ml sid
      by (simp add: w'_def update_first_chunk [OF nc] defs zeroReader_def)
  next
    case 2
    then have syn: "mh_messageLength (messageHeader w) = messageLength rd"
      "mh_messageTypeID (messageHeader w) = messageTypeID rd"
      "mh_messageStreamID (messageHeader w) = sid" "messageStreamID rd = sid"
      "mh_timestampDelta (messageHeader w) = timestampDelta rd" by (auto simp: hdr_synced_def)
    have apply3: "applyHeader bh mh rd = Ok ((resetCompleted rd)\<lparr>basicHeader := bh, messageHeader := mh\<rparr>)"
      if "fmt bh = 3" for bh mh using that by (simp add: applyHeader_def Let_def)
    have d: "nextDelta w = (if timestamp rd \<le> timestamp w then timestamp w - timestamp rd else 0)"
      using 2(3) by (simp add: nextDelta_def)
    have f: "nextFmt w = (if timestamp w < timestamp rd then 0
        else if messageLength rd \<noteq> messageLength w \<or> messageTypeID rd \<noteq> messageTypeID w then 1
        else if nextDelta w = timestampDelta rd then 3 else 2)"
      unfolding nextFmt_def 2(3) syn sid by simp
    consider (zero) "timestamp w < timestamp rd" "nextFmt w = 0" "nextDelta w = 0"
      | (one) "nextFmt w = 1" "nextDelta w = timestamp w - timestamp rd"
      | (two) "nextFmt w = 2" "nextDelta w = timestamp w - timestamp rd"
          "messageLength rd = messageLength w" "messageTypeID rd = messageTypeID w"
      | (three) "nextFmt w = 3" "nextDelta w = timestamp w - timestamp rd" "nextDelta w = timestampDelta rd"
          "messageLength rd = messageLength w" "messageTypeID rd = messageTypeID w"
      using d f by (metis not_le order_less_imp_le)
    then show ?thesis
    proof cases
      case three
      then show ?thesis using len ml sid 2(2,3) syn
        by (simp add: w'_def update_first_chunk [OF nc] apply3 resetCompleted_def
            header_known_def hdr_synced_def)
    qed (use len ml sid 2(2,3) syn in \<open>simp_all add: w'_def update_first_chunk [OF nc] defs\<close>)
  qed
qed

text \<open>The later chunks of a message tell it nothing.\<close>

lemma later_chunk_header:
  assumes "header_known sid w rd"
  defines "w' \<equiv> updateWriterHeader w"
  shows "\<exists>rd'. applyHeader (basicHeader w')
      (wireHeader (fmt (basicHeader w')) (messageHeader w') zeroMessageHeader) rd = Ok rd' \<and>
    header_known sid w' rd' \<and> buf rd' = buf rd \<and> buf w' = buf w"
proof -
  have "updateWriterHeader w = w\<lparr>basicHeader := (basicHeader w)\<lparr>fmt := 3\<rparr>\<rparr>"
    using assms(1) by (intro update_later_chunk) (simp_all add: header_known_def)
  moreover have "mh_messageLength (messageHeader w) = messageLength w"
    "mh_messageTypeID (messageHeader w) = messageTypeID w"
    "mh_messageStreamID (messageHeader w) = messageStreamID w"
    "mh_timestampDelta (messageHeader w) = timestampDelta w"
    using assms(1) by (simp_all add: header_known_def)
  ultimately show ?thesis
    using assms(1) by (auto simp: w'_def applyHeader_def resetCompleted_def Let_def
        header_known_def hdr_synced_def)
qed

section \<open>The payload of a chunk\<close>

lemma nextFmt_le: "nextFmt w \<le> 3"
  by (simp add: nextFmt_def word_le_nat_alt)

lemma update_fmt:
  "loaded sid w \<or> header_known sid w rd \<Longrightarrow> fmt (basicHeader (updateWriterHeader w)) \<le> 3 \<and>
   chunkStreamID (basicHeader (updateWriterHeader w)) = chunkStreamID (basicHeader w) \<and>
   buf (updateWriterHeader w) = buf w \<and> doneClosed (updateWriterHeader w) = doneClosed w \<and>
   closeClosed (updateWriterHeader w) = closeClosed w \<and> lastErr (updateWriterHeader w) = lastErr w"
  by (auto simp: loaded_def header_known_def update_first_chunk update_later_chunk nextFmt_le)

text \<open>
  \<open>chunkLen\<close> is what both ends take: the rest of the message, cut to the chunk size.
\<close>

lemma chunkLen_min: "n < 2 ^ 24 \<Longrightarrow> chunkLen n sz = min n (unat sz)"
  by (auto simp: chunkLen_def word_less_nat_alt)

lemma readPayload_chunk:
  assumes "header_known sid w rd" "buf w \<noteq> []" "chunkSize (peerState i) = sz" "sz \<noteq> 0"
    and "csr_pending (cs_r i) = take n (buf w) @ rest" "n = chunkLen (length (buf w)) sz"
  shows "\<exists>r'. csr_pending r' = rest \<and>
    readPayload csid rd i =
      (Ok csid, putReader csid
        (if n < length (buf w) then rd\<lparr>buf := buf rd @ take n (buf w)\<rparr>
         else rd\<lparr>buf := buf rd @ buf w, timestamp := timestamp w, completed := True\<rparr>)
        (i\<lparr>cs_r := r'\<rparr>))"
proof -
  let ?k = "length (buf w)"
  have ml: "messageLength rd = of_nat (length (buf rd) + ?k)" "length (buf rd) + ?k < 2 ^ 24"
    and ts: "timestamp rd + timestampDelta rd = timestamp w"
    using assms(1) by (auto simp: header_known_def hdr_synced_def)
  have k: "?k < 2 ^ 24" using ml(2) by simp
  have u: "uint (messageLength rd) = int (length (buf rd) + ?k)"
    unfolding ml(1) by (rule len24(3) [OF ml(2)])
  have pos: "0 < ?k" "0 < unat sz" using assms(2,4) by (auto simp: unat_gt_0)
  have n: "n = min ?k (unat sz)" using assms(6) chunkLen_min [OF k] by simp
  have lim: "nat (if (word_of_int (int ?k) :: u32) > sz then uint sz else int ?k) = n"
    using k unfolding n by (auto simp: word_less_nat_alt)
  obtain r' where r': "csr_CopyLimit (cs_r i) n = ((take n (buf w), None), r')" "csr_pending r' = rest"
    using csr_copy [of "cs_r i" n] assms(5) n by auto
  have e: "uint (messageLength rd) - int (length (buf rd)) = int ?k" using u by simp
  show ?thesis
    using pos r' n lim u ts assms(3)
    by (intro exI [of _ r']) (auto simp: readPayload_def Let_def e)
qed

section \<open>The bytes of a chunk\<close>

lemma messageHeaderBytes_total: "f \<le> 3 \<Longrightarrow> \<exists>bs. messageHeaderBytes f mh = Ok bs"
proof -
  assume "f \<le> 3"
  then have "unat f \<le> 3" by (simp add: word_le_nat_alt)
  then have "unat f = 0 \<or> unat f = 1 \<or> unat f = 2 \<or> unat f = 3" by arith
  then have "f = 0 \<or> f = 1 \<or> f = 2 \<or> f = 3" by (simp add: word_unat_eq_iff)
  then show ?thesis by (auto simp: messageHeaderBytes_def)
qed

lemma encode_headers_open:
  assumes "room v = None"
  shows "basicHeaderBytes bh = Ok bs \<Longrightarrow>
      encodeChunkBasicHeader v bh = (Ok (), v\<lparr>sent := sent v @ bs\<rparr>)"
    and "messageHeaderBytes f mh = Ok bs \<Longrightarrow>
      encodeChunkMessageHeader v f mh = (Ok (), v\<lparr>sent := sent v @ bs\<rparr>)"
  using assms by (auto simp: encodeChunkBasicHeader_def encodeChunkMessageHeader_def Write_open
      messageHeaderBytes_def)

lemma writeChunk_open:
  assumes "room (cs_w s) = None" "w' = updateWriterHeader (getWriter csid s)"
    and "basicHeaderBytes (basicHeader w') = Ok hb"
    and "messageHeaderBytes (fmt (basicHeader w')) (messageHeader w') = Ok mb"
    and "n = chunkLen (length (buf w')) (chunkSize (selfState s))"
  shows "writeChunk csid s =
    (Ok (drop n (buf w') = []),
     putWriter csid (w'\<lparr>buf := drop n (buf w')\<rparr>)
       (s\<lparr>cs_w := (cs_w s)\<lparr>sent := sent (cs_w s) @ hb @ mb @ take n (buf w')\<rparr>\<rparr>))"
  using assms encode_headers_open(1) [of "cs_w s", OF _ assms(3)]
    encode_headers_open(2) [of "(cs_w s)\<lparr>sent := sent (cs_w s) @ hb\<rparr>", OF _ assms(4)]
  by (simp add: writeChunk_def Let_def with_w_def Write_open ChunkStreamerWriter_Flush_def putWriter_def)

text \<open>The reader decodes both headers from the bytes and finds the entry of its table.\<close>

definition getReader :: "int \<Rightarrow> chunk_in \<Rightarrow> ChunkStreamReader" where
  "getReader csid i = (case map_of (cs_readers i) csid of Some rd \<Rightarrow> rd | None \<Rightarrow> zeroReader)"

definition reader_room :: "int \<Rightarrow> chunk_in \<Rightarrow> bool" where
  "reader_room csid i \<longleftrightarrow> map_of (cs_readers i) csid \<noteq> None \<or>
     int (length (cs_readers i)) < cfgMaxChunkStreams (in_cfg i)"

lemma getReader_putReader [simp]:
  "getReader a (putReader b rd i) = (if a = b then rd else getReader a i)"
  by (simp add: getReader_def putReader_def)

lemma putReader_sel [simp]:
  "cs_r (putReader c rd i) = cs_r i" "peerState (putReader c rd i) = peerState i"
  "in_cfg (putReader c rd i) = in_cfg i"
  by (simp_all add: putReader_def)

lemma putReader_putReader [simp]: "putReader c rd (putReader c rd' i) = putReader c rd i"
  by (simp add: putReader_def)

lemma two_bits_le: "(f :: byte) \<le> 3 \<Longrightarrow> f AND 3 = f"
  using two_bits by simp

lemma readChunk_headers:
  assumes "basicHeaderBytes bh = Ok hb" "messageHeaderBytes (fmt bh) mh = Ok mb"
    and "fmt bh \<le> 3" "chunkStreamID bh < 320" "reader_room (chunkStreamID bh) i"
    and "applyHeader bh (wireHeader (fmt bh) mh zeroMessageHeader) (getReader (chunkStreamID bh) i) = Ok rd"
    and "csr_pending (cs_r i) = hb @ mb @ rest"
  shows "\<exists>i'. readChunk i = readPayload (chunkStreamID bh) rd i' \<and> csr_pending (cs_r i') = rest \<and>
    peerState i' = peerState i \<and> in_cfg i' = in_cfg i \<and>
    (\<forall>rd'. cs_readers (putReader (chunkStreamID bh) rd' i') = set_key (chunkStreamID bh) rd' (cs_readers i))"
proof -
  obtain r1 where r1: "decodeChunkBasicHeader csr_ReadAtLeast (cs_r i) cacheBufferLen = (Ok bh, r1)"
    "csr_pending r1 = mb @ rest"
    using csr.basic_header_roundtrip [OF assms(1,7), of cacheBufferLen] assms(3,4)
    by (auto simp: two_bits_le)
  obtain r2 where r2: "decodeChunkMessageHeader csr_ReadAtLeast r1 (fmt bh) zeroMessageHeader =
      (Ok (wireHeader (fmt bh) mh zeroMessageHeader), r2)" "csr_pending r2 = rest"
    using csr.message_header_roundtrip [OF assms(2) r1(2)] by blast
  show ?thesis
    using assms(5,6) r1 r2
    by (cases "map_of (cs_readers i) (chunkStreamID bh)")
      (auto simp: readChunk_def with_r_def prepareChunkReader_def wrap_err_def getReader_def
        reader_room_def putReader_def)
qed

section \<open>One chunk from end to end\<close>

text \<open>A chunk stream with something to send, and the message it is sending.\<close>

definition sending :: "u32 \<Rightarrow> ChunkStreamWriter \<Rightarrow> ChunkStreamReader \<Rightarrow> bool" where
  "sending sid w rd \<longleftrightarrow> buf w \<noteq> [] \<and> (loaded sid w \<and> between sid w rd \<or> header_known sid w rd)"

definition payload_of :: "ChunkStreamWriter \<Rightarrow> ChunkStreamReader \<Rightarrow> byte list" where
  "payload_of w rd = (if newChunk w then buf w else buf rd @ buf w)"

text \<open>What does not change while the chunks of one message are sent.\<close>

definition same_message :: "ChunkStreamWriter \<Rightarrow> ChunkStreamWriter \<Rightarrow> bool" where
  "same_message w w' \<longleftrightarrow>
     timestamp w' = timestamp w \<and> messageTypeID w' = messageTypeID w \<and>
     messageStreamID w' = messageStreamID w \<and> messageLength w' = messageLength w \<and>
     chunkStreamID (basicHeader w') = chunkStreamID (basicHeader w) \<and>
     doneClosed w' = doneClosed w \<and> closeClosed w' = closeClosed w \<and> lastErr w' = lastErr w"

lemma update_same_message: "same_message w (updateWriterHeader w)"
  by (simp add: same_message_def updateWriterHeader_def Let_def)

text \<open>The header of the next chunk, whatever its place in the message.\<close>

lemma chunk_header:
  assumes "sending sid w rd"
  obtains rd' where "applyHeader (basicHeader (updateWriterHeader w))
      (wireHeader (fmt (basicHeader (updateWriterHeader w))) (messageHeader (updateWriterHeader w))
        zeroMessageHeader) rd = Ok rd'"
    "header_known sid (updateWriterHeader w) rd'" "buf rd' @ buf w = payload_of w rd"
    "basicHeader rd' = basicHeader (updateWriterHeader w)"
    "fmt (basicHeader (updateWriterHeader w)) \<le> 3" "buf (updateWriterHeader w) = buf w"
proof -
  have keep: "basicHeader rd' = bh" if "applyHeader bh mh rd = Ok rd'" for bh mh rd'
    using that by (auto simp: applyHeader_def Let_def split: if_splits)
  from assms consider "loaded sid w" "between sid w rd" | "header_known sid w rd"
    by (auto simp: sending_def)
  then show ?thesis
  proof cases
    case 1
    from first_chunk_header [OF 1] obtain rd' where rd': "applyHeader (basicHeader (updateWriterHeader w))
        (wireHeader (fmt (basicHeader (updateWriterHeader w))) (messageHeader (updateWriterHeader w))
          zeroMessageHeader) rd = Ok rd'" "header_known sid (updateWriterHeader w) rd'" "buf rd' = []" by blast
    show ?thesis
      by (rule that [OF rd'(1,2)])
        (use 1 rd' update_fmt [of sid w rd] keep in \<open>auto simp: payload_of_def loaded_def\<close>)
  next
    case 2
    from later_chunk_header [OF 2] obtain rd' where rd': "applyHeader (basicHeader (updateWriterHeader w))
        (wireHeader (fmt (basicHeader (updateWriterHeader w))) (messageHeader (updateWriterHeader w))
          zeroMessageHeader) rd = Ok rd'" "header_known sid (updateWriterHeader w) rd'" "buf rd' = buf rd" by blast
    show ?thesis
      by (rule that [OF rd'(1,2)])
        (use 2 rd' update_fmt [of sid w rd] keep in \<open>auto simp: payload_of_def header_known_def\<close>)
  qed
qed

text \<open>After a chunk both ends agree again, in the middle of the message or after it.\<close>

lemma after_chunk:
  assumes "header_known sid w rd" "buf w \<noteq> []" "n = chunkLen (length (buf w)) sz" "sz \<noteq> 0"
    and "rd' = (if n < length (buf w) then rd\<lparr>buf := buf rd @ take n (buf w)\<rparr>
         else rd\<lparr>buf := buf rd @ buf w, timestamp := timestamp w, completed := True\<rparr>)"
    and "w' = w\<lparr>buf := drop n (buf w)\<rparr>"
  shows "if drop n (buf w) = [] then between sid w' rd' \<and> completed rd' \<and> buf rd' = buf rd @ buf w \<and>
      timestamp rd' = timestamp w \<and> messageTypeID rd' = messageTypeID w \<and> messageStreamID rd' = sid \<and>
      buf w' = [] \<and> \<not> newChunk w'
    else sending sid w' rd' \<and> \<not> newChunk w' \<and> \<not> completed rd' \<and> payload_of w' rd' = buf rd @ buf w"
proof (cases "n < length (buf w)")
  case True
  moreover have "length (take n (buf w)) + length (drop n (buf w)) = length (buf w)" by simp
  ultimately show ?thesis
    using assms by (auto simp: header_known_def hdr_synced_def sending_def payload_of_def)
next
  case False
  then show ?thesis
    using assms by (auto simp: header_known_def hdr_synced_def between_def)
qed

lemma chunk_delivered:
  assumes "room (cs_w s) = None" "w = getWriter csid s" "rd = getReader csid i"
    and "chunkStreamID (basicHeader w) = csid" "2 \<le> csid" "csid < 320" "sending sid w rd"
    and "chunkSize (peerState i) = chunkSize (selfState s)" "chunkSize (selfState s) \<noteq> 0"
    and "reader_room csid i"
  obtains d w' v bytes where
    "writeChunk csid s = (Ok d, putWriter csid w' (s\<lparr>cs_w := v\<rparr>))"
    "sent v = sent (cs_w s) @ bytes" "room v = None" "same_message w w'" "\<not> newChunk w'"
    "\<And>rest. csr_pending (cs_r i) = bytes @ rest \<Longrightarrow> \<exists>i' rd'.
       readChunk i = (Ok csid, i') \<and> csr_pending (cs_r i') = rest \<and>
       cs_readers i' = set_key csid rd' (cs_readers i) \<and> peerState i' = peerState i \<and>
       in_cfg i' = in_cfg i \<and> basicHeader rd' = basicHeader w' \<and>
       (if d then between sid w' rd' \<and> completed rd' \<and> buf rd' = payload_of w rd \<and>
          timestamp rd' = timestamp w \<and> messageTypeID rd' = messageTypeID w \<and>
          messageStreamID rd' = sid \<and> buf w' = []
        else sending sid w' rd' \<and> \<not> completed rd' \<and> payload_of w' rd' = payload_of w rd)"
proof -
  obtain w1 where w1: "w1 = updateWriterHeader w" by simp
  from chunk_header [OF assms(7)] obtain rd1 where rd1:
    "applyHeader (basicHeader w1) (wireHeader (fmt (basicHeader w1)) (messageHeader w1) zeroMessageHeader) rd = Ok rd1"
    "header_known sid w1 rd1" "buf rd1 @ buf w = payload_of w rd" "basicHeader rd1 = basicHeader w1"
    "fmt (basicHeader w1) \<le> 3" "buf w1 = buf w" unfolding w1 by blast
  have same: "same_message w w1" using update_same_message w1 by simp
  then have csid: "chunkStreamID (basicHeader w1) = csid" using assms(4) by (simp add: same_message_def)
  then obtain hb where hb: "basicHeaderBytes (basicHeader w1) = Ok hb"
    using basicHeaderBytes_range [of "basicHeader w1"] assms(5,6) by auto
  obtain mb where mb: "messageHeaderBytes (fmt (basicHeader w1)) (messageHeader w1) = Ok mb"
    using messageHeaderBytes_total [OF rd1(5)] by blast
  define n where "n = chunkLen (length (buf w1)) (chunkSize (selfState s))"
  define w' where "w' = w1\<lparr>buf := drop n (buf w1)\<rparr>"
  define v where "v = (cs_w s)\<lparr>sent := sent (cs_w s) @ hb @ mb @ take n (buf w1)\<rparr>"
  have ne: "buf w1 \<noteq> []" using assms(7) rd1(6) by (simp add: sending_def)
  note after = after_chunk [OF rd1(2) ne n_def assms(9) refl w'_def]
  show ?thesis
  proof (rule that)
    show "writeChunk csid s = (Ok (drop n (buf w1) = []), putWriter csid w' (s\<lparr>cs_w := v\<rparr>))"
      using writeChunk_open [OF assms(1) _ hb mb n_def] w1 assms(2) by (simp add: w'_def v_def)
    show "sent v = sent (cs_w s) @ (hb @ mb @ take n (buf w1))" "room v = None"
      using assms(1) by (simp_all add: v_def)
    show "same_message w w'" using same by (simp add: same_message_def w'_def)
    show "\<not> newChunk w'" using after by (simp split: if_splits)
    fix rest assume pend: "csr_pending (cs_r i) = (hb @ mb @ take n (buf w1)) @ rest"
    define rd' where "rd' = (if n < length (buf w1) then rd1\<lparr>buf := buf rd1 @ take n (buf w1)\<rparr>
      else rd1\<lparr>buf := buf rd1 @ buf w1, timestamp := timestamp w1, completed := True\<rparr>)"
    obtain i1 where i1: "readChunk i = readPayload csid rd1 i1" "csr_pending (cs_r i1) = take n (buf w1) @ rest"
      "peerState i1 = peerState i" "in_cfg i1 = in_cfg i"
      "\<And>x. cs_readers (putReader csid x i1) = set_key csid x (cs_readers i)"
      using readChunk_headers [OF hb mb rd1(5), of i rd1 "take n (buf w1) @ rest"] csid assms(3,6,10)
        rd1(1) pend by auto
    have "chunkSize (peerState i1) = chunkSize (selfState s)" using i1(3) assms(8) by simp
    from readPayload_chunk [OF rd1(2) ne this assms(9) i1(2) n_def, of csid] obtain r' where
      r': "csr_pending r' = rest"
      "readPayload csid rd1 i1 = (Ok csid, putReader csid rd' (i1\<lparr>cs_r := r'\<rparr>))"
      unfolding rd'_def by blast
    have readers: "cs_readers (putReader csid rd' (i1\<lparr>cs_r := r'\<rparr>)) = set_key csid rd' (cs_readers i)"
      using i1(5) [of rd'] by (simp add: putReader_def)
    have "basicHeader rd' = basicHeader w'" using rd1(4) by (simp add: rd'_def w'_def)
    moreover have "timestamp w1 = timestamp w" "messageTypeID w1 = messageTypeID w"
      using same by (simp_all add: same_message_def)
    ultimately show "\<exists>i' rd'. readChunk i = (Ok csid, i') \<and> csr_pending (cs_r i') = rest \<and>
       cs_readers i' = set_key csid rd' (cs_readers i) \<and> peerState i' = peerState i \<and>
       in_cfg i' = in_cfg i \<and> basicHeader rd' = basicHeader w' \<and>
       (if drop n (buf w1) = [] then between sid w' rd' \<and> completed rd' \<and> buf rd' = payload_of w rd \<and>
          timestamp rd' = timestamp w \<and> messageTypeID rd' = messageTypeID w \<and>
          messageStreamID rd' = sid \<and> buf w' = []
        else sending sid w' rd' \<and> \<not> completed rd' \<and> payload_of w' rd' = payload_of w rd)"
      using after [folded rd'_def] r' i1(1,3,4) readers rd1(3,6)
      by (intro exI [of _ "putReader csid rd' (i1\<lparr>cs_r := r'\<rparr>)"] exI [of _ rd']) simp
  qed
qed

end
