(* ===== verification/ChunkDelivery.thy ===== *)
theory ChunkDelivery
  imports ChunkSync "HOL-Library.Multiset"
begin

text \<open>
  The streamer from end to end. A run is a list of the events of the writing goroutines; the other
  end reads the bytes the run sent with \<open>Read\<close>. The invariant relates both ends for every chunk
  stream at once, with the message each one is sending, and the scheduler's queue with the set of
  chunk streams that are sending. The main lemma: on every chunk stream the messages read are the
  messages written, in order, short of the one that is still being sent.
\<close>

section \<open>Runs\<close>

inductive out_run :: "amf0_lib \<Rightarrow> chunk_out \<Rightarrow> out_event list \<Rightarrow> chunk_out \<Rightarrow> bool" for lib where
  run_nil: "out_run lib s [] s"
| run_cons: "out_step lib s e s1 \<Longrightarrow> out_run lib s1 es s2 \<Longrightarrow> out_run lib s (e # es) s2"

inductive_cases out_run_nilE: "out_run lib s [] s'"
inductive_cases out_run_consE: "out_run lib s (e # es) s'"

text \<open>The messages that a run wrote, and the ones on one chunk stream.\<close>

fun written :: "out_event list \<Rightarrow> (int \<times> u32 \<times> ChunkMessage) list" where
  "written [] = []"
| "written (EvWrite csid ts cmsg # es) = (csid, ts, cmsg) # written es"
| "written (_ # es) = written es"

definition on :: "int \<Rightarrow> (int \<times> u32 \<times> ChunkMessage) list \<Rightarrow> (int \<times> u32 \<times> ChunkMessage) list" where
  "on csid ms = filter (\<lambda>x. fst x = csid) ms"

lemma on_simps [simp]:
  "on c [] = []" "on c (x # xs) = (if fst x = c then x # on c xs else on c xs)"
  by (simp_all add: on_def)

text \<open>Several calls of \<open>Read\<close> in a row.\<close>

fun Reads ::
  "amf0_lib \<Rightarrow> (u32 \<Rightarrow> 'w \<Rightarrow> unit outcome \<times> 'w) \<Rightarrow> nat \<Rightarrow> chunk_in \<times> 'w
     \<Rightarrow> (int \<times> u32 \<times> ChunkMessage) list outcome \<times> (chunk_in \<times> 'w)" where
  "Reads lib sendAck 0 sw = (Ok [], sw)"
| "Reads lib sendAck (Suc n) sw =
     andthen (Read lib sendAck sw) (\<lambda>x sw.
     andthen (Reads lib sendAck n sw) (\<lambda>xs sw. (Ok (x # xs), sw)))"

text \<open>
  What a caller of \<open>Write\<close> is asked to keep: \<open>sid_of\<close> is the one message stream that each chunk stream
  carries, the chunk stream id has one or two bytes, the payload has at least one byte and less
  than \<open>2 ^ 24\<close>, and the timestamp is not the largest one.
\<close>

definition ok_write :: "amf0_lib \<Rightarrow> (int \<Rightarrow> u32) \<Rightarrow> int \<Rightarrow> u32 \<Rightarrow> ChunkMessage \<Rightarrow> bool" where
  "ok_write lib sid_of csid ts cmsg \<longleftrightarrow>
     2 \<le> csid \<and> csid < 320 \<and> ts \<noteq> 0xffffffff \<and> StreamID cmsg = sid_of csid \<and>
     wf_message (Message cmsg) \<and> snd (Encode lib (Message cmsg) []) \<noteq> [] \<and>
     length (snd (Encode lib (Message cmsg) [])) < 2 ^ 24"

fun ok_event :: "amf0_lib \<Rightarrow> (int \<Rightarrow> u32) \<Rightarrow> out_event \<Rightarrow> bool" where
  "ok_event lib sid_of (EvWrite csid ts cmsg) = ok_write lib sid_of csid ts cmsg"
| "ok_event lib sid_of (EvWriteFail csid ts cmsg) = ok_write lib sid_of csid ts cmsg"
| "ok_event lib sid_of _ = True"

section \<open>The invariant\<close>

text \<open>\<open>pend csid\<close> is the message that the chunk stream is sending.\<close>

type_synonym in_flight = "int \<Rightarrow> (u32 \<times> ChunkMessage) option"

definition in_flight_list :: "in_flight \<Rightarrow> int \<Rightarrow> (int \<times> u32 \<times> ChunkMessage) list" where
  "in_flight_list pend c = (case pend c of None \<Rightarrow> [] | Some (ts, m) \<Rightarrow> [(c, ts, m)])"

definition stream_ok ::
  "amf0_lib \<Rightarrow> u32 \<Rightarrow> int \<Rightarrow> ChunkStreamWriter \<Rightarrow> ChunkStreamReader \<Rightarrow> (u32 \<times> ChunkMessage) option \<Rightarrow> bool"
where
  "stream_ok lib sid c w rd p \<longleftrightarrow>
     \<not> closeClosed w \<and> lastErr w = None \<and> chunkStreamID (basicHeader w) = c \<and>
     (case p of
        None \<Rightarrow> doneClosed w \<and> buf w = [] \<and> between sid w rd
      | Some (ts, m) \<Rightarrow>
          \<not> doneClosed w \<and> sending sid w rd \<and> 2 \<le> c \<and> c < 320 \<and> timestamp w = ts \<and>
          StreamID m = sid \<and> fst (Decode lib (messageTypeID w) (payload_of w rd)) = Ok (Message m))"

definition busy :: "chunk_out \<Rightarrow> int list" where
  "busy s = sched_writers s @ (case sched_holding s of None \<Rightarrow> [] | Some c \<Rightarrow> [c]) @ sched_blocked s"

definition sched_ok :: "chunk_out \<Rightarrow> in_flight \<Rightarrow> bool" where
  "sched_ok s pend \<longleftrightarrow> distinct (busy s) \<and> set (busy s) = {c. pend c \<noteq> None} \<and>
     length (sched_writers s) \<le> maxWriterQueueSize"

definition tables_ok :: "chunk_out \<Rightarrow> chunk_in \<Rightarrow> bool" where
  "tables_ok s i \<longleftrightarrow>
     distinct (map fst (cs_writers s)) \<and> distinct (map fst (cs_readers i)) \<and>
     fst ` set (cs_readers i) \<subseteq> fst ` set (cs_writers s) \<and> set (busy s) \<subseteq> fst ` set (cs_writers s) \<and>
     int (length (cs_writers s)) \<le> cfgMaxChunkStreams (out_cfg s) \<and>
     cfgMaxChunkStreams (out_cfg s) \<le> cfgMaxChunkStreams (in_cfg i)"

definition delivery_inv ::
  "amf0_lib \<Rightarrow> (int \<Rightarrow> u32) \<Rightarrow> chunk_out \<Rightarrow> chunk_in \<Rightarrow> in_flight \<Rightarrow> bool" where
  "delivery_inv lib sid_of s i pend \<longleftrightarrow>
     room (cs_w s) = None \<and>
     chunkSize (peerState i) = chunkSize (selfState s) \<and> chunkSize (selfState s) \<noteq> 0 \<and>
     (\<forall>c. stream_ok lib (sid_of c) c (getWriter c s) (getReader c i) (pend c)) \<and>
     sched_ok s pend \<and> tables_ok s i"

section \<open>Write\<close>

lemma set_key_same: "map_of t k = Some v \<Longrightarrow> set_key k v t = t"
  by (induction t) (auto split: if_splits)

text \<open>A chunk stream has a writer, or room in the table for a new one.\<close>

lemma prepareChunkWriter_cases:
  obtains (full) e where "prepareChunkWriter csid s = (Err e, s)"
  | (found) "prepareChunkWriter csid s = (Ok (getWriter csid s), putWriter csid (getWriter csid s) s)"
      "map_of (cs_writers s) csid = None \<Longrightarrow> int (length (cs_writers s)) < cfgMaxChunkStreams (out_cfg s)"
proof (cases "map_of (cs_writers s) csid")
  case None
  show ?thesis
  proof (cases "int (length (cs_writers s)) < cfgMaxChunkStreams (out_cfg s)")
    case True
    with None show ?thesis by (intro found) (simp_all add: prepareChunkWriter_def getWriter_def)
  next
    case False
    with None show ?thesis by (intro full) (simp add: prepareChunkWriter_def)
  qed
next
  case (Some w)
  then show ?thesis
    by (intro found) (simp_all add: prepareChunkWriter_def getWriter_def putWriter_def set_key_same)
qed

text \<open>A \<open>Write\<close> that returns has found its chunk stream idle, loaded it and queued it.\<close>

lemma NewChunkWriter_cases:
  assumes "wc \<in> set (Wait_ready (getWriter csid s) ctx)" "\<not> closeClosed (getWriter csid s)"
    "lastErr (getWriter csid s) = None"
  obtains (failed) e where "NewChunkWriter csid wc s = (Err e, s)"
  | (timeout) e where "NewChunkWriter csid wc s = (Err e, putWriter csid (getWriter csid s) s)"
      "map_of (cs_writers s) csid = None \<Longrightarrow> int (length (cs_writers s)) < cfgMaxChunkStreams (out_cfg s)"
  | (acquired) "NewChunkWriter csid wc s = (Ok (), putWriter csid ((getWriter csid s)\<lparr>doneClosed := False\<rparr>) s)"
      "doneClosed (getWriter csid s)"
      "map_of (cs_writers s) csid = None \<Longrightarrow> int (length (cs_writers s)) < cfgMaxChunkStreams (out_cfg s)"
proof (cases rule: prepareChunkWriter_cases [of csid s])
  case (full e)
  then show ?thesis by (intro failed) (simp add: NewChunkWriter_def wrap_err_def)
next
  case found
  note new = NewChunkWriter_def wrap_err_def found(1)
  have "(\<exists>e. wc = WaitCtx e) \<or> wc = WaitDone \<and> doneClosed (getWriter csid s)"
    using assms(1,2) by (auto simp: Wait_ready_def split: if_splits option.splits)
  then show ?thesis
  proof (elim disjE exE conjE)
    fix e assume "wc = WaitCtx e"
    then show ?thesis using found(2) by (intro timeout) (simp_all add: new)
  next
    assume "wc = WaitDone" "doneClosed (getWriter csid s)"
    then show ?thesis using found(2) assms(3) by (intro acquired) (simp_all add: new)
  qed
qed

text \<open>The writer after a \<open>Write\<close> of an encodable message.\<close>

definition load :: "u32 \<Rightarrow> ChunkMessage \<Rightarrow> byte \<Rightarrow> byte list \<Rightarrow> ChunkStreamWriter \<Rightarrow> ChunkStreamWriter" where
  "load ts cmsg tid bs w =
     w\<lparr>doneClosed := False, buf := bs, timestamp := ts, messageLength := of_nat (length bs),
       messageTypeID := tid, messageStreamID := StreamID cmsg, newChunk := True\<rparr>"

lemma Write_cases:
  assumes "wc \<in> set (Wait_ready (getWriter csid s) ctx)" "\<not> closeClosed (getWriter csid s)"
    "lastErr (getWriter csid s) = None" "TypeID (Message cmsg) = Ok tid"
    "doneClosed (getWriter csid s) \<Longrightarrow> Encode lib (Message cmsg) (buf (getWriter csid s)) = (Ok (), bs)"
  obtains (failed) e where "Write lib csid ts cmsg wc s = (Err e, s)"
  | (timeout) e where "Write lib csid ts cmsg wc s = (Err e, putWriter csid (getWriter csid s) s)"
      "map_of (cs_writers s) csid = None \<Longrightarrow> int (length (cs_writers s)) < cfgMaxChunkStreams (out_cfg s)"
  | (wrote) "Write lib csid ts cmsg wc s = (Ok (), putWriter csid (load ts cmsg tid bs (getWriter csid s))
        (s\<lparr>msgEnc := Some csid, sched_blocked := sched_blocked s @ [csid]\<rparr>))"
      "doneClosed (getWriter csid s)"
      "map_of (cs_writers s) csid = None \<Longrightarrow> int (length (cs_writers s)) < cfgMaxChunkStreams (out_cfg s)"
proof (cases rule: NewChunkWriter_cases [OF assms(1,2,3)])
  case (3)
  from assms(5) [OF 3(2)] 3 show ?thesis
    by (intro wrote) (simp_all add: Write_def Write_reset_def Write_encode_def Write_header_def Sched_def
        Let_def assms(4) load_def putWriter_def getWriter_def)
qed (auto simp: Write_def Write_reset_def intro: that)

section \<open>The invariant under the steps\<close>

text \<open>Putting the writer of one chunk stream changes that stream only.\<close>

lemma inv_putWriter:
  assumes "delivery_inv lib sid_of s i pend" "stream_ok lib (sid_of c) c w (getReader c i) p"
    and "pend' = pend(c := p)" "cs_writers s' = cs_writers s" "selfState s' = selfState s"
    and "room (cs_w s') = None" "out_cfg s' = out_cfg s"
    and "sched_ok s' pend'" "set (busy s') \<subseteq> insert c (set (busy s))"
    and "map_of (cs_writers s) c = None \<Longrightarrow> int (length (cs_writers s)) < cfgMaxChunkStreams (out_cfg s)"
  shows "delivery_inv lib sid_of (putWriter c w s') i pend'"
proof -
  have g: "getWriter a s' = getWriter a s" for a using assms(4) by (simp add: getWriter_def)
  have b: "busy (putWriter c w s') = busy s'" by (simp add: busy_def)
  have "tables_ok (putWriter c w s') i"
    using assms(1,4,7,9,10) unfolding tables_ok_def b delivery_inv_def
    by (auto simp: putWriter_def fst_set_key length_set_key intro!: distinct_set_key)
  moreover have "sched_ok (putWriter c w s') pend'" using assms(8) by (simp add: sched_ok_def b)
  ultimately show ?thesis
    using assms(1-6) by (auto simp: delivery_inv_def g)
qed

lemma busy_simps [simp]:
  "busy (putWriter c w s) = busy s" "busy (s\<lparr>cs_w := v\<rparr>) = busy s" "busy (s\<lparr>msgEnc := e\<rparr>) = busy s"
  by (simp_all add: busy_def)

lemma encode_facts:
  assumes "ok_write lib sid_of c ts cmsg" "amf_string_law lib" "amf_int64_law lib"
  obtains tid bs where "TypeID (Message cmsg) = Ok tid" "Encode lib (Message cmsg) [] = (Ok (), bs)"
    "fst (Decode lib tid bs) = Ok (Message cmsg)" "bs \<noteq> []" "length bs < 2 ^ 24"
  using message_roundtrip [of "Message cmsg" lib "[]"] assms by (auto simp: ok_write_def)

lemma load_ok:
  assumes "stream_ok lib sid c w rd None" "ok_write lib sid_of c ts cmsg" "sid = sid_of c"
    and "fst (Decode lib tid bs) = Ok (Message cmsg)" "bs \<noteq> []" "length bs < 2 ^ 24"
  shows "stream_ok lib sid c (load ts cmsg tid bs w) rd (Some (ts, cmsg))"
  using assms
  by (auto simp: stream_ok_def load_def sending_def loaded_def payload_of_def ok_write_def between_def
      hdr_fresh_def hdr_synced_def)

lemma inv_write:
  assumes "delivery_inv lib sid_of s i pend" "amf_string_law lib" "amf_int64_law lib"
    and "wc \<in> set (Wait_ready (getWriter c s) ctx)" "ok_write lib sid_of c ts cmsg"
    and "Write lib c ts cmsg wc s = (res, s')"
  shows "sent (cs_w s') = sent (cs_w s) \<and>
    (res = Ok () \<longrightarrow> pend c = None \<and> delivery_inv lib sid_of s' i (pend(c \<mapsto> (ts, cmsg)))) \<and>
    (res \<noteq> Ok () \<longrightarrow> delivery_inv lib sid_of s' i pend)"
proof -
  from assms(1) have so: "stream_ok lib (sid_of c) c (getWriter c s) (getReader c i) (pend c)"
    and sc: "sched_ok s pend" and ro: "room (cs_w s) = None"
    by (simp_all add: delivery_inv_def)
  from encode_facts [OF assms(5,2,3)] obtain tid bs where enc: "TypeID (Message cmsg) = Ok tid"
    "Encode lib (Message cmsg) [] = (Ok (), bs)"
    "fst (Decode lib tid bs) = Ok (Message cmsg)" "bs \<noteq> []" "length bs < 2 ^ 24" .
  have idle: "pend c = None" if "doneClosed (getWriter c s)"
    using so that by (auto simp: stream_ok_def split: option.splits)
  have w: "\<not> closeClosed (getWriter c s)" "lastErr (getWriter c s) = None"
    using so by (auto simp: stream_ok_def)
  have e: "Encode lib (Message cmsg) (buf (getWriter c s)) = (Ok (), bs)" if "doneClosed (getWriter c s)"
    using idle [OF that] so enc(2) by (simp add: stream_ok_def)
  show ?thesis
  proof (cases rule: Write_cases [OF assms(4) w enc(1) e, where ts = ts])
    case (3 x)
    then show ?thesis
      using inv_putWriter [OF assms(1) so, of "pend" s] sc ro assms(6) by auto
  next
    case 4
    then have n: "pend c = None" using idle by simp
    have queued: "busy (s\<lparr>msgEnc := Some c, sched_blocked := sched_blocked s @ [c]\<rparr>) = busy s @ [c]"
      by (simp add: busy_def)
    from n have "sched_ok (s\<lparr>msgEnc := Some c, sched_blocked := sched_blocked s @ [c]\<rparr>) (pend(c \<mapsto> (ts, cmsg)))"
      using sc queued by (auto simp: sched_ok_def)
    moreover have "stream_ok lib (sid_of c) c (load ts cmsg tid bs (getWriter c s)) (getReader c i) (Some (ts, cmsg))"
      using load_ok [OF _ assms(5) refl enc(3,4,5)] so n by simp
    ultimately show ?thesis
      using inv_putWriter [OF assms(1), of c _ "Some (ts, cmsg)", OF _ refl,
          of "load ts cmsg tid bs (getWriter c s)" "s\<lparr>msgEnc := Some c, sched_blocked := sched_blocked s @ [c]\<rparr>"]
        4 ro assms(6) n queued by auto
  qed (use assms(1,6) in auto)
qed

text \<open>The scheduler's own moves of a writer.\<close>

lemma inv_queue:
  assumes "delivery_inv lib sid_of s i pend" "mset (busy s') = mset (busy s)"
    and "length (sched_writers s') \<le> maxWriterQueueSize"
    and "cs_w s' = cs_w s" "cs_writers s' = cs_writers s" "selfState s' = selfState s" "out_cfg s' = out_cfg s"
  shows "delivery_inv lib sid_of s' i pend"
proof -
  have "set (busy s') = set (busy s)" "distinct (busy s') = distinct (busy s)"
    using assms(2) by (metis mset_eq_setD, metis mset_eq_imp_distinct_iff)
  then show ?thesis
    using assms by (auto simp: delivery_inv_def sched_ok_def tables_ok_def getWriter_def)
qed

text \<open>The invariant looks at a reader's table, its peer's chunk size and its limits, nothing else.\<close>

lemma inv_reader_cong:
  assumes "delivery_inv lib sid_of s i pend" "cs_readers i' = cs_readers i"
    "peerState i' = peerState i" "in_cfg i' = in_cfg i"
  shows "delivery_inv lib sid_of s i' pend"
  using assms by (simp add: delivery_inv_def getReader_def tables_ok_def)

lemma inv_putReader:
  assumes "delivery_inv lib sid_of s i pend" "stream_ok lib (sid_of c) c w rd p" "pend' = pend(c := p)"
    and "cs_writers s' = set_key c w (cs_writers s)" "map_of (cs_writers s) c \<noteq> None"
    and "selfState s' = selfState s" "room (cs_w s') = None" "out_cfg s' = out_cfg s"
    and "sched_ok s' pend'" "set (busy s') \<subseteq> set (busy s)"
    and "cs_readers i' = set_key c rd (cs_readers i)" "peerState i' = peerState i" "in_cfg i' = in_cfg i"
  shows "delivery_inv lib sid_of s' i' pend'"
proof -
  have g: "getWriter a s' = (if a = c then w else getWriter a s)"
    "getReader a i' = (if a = c then rd else getReader a i)" for a
    using assms(4,11) by (simp_all add: getWriter_def getReader_def)
  have c: "c \<in> fst ` set (cs_writers s)" using assms(5) by (simp add: map_of_eq_None_iff)
  have l: "length (cs_writers s') = length (cs_writers s)" using assms(4,5) by (simp add: length_set_key)
  have "tables_ok s' i'"
    using assms(1,8,10,13) c l unfolding tables_ok_def delivery_inv_def
    by (auto simp: assms(4,11) fst_set_key intro!: distinct_set_key)
  then show ?thesis
    using assms(1,2,3,6,7,9,12) by (simp add: delivery_inv_def g)
qed

lemma reader_room_inv:
  assumes "tables_ok s i" "c \<in> set (busy s)"
  shows "reader_room c i"
proof (cases "c \<in> fst ` set (cs_readers i)")
  case True
  then show ?thesis by (simp add: reader_room_def map_of_eq_None_iff)
next
  case False
  have "card (fst ` set (cs_readers i)) < card (fst ` set (cs_writers s))"
    using assms False by (intro psubset_card_mono) (auto simp: tables_ok_def)
  moreover have "card (fst ` set (cs_readers i)) = length (cs_readers i)"
    "card (fst ` set (cs_writers s)) = length (cs_writers s)"
    using assms(1) distinct_card [of "map fst (cs_readers i)"] distinct_card [of "map fst (cs_writers s)"]
    by (simp_all add: tables_ok_def)
  ultimately have "length (cs_readers i) < length (cs_writers s)" by simp
  then show ?thesis using assms(1) by (simp add: reader_room_def tables_ok_def)
qed

text \<open>What \<open>Read\<close> finds in a completed reader.\<close>

definition delivers :: "amf0_lib \<Rightarrow> int \<Rightarrow> ChunkStreamReader \<Rightarrow> u32 \<Rightarrow> ChunkMessage \<Rightarrow> bool" where
  "delivers lib c rd ts m \<longleftrightarrow>
     completed rd \<and> timestamp rd = ts \<and> messageStreamID rd = StreamID m \<and>
     chunkStreamID (basicHeader rd) = c \<and> fst (Decode lib (messageTypeID rd) (buf rd)) = Ok (Message m)"

lemma between_any_buf: "between sid w rd \<Longrightarrow> completed rd \<Longrightarrow> between sid w (rd\<lparr>buf := r\<rparr>)"
  by (auto simp: between_def hdr_fresh_def zeroReader_def hdr_synced_def)

lemma inv_chunk:
  assumes "delivery_inv lib sid_of s i pend" "sched_holding s = None" "sched_writers s = c # q"
  defines "s' \<equiv> Run_round c (s\<lparr>sched_writers := q\<rparr>)"
  obtains ts m bytes d where "pend c = Some (ts, m)" "sent (cs_w s') = sent (cs_w s) @ bytes"
    "\<forall>rest. csr_pending (cs_r i) = bytes @ rest \<longrightarrow> (\<exists>i' rd.
       readChunk i = (Ok c, i') \<and> csr_pending (cs_r i') = rest \<and>
       map_of (cs_readers i') c = Some rd \<and> completed rd = d \<and>
       (if d then delivers lib c rd ts m \<and>
          (\<forall>r. delivery_inv lib sid_of s' (putReader c (rd\<lparr>buf := r\<rparr>) i') (pend(c := None)))
        else delivery_inv lib sid_of s' i' pend))"
proof -
  define s0 where "s0 = s\<lparr>sched_writers := q\<rparr>"
  from assms(3) have busy: "c \<in> set (busy s)" by (simp add: busy_def)
  from assms(1) have sc: "sched_ok s pend" and tb: "tables_ok s i"
    and so: "stream_ok lib (sid_of c) c (getWriter c s) (getReader c i) (pend c)"
    and ro: "room (cs_w s) = None" and sz: "chunkSize (peerState i) = chunkSize (selfState s)"
      "chunkSize (selfState s) \<noteq> 0"
    by (simp_all add: delivery_inv_def)
  from sc busy obtain ts m where p: "pend c = Some (ts, m)" by (auto simp: sched_ok_def)
  define w where "w = getWriter c s"
  have w0: "getWriter c s0 = w" by (simp add: s0_def w_def getWriter_def)
  have so': "\<not> closeClosed w" "lastErr w = None" "chunkStreamID (basicHeader w) = c" "\<not> doneClosed w"
    "sending (sid_of c) w (getReader c i)" "2 \<le> c" "c < 320" "timestamp w = ts" "StreamID m = sid_of c"
    "fst (Decode lib (messageTypeID w) (payload_of w (getReader c i))) = Ok (Message m)"
    using so p by (auto simp: stream_ok_def w_def)
  obtain d w' v bytes where
    wr: "writeChunk c s0 = (Ok d, putWriter c w' (s0\<lparr>cs_w := v\<rparr>))"
    "sent v = sent (cs_w s0) @ bytes" "room v = None" "same_message w w'" "\<not> newChunk w'" and
    rd: "\<And>rest. csr_pending (cs_r i) = bytes @ rest \<Longrightarrow> \<exists>i' rd'.
       readChunk i = (Ok c, i') \<and> csr_pending (cs_r i') = rest \<and>
       cs_readers i' = set_key c rd' (cs_readers i) \<and> peerState i' = peerState i \<and>
       in_cfg i' = in_cfg i \<and> basicHeader rd' = basicHeader w' \<and>
       (if d then between (sid_of c) w' rd' \<and> completed rd' \<and> buf rd' = payload_of w (getReader c i) \<and>
          timestamp rd' = timestamp w \<and> messageTypeID rd' = messageTypeID w \<and>
          messageStreamID rd' = sid_of c \<and> buf w' = []
        else sending (sid_of c) w' rd' \<and> \<not> completed rd' \<and>
          payload_of w' rd' = payload_of w (getReader c i))"
  proof -
    have "room (cs_w s0) = None" "chunkSize (peerState i) = chunkSize (selfState s0)"
      "chunkSize (selfState s0) \<noteq> 0" using ro sz by (simp_all add: s0_def)
    from chunk_delivered [OF this(1) w0 [symmetric] refl so'(3,6,7,5) this(2,3) reader_room_inv [OF tb busy]]
    show ?thesis using that by blast
  qed
  have s': "s' = (if d then putWriter c (w'\<lparr>doneClosed := True\<rparr>) (s0\<lparr>cs_w := v\<rparr>)
      else (putWriter c w' (s0\<lparr>cs_w := v\<rparr>))\<lparr>sched_holding := Some c\<rparr>)"
    unfolding s'_def s0_def [symmetric] Run_round_def wr(1) by simp
  show ?thesis
  proof (rule that [OF p], safe)
    show "sent (cs_w s') = sent (cs_w s) @ bytes" using wr(2) by (simp add: s' s0_def)
    fix rest assume "csr_pending (cs_r i) = bytes @ rest"
    from rd [OF this] obtain i' rd' where i': "readChunk i = (Ok c, i')" "csr_pending (cs_r i') = rest"
      "cs_readers i' = set_key c rd' (cs_readers i)" "peerState i' = peerState i" "in_cfg i' = in_cfg i"
      "basicHeader rd' = basicHeader w'" and
      r: "if d then between (sid_of c) w' rd' \<and> completed rd' \<and> buf rd' = payload_of w (getReader c i) \<and>
          timestamp rd' = timestamp w \<and> messageTypeID rd' = messageTypeID w \<and>
          messageStreamID rd' = sid_of c \<and> buf w' = []
        else sending (sid_of c) w' rd' \<and> \<not> completed rd' \<and>
          payload_of w' rd' = payload_of w (getReader c i)" by blast
    have key: "map_of (cs_writers s) c \<noteq> None"
      using tb busy by (auto simp: tables_ok_def map_of_eq_None_iff)
    have bs: "busy s = c # q @ sched_blocked s" using assms(2,3) by (simp add: busy_def)
    have same: "timestamp w' = ts" "messageTypeID w' = messageTypeID w" "chunkStreamID (basicHeader w') = c"
      "doneClosed w' = doneClosed w" "\<not> closeClosed w'" "lastErr w' = None"
      using wr(4) so' by (simp_all add: same_message_def)
    have lq: "length q \<le> maxWriterQueueSize" using sc assms(3) by (simp add: sched_ok_def)
    show "\<exists>i' rd. readChunk i = (Ok c, i') \<and> csr_pending (cs_r i') = rest \<and>
       map_of (cs_readers i') c = Some rd \<and> completed rd = d \<and>
       (if d then delivers lib c rd ts m \<and>
          (\<forall>r. delivery_inv lib sid_of s' (putReader c (rd\<lparr>buf := r\<rparr>) i') (pend(c := None)))
        else delivery_inv lib sid_of s' i' pend)"
    proof (cases d)
      case True
      have "delivery_inv lib sid_of s' (putReader c (rd'\<lparr>buf := x\<rparr>) i') (pend(c := None))" for x
      proof (rule inv_putReader [OF assms(1) _ refl, of c "w'\<lparr>doneClosed := True\<rparr>" "rd'\<lparr>buf := x\<rparr>"])
        show "stream_ok lib (sid_of c) c (w'\<lparr>doneClosed := True\<rparr>) (rd'\<lparr>buf := x\<rparr>) None"
          using r True same between_any_buf [of "sid_of c" w' rd' x]
          by (auto simp: stream_ok_def between_def hdr_fresh_def hdr_synced_def)
        show "sched_ok s' (pend(c := None))"
          using sc bs lq True by (auto simp: s' s0_def sched_ok_def busy_def assms(2))
      qed (use True i' key wr(3) bs in \<open>auto simp: s' s0_def putWriter_def putReader_def busy_def assms(2)\<close>)
      then show ?thesis
        using True r i' so' same by (intro exI [of _ i'] exI [of _ rd']) (simp add: delivers_def)
    next
      case False
      have bs': "busy s' = q @ c # sched_blocked s" using False by (simp add: s' s0_def busy_def)
      have lq': "length (sched_writers s') \<le> maxWriterQueueSize" using False lq by (simp add: s' s0_def)
      have "delivery_inv lib sid_of s' i' (pend(c := Some (ts, m)))"
      proof (rule inv_putReader [OF assms(1) _ refl, of c w' rd'])
        show "stream_ok lib (sid_of c) c w' rd' (Some (ts, m))"
          using r False same so' by (simp add: stream_ok_def)
        show "sched_ok s' (pend(c := Some (ts, m)))"
          using sc bs bs' lq' p by (auto simp: sched_ok_def)
      qed (use False i' key wr(3) bs bs' in \<open>auto simp: s' s0_def putWriter_def\<close>)
      moreover have "pend(c := Some (ts, m)) = pend" using p by auto
      ultimately show ?thesis
        using False r i' by (intro exI [of _ i'] exI [of _ rd']) simp
    qed
  qed
qed

section \<open>Read\<close>

text \<open>An acknowledgement that can be sent changes the counters and nothing else of the reader.\<close>

lemma acknowledge_ok:
  assumes "\<forall>n w. fst (sendAck n w) = Ok ()"
  obtains i' w' where "acknowledge sendAck (i, w) = (Ok (), (i', w'))"
    "cs_readers i' = cs_readers i" "peerState i' = peerState i" "in_cfg i' = in_cfg i"
    "csr_pending (cs_r i') = csr_pending (cs_r i)"
proof (cases "FragmentReadBytes (cs_r i) \<ge> ackThreshold (peerState i)")
  case True
  obtain w' where "sendAck (TotalReadBytes (cs_r i)) w = (Ok (), w')"
    using assms by (metis prod.collapse)
  with True show ?thesis
    by (intro that [of "i\<lparr>cs_r := ResetFragmentReadBytes (cs_r i)\<rparr>" w'])
      (simp_all add: acknowledge_def ResetFragmentReadBytes_def csr_pending_def)
next
  case False
  then show ?thesis by (intro that [of i w]) (simp_all add: acknowledge_def)
qed

lemma Read_partial:
  assumes "\<forall>n w. fst (sendAck n w) = Ok ()" "readChunk i = (Ok c, i1)"
    "map_of (cs_readers i1) c = Some rd" "\<not> completed rd"
  obtains i2 w2 where "Read lib sendAck (i, w) = Read lib sendAck (i2, w2)"
    "cs_readers i2 = cs_readers i1" "peerState i2 = peerState i1" "in_cfg i2 = in_cfg i1"
    "csr_pending (cs_r i2) = csr_pending (cs_r i1)"
proof -
  from acknowledge_ok [OF assms(1), of i1 w] obtain i2 w2 where
    a: "acknowledge sendAck (i1, w) = (Ok (), (i2, w2))" "cs_readers i2 = cs_readers i1"
    "peerState i2 = peerState i1" "in_cfg i2 = in_cfg i1" "csr_pending (cs_r i2) = csr_pending (cs_r i1)" .
  then have "NewChunkReader sendAck (i, w) = NewChunkReader sendAck (i2, w2)"
    using assms(2,3,4) by (simp add: NewChunkReader.simps [of sendAck i w] reader_completed_def)
  then show ?thesis using that [of i2 w2] a by (simp add: Read_def)
qed

lemma Read_complete:
  assumes "\<forall>n w. fst (sendAck n w) = Ok ()" "readChunk i = (Ok c, i1)"
    "map_of (cs_readers i1) c = Some rd" "delivers lib c rd ts m"
  obtains r i2 w2 where "Read lib sendAck (i, w) = (Ok (c, ts, m), (putReader c (rd\<lparr>buf := r\<rparr>) i2, w2))"
    "cs_readers i2 = cs_readers i1" "peerState i2 = peerState i1" "in_cfg i2 = in_cfg i1"
    "csr_pending (cs_r i2) = csr_pending (cs_r i1)"
proof -
  from acknowledge_ok [OF assms(1), of i1 w] obtain i2 w2 where
    a: "acknowledge sendAck (i1, w) = (Ok (), (i2, w2))" "cs_readers i2 = cs_readers i1"
    "peerState i2 = peerState i1" "in_cfg i2 = in_cfg i1" "csr_pending (cs_r i2) = csr_pending (cs_r i1)" .
  have d: "completed rd" "timestamp rd = ts" "messageStreamID rd = StreamID m"
    "chunkStreamID (basicHeader rd) = c"
    using assms(4) by (simp_all add: delivers_def)
  obtain r where dec: "Decode lib (messageTypeID rd) (buf rd) = (Ok (Message m), r)"
    using assms(4) by (metis delivers_def prod.collapse)
  have "NewChunkReader sendAck (i, w) = (Ok c, (i2, w2))"
    using assms(2,3) a d by (simp add: NewChunkReader.simps [of sendAck i w] reader_completed_def)
  then have "Read lib sendAck (i, w) = (Ok (c, ts, m), (putReader c (rd\<lparr>buf := r\<rparr>) i2, w2))"
    using a d dec assms(3) by (simp add: Read_def Let_def)
  then show ?thesis using that a by blast
qed

section \<open>Delivery\<close>

lemma inv_done:
  "delivery_inv lib sid_of s i pend \<Longrightarrow> pend c = None \<longleftrightarrow> doneClosed (getWriter c s)"
proof -
  assume "delivery_inv lib sid_of s i pend"
  then have "stream_ok lib (sid_of c) c (getWriter c s) (getReader c i) (pend c)"
    by (simp add: delivery_inv_def)
  then show ?thesis by (cases "pend c") (auto simp: stream_ok_def)
qed

text \<open>What the other end reads after a step, from what it reads after the rest of the run.\<close>

definition reads_after ::
  "amf0_lib \<Rightarrow> (u32 \<Rightarrow> 'w \<Rightarrow> unit outcome \<times> 'w) \<Rightarrow> byte list \<Rightarrow> chunk_in \<Rightarrow> in_flight \<Rightarrow> out_event list
     \<Rightarrow> chunk_out \<Rightarrow> bool" where
  "reads_after lib sendAck bytes i pend es s' \<longleftrightarrow>
     (\<forall>rest w. csr_pending (cs_r i) = bytes @ rest \<longrightarrow>
       (\<exists>ms sw pend'. Reads lib sendAck (length ms) (i, w) = (Ok ms, sw) \<and>
          (\<forall>c. in_flight_list pend c @ on c (written es) = on c ms @ in_flight_list pend' c) \<and>
          (\<forall>c. pend' c = None \<longleftrightarrow> doneClosed (getWriter c s'))))"

lemma reads_afterE:
  fixes w :: 'w
  assumes "reads_after lib sendAck bytes i pend es s'" "csr_pending (cs_r i) = bytes @ rest"
  obtains ms sw pend' where "Reads lib sendAck (length ms) (i, w) = (Ok ms, sw)"
    "\<forall>c. in_flight_list pend c @ on c (written es) = on c ms @ in_flight_list pend' c"
    "\<forall>c. pend' c = None \<longleftrightarrow> doneClosed (getWriter c s')"
proof -
  from assms(1) have "csr_pending (cs_r i) = bytes @ rest \<longrightarrow>
      (\<exists>ms sw pend'. Reads lib sendAck (length ms) (i, w) = (Ok ms, sw) \<and>
         (\<forall>c. in_flight_list pend c @ on c (written es) = on c ms @ in_flight_list pend' c) \<and>
         (\<forall>c. pend' c = None \<longleftrightarrow> doneClosed (getWriter c s')))"
    unfolding reads_after_def by (elim allE)
  with assms(2) that show ?thesis by (elim impE exE conjE) assumption+
qed

lemma reads_after_chunk:
  fixes sendAck :: "u32 \<Rightarrow> 'w \<Rightarrow> unit outcome \<times> 'w"
  assumes ack: "\<forall>n w. fst (sendAck n w) = Ok ()" and p: "pend c = Some (ts, m)"
    and chunk: "\<And>rest. csr_pending (cs_r i) = b1 @ rest \<Longrightarrow> \<exists>i' rd.
       readChunk i = (Ok c, i') \<and> csr_pending (cs_r i') = rest \<and>
       map_of (cs_readers i') c = Some rd \<and> completed rd = d \<and>
       (if d then delivers lib c rd ts m \<and>
          (\<forall>r. delivery_inv lib sid_of s1 (putReader c (rd\<lparr>buf := r\<rparr>) i') (pend(c := None)))
        else delivery_inv lib sid_of s1 i' pend)"
    and IH: "\<And>i pend. delivery_inv lib sid_of s1 i pend \<Longrightarrow> reads_after lib sendAck b2 i pend es s'"
  shows "reads_after lib sendAck (b1 @ b2) i pend (EvChunk c # es) s'"
  unfolding reads_after_def
proof (intro allI impI)
  fix rest and w :: 'w
  assume "csr_pending (cs_r i) = (b1 @ b2) @ rest"
  then obtain i' rd where i': "readChunk i = (Ok c, i')" "csr_pending (cs_r i') = b2 @ rest"
    "map_of (cs_readers i') c = Some rd" "completed rd = d" and
    r: "if d then delivers lib c rd ts m \<and>
          (\<forall>r. delivery_inv lib sid_of s1 (putReader c (rd\<lparr>buf := r\<rparr>) i') (pend(c := None)))
        else delivery_inv lib sid_of s1 i' pend"
    using chunk [of "b2 @ rest"] by auto
  show "\<exists>ms sw pend'. Reads lib sendAck (length ms) (i, w) = (Ok ms, sw) \<and>
      (\<forall>c'. in_flight_list pend c' @ on c' (written (EvChunk c # es)) = on c' ms @ in_flight_list pend' c') \<and>
      (\<forall>c. pend' c = None \<longleftrightarrow> doneClosed (getWriter c s'))"
  proof (cases d)
    case True
    with r have dl: "delivers lib c rd ts m" by simp
    obtain x i2 w2 where
      rd: "Read lib sendAck (i, w) = (Ok (c, ts, m), (putReader c (rd\<lparr>buf := x\<rparr>) i2, w2))"
      "cs_readers i2 = cs_readers i'" "peerState i2 = peerState i'" "in_cfg i2 = in_cfg i'"
      "csr_pending (cs_r i2) = csr_pending (cs_r i')"
      by (rule Read_complete [OF ack i'(1,3) dl, of w])
    have inv: "delivery_inv lib sid_of s1 (putReader c (rd\<lparr>buf := x\<rparr>) i2) (pend(c := None))"
    proof -
      have "delivery_inv lib sid_of s1 (putReader c (rd\<lparr>buf := x\<rparr>) i') (pend(c := None))"
        using r True by (simp only: if_True)
      then show ?thesis
        by (rule inv_reader_cong) (simp_all only: putReader_sel rd(2-4), simp add: putReader_def rd(2))
    qed
    have "csr_pending (cs_r (putReader c (rd\<lparr>buf := x\<rparr>) i2)) = b2 @ rest" using rd(5) i'(2) by simp
    from reads_afterE [OF IH [OF inv] this] obtain ms sw pend' where ms:
      "Reads lib sendAck (length ms) (putReader c (rd\<lparr>buf := x\<rparr>) i2, w2) = (Ok ms, sw)"
      "\<forall>c'. in_flight_list (pend(c := None)) c' @ on c' (written es) = on c' ms @ in_flight_list pend' c'"
      "\<forall>c. pend' c = None \<longleftrightarrow> doneClosed (getWriter c s')"
      .
    show ?thesis
    proof (intro exI conjI)
      show "Reads lib sendAck (length ((c, ts, m) # ms)) (i, w) = (Ok ((c, ts, m) # ms), sw)"
        using rd(1) ms(1) by simp
      show "\<forall>c'. in_flight_list pend c' @ on c' (written (EvChunk c # es)) =
          on c' ((c, ts, m) # ms) @ in_flight_list pend' c'"
        using ms(2) p by (auto simp: in_flight_list_def split: if_splits)
    qed (rule ms(3))
  next
    case False
    with i'(4) have nc: "\<not> completed rd" by simp
    obtain i2 w2 where
      rd: "Read lib sendAck (i, w) = Read lib sendAck (i2, w2)"
      "cs_readers i2 = cs_readers i'" "peerState i2 = peerState i'" "in_cfg i2 = in_cfg i'"
      "csr_pending (cs_r i2) = csr_pending (cs_r i')"
      by (rule Read_partial [OF ack i'(1,3) nc, of lib w])
    have inv: "delivery_inv lib sid_of s1 i2 pend"
    proof -
      have "delivery_inv lib sid_of s1 i' pend" using r False by (simp only: if_False)
      then show ?thesis by (rule inv_reader_cong) (fact rd(2-4))+
    qed
    have "csr_pending (cs_r i2) = b2 @ rest" using rd(5) i'(2) by simp
    from reads_afterE [OF IH [OF inv] this] obtain ms sw pend' where ms:
      "Reads lib sendAck (length ms) (i2, w2) = (Ok ms, sw)"
      "\<forall>c'. in_flight_list pend c' @ on c' (written es) = on c' ms @ in_flight_list pend' c'"
      "\<forall>c. pend' c = None \<longleftrightarrow> doneClosed (getWriter c s')"
      .
    have "\<exists>sw. Reads lib sendAck (length ms) (i, w) = (Ok ms, sw)"
      using ms(1) rd(1) by (cases ms) auto
    with ms(2,3) show ?thesis by auto
  qed
qed

lemma reads_after_other:
  assumes "reads_after lib sendAck bytes i pend es s'" "written (e # es) = written es"
  shows "reads_after lib sendAck bytes i pend (e # es) s'"
  using assms unfolding reads_after_def by (simp only:)

lemma reads_after_write:
  assumes "reads_after lib sendAck bytes i (pend(c \<mapsto> (ts, m))) es s'" "pend c = None"
  shows "reads_after lib sendAck bytes i pend (EvWrite c ts m # es) s'"
proof -
  have "in_flight_list pend a @ on a (written (EvWrite c ts m # es)) =
      in_flight_list (pend(c \<mapsto> (ts, m))) a @ on a (written es)" for a
    using assms(2) by (auto simp: in_flight_list_def)
  then show ?thesis using assms(1) unfolding reads_after_def by (simp only:)
qed

text \<open>What was sent stays sent.\<close>

definition sent_from :: "byte list \<Rightarrow> chunk_out \<Rightarrow> bool" where
  "sent_from bs s \<longleftrightarrow> (\<exists>cs. sent (cs_w s) = bs @ cs)"

lemma Write_extends: "\<exists>cs. sent (snd (ChunkStreamerWriter_Write v bs)) = sent v @ cs"
  by (auto simp: ChunkStreamerWriter_Write_def split: option.splits)

lemma encode_extends:
  "\<exists>cs. sent (snd (encodeChunkBasicHeader v bh)) = sent v @ cs"
  "\<exists>cs. sent (snd (encodeChunkMessageHeader v f mh)) = sent v @ cs"
  using Write_extends by (auto simp: encodeChunkBasicHeader_def encodeChunkMessageHeader_def split: outcome.splits)

lemma sent_from_with_w:
  "sent_from bs s \<Longrightarrow> (\<exists>cs. sent (snd p) = sent (cs_w s) @ cs) \<Longrightarrow> sent_from bs (snd (with_w p s))"
  by (auto simp: sent_from_def with_w_def)

lemma sent_from_putWriter [simp]: "sent_from bs (putWriter c w s) = sent_from bs s"
  by (simp add: sent_from_def)

lemma snd_eq: "p = (x, y) \<Longrightarrow> P (snd p) \<Longrightarrow> P y"
  by simp

lemma writeChunk_sent_from:
  assumes "sent_from bs s"
  shows "sent_from bs (snd (writeChunk c s))"
proof -
  let ?P = "sent_from bs"
  have keep: "?P u" if "with_w p v = (x, u)" "?P v" "\<exists>cs. sent (snd p) = sent (cs_w v) @ cs" for p v x u
    using sent_from_with_w [OF that(2,3)] that(1) by simp
  have flush: "\<exists>cs. sent (snd (ChunkStreamerWriter_Flush v)) = sent v @ cs" for v
    by (simp add: ChunkStreamerWriter_Flush_def)
  show ?thesis
    unfolding writeChunk_def Let_def
  proof (intro snd_bindo_keeps [where P = ?P], goal_cases)
    case (1 x1 s1 x2 s2 x3 s3 x4 s4)
    from keep [OF 1(1)] assms encode_extends(1) have "?P s1" by simp
    with keep [OF 1(2)] encode_extends(2) have "?P s2" by simp
    with keep [OF 1(3)] Write_extends have "?P s3" by simp
    with keep [OF 1(4)] flush show ?case by simp
  next
    case (2 x1 s1 x2 s2 x3 s3)
    from keep [OF 2(1)] assms encode_extends(1) have "?P s1" by simp
    with keep [OF 2(2)] encode_extends(2) have "?P s2" by simp
    with keep [OF 2(3)] Write_extends have "?P s3" by simp
    with flush sent_from_with_w show ?case by simp
  next
    case (3 x1 s1 x2 s2)
    from keep [OF 3(1)] assms encode_extends(1) have "?P s1" by simp
    with keep [OF 3(2)] encode_extends(2) have "?P s2" by simp
    with Write_extends sent_from_with_w show ?case by simp
  next
    case (4 x1 s1)
    from keep [OF 4(1)] assms encode_extends(1) have "?P s1" by simp
    with encode_extends(2) sent_from_with_w show ?case by simp
  next
    case 5
    with assms encode_extends(1) sent_from_with_w show ?case by simp
  qed
qed

lemma schedWriteLoop_end_cs_w [simp]: "cs_w (schedWriteLoop_end e s) = cs_w s"
  by (simp add: schedWriteLoop_end_def forceCloseWriters_def Let_def split: option.split)

lemma Run_round_sent_from: "sent_from bs s \<Longrightarrow> sent_from bs (Run_round c s)"
  using writeChunk_sent_from [of bs s c]
  by (auto simp: Run_round_def sent_from_def split: prod.splits outcome.splits)

text \<open>\<open>Write\<close> touches its writer, the encoder's target and the list of senders.\<close>

lemma Write_keeps:
  assumes "\<And>c w u. P u \<Longrightarrow> P (putWriter c w u)" "\<And>e u. P u \<Longrightarrow> P (u\<lparr>msgEnc := e\<rparr>)"
    "\<And>x u. P u \<Longrightarrow> P (u\<lparr>sched_blocked := x\<rparr>)" "P s"
  shows "P (snd (Write lib c ts m wc s))"
proof -
  have "P (snd (NewChunkWriter c wc s))"
    using assms(1,4) by (auto simp: NewChunkWriter_def wrap_err_def prepareChunkWriter_def split: option.splits)
  then have reset: "P (snd (Write_reset c wc s))"
    unfolding Write_reset_def using assms(2)
    by (intro snd_bindo_keeps [where P = P]) (auto dest!: snd_eq [where P = P])
  have enc: "P (snd (Write_encode lib x u))" if "P u" for x u
    using that assms(1) by (simp add: Write_encode_def Let_def split: option.split)
  have hdr: "P (snd (Write_header c ts m u))" if "P u" for u
    using that assms(1) by (simp add: Write_header_def Let_def split: outcome.split)
  show ?thesis
    unfolding Write_def
    by (intro snd_bindo_keeps [where P = P])
      (auto simp: Sched_def reset enc hdr assms(1,3) dest!: snd_eq [where P = P])
qed

lemma Write_cs_w: "cs_w (snd (Write lib c ts m wc s)) = cs_w s"
  by (rule Write_keeps) simp_all

lemma step_sent: "out_step lib s e s1 \<Longrightarrow> \<exists>cs. sent (cs_w s1) = sent (cs_w s) @ cs"
proof (induction rule: out_step.induct)
  case (run_chunk s c q)
  show ?case using Run_round_sent_from [of "sent (cs_w s)" "s\<lparr>sched_writers := q\<rparr>" c]
    by (simp add: sent_from_def)
next
  case (wr_ok wc c s ctx ts cmsg s')
  then show ?case using Write_cs_w [of lib c ts cmsg wc s] by simp
next
  case (wr_fail wc c s ctx ts cmsg e s')
  then show ?case using Write_cs_w [of lib c ts cmsg wc s] by simp
qed simp_all

lemma run_sent: "out_run lib s es s' \<Longrightarrow> \<exists>cs. sent (cs_w s') = sent (cs_w s) @ cs"
proof (induction rule: out_run.induct)
  case (run_cons s e s1 es s2)
  then show ?case using step_sent [OF run_cons(1)] by auto
qed simp

text \<open>
  Every run from a state with the invariant: what it sends is read, on every segmentation and with
  anything after it, as the messages it wrote.
\<close>

lemma run_delivery:
  assumes "out_run lib s es s'" "delivery_inv lib sid_of s i pend" "\<forall>e \<in> set es. ok_event lib sid_of e"
    and laws: "amf_string_law lib" "amf_int64_law lib" and ack: "\<forall>n w. fst (sendAck n w) = Ok ()"
  shows "\<exists>bytes. sent (cs_w s') = sent (cs_w s) @ bytes \<and> reads_after lib sendAck bytes i pend es s'"
  using assms(1-3)
proof (induction arbitrary: i pend)
  case (run_nil s)
  have "reads_after lib sendAck [] i pend [] s"
    using inv_done [OF run_nil(1)] unfolding reads_after_def
    by (intro allI impI exI [of _ "[]"] exI [of _ "(i, _)"] exI [of _ pend]) simp
  then show ?case by (intro exI [of _ "[]"]) simp
next
  case (run_cons s e s1 es s2)
  have ok: "\<forall>e \<in> set es. ok_event lib sid_of e" "ok_event lib sid_of e" using run_cons.prems(2) by auto
  have go: ?case if "delivery_inv lib sid_of s1 i pend'" "sent (cs_w s1) = sent (cs_w s)"
      "\<And>bytes. reads_after lib sendAck bytes i pend' es s2 \<Longrightarrow> reads_after lib sendAck bytes i pend (e # es) s2"
    for pend'
    using run_cons.IH [OF that(1) ok(1)] that(2,3) by auto
  note queue = go [OF _ _ reads_after_other]
  have lq: "length (sched_writers s) \<le> maxWriterQueueSize"
    using run_cons.prems(1) by (simp add: delivery_inv_def sched_ok_def)
  from run_cons.hyps(1) show ?case
  proof cases
    case (wr_ok wc c ctx ts cmsg)
    with inv_write [OF run_cons.prems(1) laws wr_ok(2) _ wr_ok(3)] ok(2) show ?thesis
      by (intro go [of "pend(c \<mapsto> (ts, cmsg))"]) (auto intro: reads_after_write)
  next
    case (wr_fail wc c ctx ts cmsg err)
    with inv_write [OF run_cons.prems(1) laws wr_fail(2) _ wr_fail(3)] ok(2) show ?thesis
      by (intro queue) auto
  next
    case (sender_enqueue c)
    have "mset (busy s1) = mset (busy s)"
      using sender_enqueue by (auto simp: busy_def)
    then show ?thesis using sender_enqueue
      by (intro queue [of pend] inv_queue [OF run_cons.prems(1)]) simp_all
  next
    case (run_chunk c q)
    obtain ts m b1 d where c: "pend c = Some (ts, m)" "sent (cs_w s1) = sent (cs_w s) @ b1" and
      ch: "\<forall>rest. csr_pending (cs_r i) = b1 @ rest \<longrightarrow> (\<exists>i' rd.
        readChunk i = (Ok c, i') \<and> csr_pending (cs_r i') = rest \<and>
        map_of (cs_readers i') c = Some rd \<and> completed rd = d \<and>
        (if d then delivers lib c rd ts m \<and>
           (\<forall>r. delivery_inv lib sid_of s1 (putReader c (rd\<lparr>buf := r\<rparr>) i') (pend(c := None)))
         else delivery_inv lib sid_of s1 i' pend))"
      by (rule inv_chunk [OF run_cons.prems(1) run_chunk(4,5), folded run_chunk(2)])
    obtain b2 where b2: "sent (cs_w s2) = sent (cs_w s1) @ b2"
      using run_sent [OF run_cons.hyps(2)] by blast
    have "reads_after lib sendAck b2 i' pend' es s2" if "delivery_inv lib sid_of s1 i' pend'" for i' pend'
      using run_cons.IH [OF that ok(1)] b2 by auto
    from reads_after_chunk [OF ack c(1) ch [rule_format] this] c(2) b2 run_chunk(1) show ?thesis by auto
  next
    case (run_requeue c)
    have "mset (busy s1) = mset (busy s)"
      using run_requeue by (simp add: busy_def)
    then show ?thesis using run_requeue
      by (intro queue [of pend] inv_queue [OF run_cons.prems(1)]) simp_all
  next
    case close_sched
    then show ?thesis
      using lq by (intro queue [of pend] inv_queue [OF run_cons.prems(1)]) (auto simp: busy_def)
  next
    case run_stop
    then show ?thesis
      using lq by (intro queue [of pend] inv_queue [OF run_cons.prems(1)])
        (auto simp: busy_def schedWriteLoop_end_def)
  qed
qed

section \<open>A new streamer\<close>

text \<open>
  \<open>NewChunkStreamer\<close>: its two halves, on a connection. A nil configuration is the default one.
\<close>

definition configOf :: "StreamControlStateConfig option \<Rightarrow> StreamControlStateConfig" where
  "configOf cfg = (case cfg of None \<Rightarrow> defaultStreamControlStateConfig | Some c \<Rightarrow> c)"

definition NewChunkStreamer_in :: "transport \<Rightarrow> StreamControlStateConfig option \<Rightarrow> chunk_in" where
  "NewChunkStreamer_in r cfg =
     \<lparr>cs_r = \<lparr>reader = r, totalReadBytes = 0, fragmentReadBytes = 0\<rparr>, cs_readers = [],
      peerState = NewStreamControlState cfg, in_cfg = configOf cfg\<rparr>"

definition NewChunkStreamer_out :: "ChunkStreamerWriter \<Rightarrow> StreamControlStateConfig option \<Rightarrow> chunk_out" where
  "NewChunkStreamer_out w cfg =
     \<lparr>cs_w = w, cs_writers = [], selfState = NewStreamControlState cfg, out_cfg = configOf cfg,
      msgEnc = None, sched_writers = [], sched_holding = None, sched_blocked = [],
      stopClosed = False, runDone = False, cs_err = None\<rparr>"

definition open_connection :: ChunkStreamerWriter where
  "open_connection = \<lparr>sent = [], room = None, werr = EOF\<rparr>"

lemma new_streamers_inv:
  assumes "room v = None" "cfgDefaultChunkSize (configOf cfg) \<noteq> 0"
    and "cfgDefaultChunkSize (configOf cfg') = cfgDefaultChunkSize (configOf cfg)"
    and "0 \<le> cfgMaxChunkStreams (configOf cfg)"
    and "cfgMaxChunkStreams (configOf cfg) \<le> cfgMaxChunkStreams (configOf cfg')"
  shows "delivery_inv lib sid_of (NewChunkStreamer_out v cfg) (NewChunkStreamer_in r cfg') (\<lambda>_. None)"
  using assms
  by (simp add: delivery_inv_def NewChunkStreamer_out_def NewChunkStreamer_in_def stream_ok_def getWriter_def
      getReader_def newWriter_def between_def hdr_fresh_def sched_ok_def busy_def tables_ok_def
      NewStreamControlState_def Let_def configOf_def maxWriterQueueSize_def)

section \<open>Properties\<close>


text \<open>A run with a message in two chunks of at most two bytes.\<close>

definition sampleCfg :: "StreamControlStateConfig option" where
  "sampleCfg = Some (defaultStreamControlStateConfig\<lparr>cfgDefaultChunkSize := 2\<rparr>)"

definition sampleAudio :: ChunkMessage where
  "sampleAudio = \<lparr>StreamID = 1, Message = AudioMessage [7, 8, 9]\<rparr>"

definition sampleStart :: chunk_out where
  "sampleStart = NewChunkStreamer_out open_connection sampleCfg"

definition sampleW1 :: ChunkStreamWriter where
  "sampleW1 = load 10 sampleAudio 8 [7, 8, 9] (newWriter 4)"

definition sampleW2 :: ChunkStreamWriter where
  "sampleW2 = (updateWriterHeader sampleW1)\<lparr>buf := [9]\<rparr>"

definition sampleSent :: "nat \<Rightarrow> byte list" where
  "sampleSent n = take n [4, 0, 0, 10, 0, 0, 3, 8, 1, 0, 0, 0, 7, 8, 196, 9]"

definition sampleQueued :: chunk_out where
  "sampleQueued = putWriter 4 sampleW1 (sampleStart\<lparr>msgEnc := Some 4, sched_writers := [4]\<rparr>)"

definition sampleHalf :: chunk_out where
  "sampleHalf = putWriter 4 sampleW2 (sampleStart\<lparr>msgEnc := Some 4,
     cs_w := open_connection\<lparr>sent := sampleSent 14\<rparr>\<rparr>)"

definition sampleEnd :: chunk_out where
  "sampleEnd = putWriter 4 ((updateWriterHeader sampleW2)\<lparr>buf := [], doneClosed := True\<rparr>)
     (sampleStart\<lparr>msgEnc := Some 4, cs_w := open_connection\<lparr>sent := sampleSent 16\<rparr>\<rparr>)"

lemma sampleStart_sel:
  "cs_writers sampleStart = []" "sched_writers sampleStart = []" "sched_blocked sampleStart = []"
  "sched_holding sampleStart = None" "runDone sampleStart = False"
  "0 < cfgMaxChunkStreams (out_cfg sampleStart)" "chunkSize (selfState sampleStart) = 2"
  "cs_w sampleStart = open_connection" "0 \<le> cfgMaxChunkStreams (configOf sampleCfg)"
  "cfgDefaultChunkSize (configOf sampleCfg) \<noteq> 0"
  by (simp_all add: sampleStart_def NewChunkStreamer_out_def sampleCfg_def configOf_def
      defaultStreamControlStateConfig_def normalize_def zeroConfig_def NewStreamControlState_def)

lemma sample_written:
  "Write sampleAmf 4 10 sampleAudio WaitDone sampleStart =
    (Ok (), putWriter 4 sampleW1 (sampleStart\<lparr>msgEnc := Some 4, sched_blocked := [4]\<rparr>))"
  using sampleStart_sel
  by (simp add: Write_def Write_reset_def Write_encode_def Write_header_def Sched_def NewChunkWriter_def
      prepareChunkWriter_def wrap_err_def putWriter_def getWriter_def sampleAudio_def newWriter_def
      sampleW1_def load_def)

lemma sample_first_header:
  "updateWriterHeader sampleW1 = sampleW1\<lparr>newChunk := False, timestampDelta := 0,
     messageHeader := \<lparr>mh_timestamp = 10, mh_timestampDelta = 0, mh_messageLength = 3,
       mh_messageTypeID = 8, mh_messageStreamID = 1\<rparr>,
     basicHeader := \<lparr>fmt = 0, chunkStreamID = 4\<rparr>\<rparr>"
  by (subst update_first_chunk) (simp_all add: sampleW1_def load_def nextFmt_def nextDelta_def
      newWriter_def zeroMessageHeader_def sampleAudio_def)

lemma sampleW2_eq:
  "sampleW2 = sampleW1\<lparr>newChunk := False, timestampDelta := 0,
     messageHeader := \<lparr>mh_timestamp = 10, mh_timestampDelta = 0, mh_messageLength = 3,
       mh_messageTypeID = 8, mh_messageStreamID = 1\<rparr>,
     basicHeader := \<lparr>fmt = 0, chunkStreamID = 4\<rparr>, buf := [9]\<rparr>"
  by (simp add: sampleW2_def sample_first_header)

lemma sample_second_header:
  "updateWriterHeader sampleW2 = sampleW2\<lparr>basicHeader := \<lparr>fmt = 3, chunkStreamID = 4\<rparr>\<rparr>"
  by (subst update_later_chunk) (simp_all add: sampleW2_eq sampleW1_def load_def sampleAudio_def)

lemma sample_headers:
  "basicHeaderBytes \<lparr>fmt = 0, chunkStreamID = 4\<rparr> = Ok [4]"
  "basicHeaderBytes \<lparr>fmt = 3, chunkStreamID = 4\<rparr> = Ok [196]"
  "messageHeaderBytes 3 mh = Ok []"
  by (simp_all add: basicHeaderBytes_def messageHeaderBytes_def)

lemma sample_message_header:
  "messageHeaderBytes 0 \<lparr>mh_timestamp = 10, mh_timestampDelta = 0, mh_messageLength = 3,
     mh_messageTypeID = 8, mh_messageStreamID = 1\<rparr> = Ok [0, 0, 10, 0, 0, 3, 8, 1, 0, 0, 0]"
  by code_simp

lemma update_buf: "buf (updateWriterHeader w) = buf w"
  by (simp add: updateWriterHeader_def Let_def)

lemma sample_first_chunk:
  "Run_round 4 (sampleQueued\<lparr>sched_writers := []\<rparr>) = sampleHalf\<lparr>sched_holding := Some 4\<rparr>"
proof -
  let ?s = "sampleQueued\<lparr>sched_writers := []\<rparr>"
  define w' where "w' = updateWriterHeader sampleW1"
  have w: "getWriter 4 ?s = sampleW1"
    by (simp add: sampleQueued_def putWriter_def getWriter_def)
  have b: "buf w' = [7, 8, 9]" by (simp add: w'_def update_buf sampleW1_def load_def)
  have "writeChunk 4 ?s = (Ok (drop 2 (buf w') = []), putWriter 4 (w'\<lparr>buf := drop 2 (buf w')\<rparr>)
     (?s\<lparr>cs_w := (cs_w ?s)\<lparr>sent := sent (cs_w ?s) @ [4] @ [0, 0, 10, 0, 0, 3, 8, 1, 0, 0, 0] @ take 2 (buf w')\<rparr>\<rparr>))"
  proof (rule writeChunk_open)
    show "w' = updateWriterHeader (getWriter 4 ?s)" by (simp add: w'_def w)
    show "room (cs_w ?s) = None" using sampleStart_sel by (simp add: sampleQueued_def open_connection_def)
    show "2 = chunkLen (length (buf w')) (chunkSize (selfState ?s))"
      using sampleStart_sel by (simp add: b chunkLen_def sampleQueued_def)
  qed (simp_all add: w'_def sample_first_header sample_headers sample_message_header)
  then have "writeChunk 4 ?s = (Ok False, sampleHalf)"
    using b by (simp add: w'_def sampleHalf_def sampleW2_def sampleQueued_def putWriter_def sampleStart_def
        NewChunkStreamer_out_def open_connection_def sampleSent_def)
  then show ?thesis by (simp add: Run_round_def)
qed

lemma sample_second_chunk:
  "Run_round 4 sampleHalf = sampleEnd"
proof -
  define w' where "w' = updateWriterHeader sampleW2"
  have w: "getWriter 4 sampleHalf = sampleW2" by (simp add: sampleHalf_def)
  have b: "buf w' = [9]" by (simp add: w'_def update_buf sampleW2_eq)
  have "writeChunk 4 sampleHalf = (Ok (drop 1 (buf w') = []), putWriter 4 (w'\<lparr>buf := drop 1 (buf w')\<rparr>)
     (sampleHalf\<lparr>cs_w := (cs_w sampleHalf)\<lparr>sent := sent (cs_w sampleHalf) @ [196] @ [] @ take 1 (buf w')\<rparr>\<rparr>))"
  proof (rule writeChunk_open)
    show "w' = updateWriterHeader (getWriter 4 sampleHalf)" by (simp add: w'_def w)
    show "room (cs_w sampleHalf) = None" by (simp add: sampleHalf_def open_connection_def)
    show "1 = chunkLen (length (buf w')) (chunkSize (selfState sampleHalf))"
      using sampleStart_sel by (simp add: b chunkLen_def sampleHalf_def)
  qed (simp_all add: w'_def sample_second_header sample_headers)
  then show ?thesis
    using b by (simp add: Run_round_def w'_def getWriter_def sampleEnd_def sampleHalf_def putWriter_def open_connection_def
        sampleSent_def)
qed

lemma sample_run:
  "out_run sampleAmf sampleStart
     [EvWrite 4 10 sampleAudio, EvEnqueue 4, EvChunk 4, EvRequeue 4, EvChunk 4] sampleEnd"
proof (intro out_run.intros)
  let ?s1 = "putWriter 4 sampleW1 (sampleStart\<lparr>msgEnc := Some 4, sched_blocked := [4]\<rparr>)"
  have "WaitDone \<in> set (Wait_ready (getWriter 4 sampleStart) None)"
    using sampleStart_sel by (simp add: getWriter_def Wait_ready_def newWriter_def)
  from out_step.wr_ok [OF this sample_written]
  show "out_step sampleAmf sampleStart (EvWrite 4 10 sampleAudio) ?s1" .
  show "out_step sampleAmf ?s1 (EvEnqueue 4) sampleQueued"
    using out_step.sender_enqueue [of 4 ?s1 sampleAmf]
    by (simp add: sampleQueued_def putWriter_def maxWriterQueueSize_def sampleStart_def
        NewChunkStreamer_out_def)
  show "out_step sampleAmf sampleQueued (EvChunk 4) (sampleHalf\<lparr>sched_holding := Some 4\<rparr>)"
    using out_step.run_chunk [of sampleQueued 4 "[]" sampleAmf] sampleStart_sel
    by (simp add: sampleQueued_def sample_first_chunk [unfolded sampleQueued_def])
  show "out_step sampleAmf (sampleHalf\<lparr>sched_holding := Some 4\<rparr>) (EvRequeue 4)
      (sampleHalf\<lparr>sched_writers := [4]\<rparr>)"
    using sampleStart_sel
    by (simp add: out_step_requeue_simp sampleHalf_def maxWriterQueueSize_def putWriter_def)
  show "out_step sampleAmf (sampleHalf\<lparr>sched_writers := [4]\<rparr>) (EvChunk 4) sampleEnd"
  proof -
    have "sampleHalf\<lparr>sched_writers := []\<rparr> = sampleHalf" "\<not> runDone sampleHalf" "sched_holding sampleHalf = None"
      using sampleStart_sel
      by (simp_all add: sampleHalf_def putWriter_def sampleStart_def NewChunkStreamer_out_def)
    then show ?thesis by (simp add: out_step_chunk_simp sample_second_chunk)
  qed
qed (rule out_run.run_nil)

text \<open>What the other end reads of that run.\<close>

lemma sample_ok_events:
  "\<forall>e \<in> set [EvWrite 4 10 sampleAudio, EvEnqueue 4, EvChunk 4, EvRequeue 4, EvChunk 4].
     ok_event sampleAmf (\<lambda>_. 1) e"
  by (simp add: ok_write_def sampleAudio_def)

lemma sample_reads:
  "\<exists>ms sw. Reads sampleAmf (\<lambda>_ w. (Ok (), w)) (length ms)
      (NewChunkStreamer_in \<lparr>segs = [sent (cs_w sampleEnd)], end_err = EOF\<rparr> sampleCfg, ()) = (Ok ms, sw) \<and>
    on 4 ms = [(4, 10, sampleAudio)]"
proof -
  let ?i = "NewChunkStreamer_in \<lparr>segs = [sent (cs_w sampleEnd)], end_err = EOF\<rparr> sampleCfg"
  have "delivery_inv sampleAmf (\<lambda>_. 1) sampleStart ?i (\<lambda>_. None)"
    unfolding sampleStart_def using sampleStart_sel
    by (intro new_streamers_inv) (simp_all add: open_connection_def)
  from run_delivery [OF sample_run this sample_ok_events sampleAmf_string sampleAmf_int64,
      of "\<lambda>_ (w :: unit). (Ok (), w)"] obtain bytes where
    b: "sent (cs_w sampleEnd) = sent (cs_w sampleStart) @ bytes" and
    ra: "reads_after sampleAmf (\<lambda>_ (w :: unit). (Ok (), w)) bytes ?i (\<lambda>_. None)
      [EvWrite 4 10 sampleAudio, EvEnqueue 4, EvChunk 4, EvRequeue 4, EvChunk 4] sampleEnd" by auto
  have "csr_pending (cs_r ?i) = bytes @ []"
    using b sampleStart_sel(8)
    by (simp add: NewChunkStreamer_in_def csr_pending_def transport_pending_def open_connection_def)
  from reads_afterE [OF ra this, of "()"] obtain ms sw pend' where ms:
    "Reads sampleAmf (\<lambda>_ w. (Ok (), w)) (length ms) (?i, ()) = (Ok ms, sw)"
    "\<forall>c. in_flight_list (\<lambda>_. None) c @ on c (written [EvWrite 4 10 sampleAudio, EvEnqueue 4, EvChunk 4,
        EvRequeue 4, EvChunk 4]) = on c ms @ in_flight_list pend' c"
    "\<forall>c. pend' c = None \<longleftrightarrow> doneClosed (getWriter c sampleEnd)" .
  have "doneClosed (getWriter 4 sampleEnd)" by (simp add: sampleEnd_def)
  with ms(2,3) have "on 4 ms = [(4, 10, sampleAudio)]" by (auto simp: in_flight_list_def dest!: spec [of _ 4])
  with ms(1) show ?thesis by blast
qed


end
