(* ===== verification/ChunkSched.thy ===== *)
theory ChunkSched
  imports ChunkDelivery
begin

text \<open>
  The scheduler without any assumption on what is written: the queue's invariant on every run, and
  what a failed encoding does to its chunk stream.
\<close>

section \<open>The queue\<close>

text \<open>
  While the scheduler runs, no writer is queued twice, a queued writer is not done, the channel
  holds at most its capacity, and no writer has an error or was closed by force.
\<close>

definition queue_inv :: "chunk_out \<Rightarrow> bool" where
  "queue_inv s \<longleftrightarrow> distinct (busy s) \<and> (\<forall>c \<in> set (busy s). \<not> doneClosed (getWriter c s)) \<and>
     length (sched_writers s) \<le> maxWriterQueueSize \<and>
     (\<forall>c. \<not> closeClosed (getWriter c s) \<and> lastErr (getWriter c s) = None)"

lemma queue_inv_new: "queue_inv (NewChunkStreamer_out v cfg)"
  by (simp add: queue_inv_def NewChunkStreamer_out_def busy_def getWriter_def newWriter_def maxWriterQueueSize_def)

text \<open>What a call of \<open>Write\<close> leaves behind, whatever becomes of it.\<close>

definition only_writer :: "int \<Rightarrow> chunk_out \<Rightarrow> chunk_out \<Rightarrow> bool" where
  "only_writer c s s' \<longleftrightarrow> busy s' = busy s \<and> sched_writers s' = sched_writers s \<and> runDone s' = runDone s \<and>
     (\<forall>a. a \<noteq> c \<longrightarrow> getWriter a s' = getWriter a s) \<and>
     closeClosed (getWriter c s') = closeClosed (getWriter c s) \<and>
     lastErr (getWriter c s') = lastErr (getWriter c s)"

lemma busy_snoc: "busy (t\<lparr>sched_blocked := sched_blocked t @ [a]\<rparr>) = busy t @ [a]"
  by (simp add: busy_def)

lemma only_writer_refl [simp]: "only_writer c s s"
  by (simp add: only_writer_def)

lemma only_writer_trans: "only_writer c s t \<Longrightarrow> only_writer c t u \<Longrightarrow> only_writer c s u"
  by (simp add: only_writer_def)

lemma only_writer_put:
  "only_writer c s t \<Longrightarrow> closeClosed w = closeClosed (getWriter c t) \<Longrightarrow> lastErr w = lastErr (getWriter c t) \<Longrightarrow>
   only_writer c s (putWriter c w t)"
  by (simp add: only_writer_def)

lemma NewChunkWriter_only:
  assumes "wc \<in> set (Wait_ready (getWriter c s) ctx)" "\<not> closeClosed (getWriter c s)" "lastErr (getWriter c s) = None"
  shows "only_writer c s (snd (NewChunkWriter c wc s)) \<and>
    (case fst (NewChunkWriter c wc s) of
       Ok _ \<Rightarrow> doneClosed (getWriter c s) \<and> \<not> doneClosed (getWriter c (snd (NewChunkWriter c wc s)))
     | Err e \<Rightarrow> doneClosed (getWriter c (snd (NewChunkWriter c wc s))) = doneClosed (getWriter c s)
     | Panic m \<Rightarrow> False)"
  by (cases rule: NewChunkWriter_cases [OF assms]) (auto intro: only_writer_put)

text \<open>The three later parts of \<open>Write\<close>, on a writer that was acquired.\<close>

lemma encode_only:
  assumes "msgEnc s = Some c"
  shows "only_writer c s (snd (Write_encode lib m s)) \<and>
    doneClosed (getWriter c (snd (Write_encode lib m s))) = doneClosed (getWriter c s)"
  using assms by (simp add: Write_encode_def Let_def only_writer_put)

lemma header_only:
  "only_writer c s (snd (Write_header c ts m s)) \<and>
   doneClosed (getWriter c (snd (Write_header c ts m s))) = doneClosed (getWriter c s)"
  by (simp add: Write_header_def Let_def only_writer_put split: outcome.split)

lemma Write_only:
  assumes "wc \<in> set (Wait_ready (getWriter c s) ctx)" "\<not> closeClosed (getWriter c s)" "lastErr (getWriter c s) = None"
    and "Write lib c ts m wc s = (res, s')"
  shows "(res = Ok () \<longrightarrow> doneClosed (getWriter c s) \<and> \<not> doneClosed (getWriter c s') \<and>
      (\<exists>t. only_writer c s t \<and> s' = putWriter c ((getWriter c t)\<lparr>newChunk := True\<rparr>)
         (t\<lparr>sched_blocked := sched_blocked t @ [c]\<rparr>))) \<and>
    (res \<noteq> Ok () \<longrightarrow> only_writer c s s' \<and> (doneClosed (getWriter c s') \<longrightarrow> doneClosed (getWriter c s)))"
proof -
  note new = NewChunkWriter_only [OF assms(1-3)]
  obtain r1 s1 where p1: "NewChunkWriter c wc s = (r1, s1)" by fastforce
  show ?thesis
  proof (cases r1)
    case (Ok u)
    define t1 where "t1 = s1\<lparr>msgEnc := Some c\<rparr>"
    have t1: "only_writer c s t1" "\<not> doneClosed (getWriter c t1)" "doneClosed (getWriter c s)" "msgEnc t1 = Some c"
      using new p1 Ok by (auto simp: t1_def only_writer_def busy_def getWriter_def)
    have reset: "Write_reset c wc s = (Ok (), t1)" by (simp add: Write_reset_def p1 Ok t1_def)
    obtain r2 t2 where p2: "Write_encode lib (Message m) t1 = (r2, t2)" by fastforce
    have t2: "only_writer c s t2" "\<not> doneClosed (getWriter c t2)"
      using encode_only [OF t1(4), of lib "Message m"] t1 p2 by (auto intro: only_writer_trans)
    obtain r3 t3 where p3: "Write_header c ts m t2 = (r3, t3)" by fastforce
    have t3: "only_writer c s t3" "\<not> doneClosed (getWriter c t3)"
      using header_only [of c t2 ts m] t2 p3 by (auto intro: only_writer_trans)
    from assms(4) show ?thesis
      using t1(3) t2 t3 by (cases r2; cases r3)
        (auto simp: Write_def reset p2 p3 Sched_def)
  next
    case (Err e)
    with new p1 assms(4) show ?thesis by (auto simp: Write_def Write_reset_def)
  next
    case (Panic x)
    with new p1 show ?thesis by simp
  qed
qed

lemma Write_keeps_done: "runDone (snd (Write lib c ts m wc s)) = runDone s"
  by (rule Write_keeps) simp_all

text \<open>Writing a chunk changes the connection and its own writer.\<close>

lemma writeChunk_shape:
  "\<exists>w' v. snd (writeChunk c s) = putWriter c w' (s\<lparr>cs_w := v\<rparr>) \<and> same_message (getWriter c s) w'"
proof -
  define w where "w = updateWriterHeader (getWriter c s)"
  have same: "same_message (getWriter c s) w" using update_same_message by (simp add: w_def)
  define P where "P u \<longleftrightarrow> (\<exists>w' v. u = putWriter c w' (s\<lparr>cs_w := v\<rparr>) \<and> same_message (getWriter c s) w')" for u
  have put: "P (putWriter c w' u)" if "P u" "same_message (getWriter c s) w'" for u w'
    using that unfolding P_def by (metis putWriter_putWriter)
  have ww: "P (snd (with_w p u))" if "P u" for p u
  proof -
    from that obtain w' v where "u = putWriter c w' (s\<lparr>cs_w := v\<rparr>)" "same_message (getWriter c s) w'"
      unfolding P_def by blast
    moreover from this have "snd (with_w p u) = putWriter c w' (s\<lparr>cs_w := snd p\<rparr>)"
      by (simp add: with_w_def putWriter_def)
    ultimately show ?thesis unfolding P_def by blast
  qed
  have ww2: "P x" if "with_w p u = (r, x)" "P u" for p u r x
    using ww [OF that(2), of p] that(1) by simp
  have start: "P (putWriter c w s)"
  proof -
    have "putWriter c w s = putWriter c w (s\<lparr>cs_w := cs_w s\<rparr>)" by simp
    with same show ?thesis unfolding P_def by blast
  qed
  have cut: "same_message (getWriter c s) (w\<lparr>buf := x\<rparr>)" for x using same by (simp add: same_message_def)
  have "P (snd (writeChunk c s))"
    unfolding writeChunk_def Let_def w_def [symmetric]
  proof (intro snd_bindo_keeps [where P = P], goal_cases)
    case (1 x1 s1 x2 s2 x3 s3 x4 s4)
    with start have "P s1" by (blast intro: ww2)
    with 1 have "P s2" by (blast intro: ww2)
    then have "P (putWriter c (w\<lparr>buf := y\<rparr>) s2)" for y by (rule put [OF _ cut])
    with 1 have "P s3" by (blast intro: ww2)
    with 1 have "P s4" by (blast intro: ww2)
    then show ?case by simp
  next
    case (2 x1 s1 x2 s2 x3 s3)
    with start have "P s1" by (blast intro: ww2)
    with 2 have "P s2" by (blast intro: ww2)
    then have "P (putWriter c (w\<lparr>buf := y\<rparr>) s2)" for y by (rule put [OF _ cut])
    with 2 have "P s3" by (blast intro: ww2)
    then show ?case by (simp add: ww)
  next
    case (3 x1 s1 x2 s2)
    with start have "P s1" by (blast intro: ww2)
    with 3 have "P s2" by (blast intro: ww2)
    then have "P (putWriter c (w\<lparr>buf := y\<rparr>) s2)" for y by (rule put [OF _ cut])
    then show ?case by (simp add: ww)
  next
    case (4 x1 s1)
    with start have "P s1" by (blast intro: ww2)
    then show ?case by (simp add: ww)
  next
    case 5
    with start show ?case by (simp add: ww)
  qed
  then show ?thesis by (simp add: P_def)
qed

text \<open>A chunk that cannot be written ends the scheduler.\<close>

lemma Run_round_failed: "\<not> is_Ok (fst (writeChunk c s)) \<Longrightarrow> runDone (Run_round c s)"
  by (cases "writeChunk c s"; cases "fst (writeChunk c s)")
    (simp_all add: Run_round_def schedWriteLoop_end_def Let_def forceCloseWriters_def)

lemma queue_inv_step:
  assumes "out_step lib s e s'" "queue_inv s" "\<not> runDone s'"
  shows "queue_inv s'"
  using assms(1)
proof cases
  case (wr_ok wc c ctx ts m)
  note q = assms(2) [unfolded queue_inv_def]
  have w: "\<not> closeClosed (getWriter c s)" "lastErr (getWriter c s) = None" using q by auto
  from Write_only [OF wr_ok(2) w wr_ok(3)] obtain t where t: "doneClosed (getWriter c s)"
    "\<not> doneClosed (getWriter c s')" "only_writer c s t"
    "s' = putWriter c ((getWriter c t)\<lparr>newChunk := True\<rparr>) (t\<lparr>sched_blocked := sched_blocked t @ [c]\<rparr>)" by auto
  have b: "busy s' = busy s @ [c]" "c \<notin> set (busy s)" "sched_writers s' = sched_writers s"
    using t q by (auto simp: only_writer_def busy_def)
  have g: "getWriter a (t\<lparr>sched_blocked := x\<rparr>) = getWriter a t" for a x by (simp add: getWriter_def)
  show ?thesis using q b t w by (auto simp: queue_inv_def only_writer_def g)
next
  case (wr_fail wc c ctx ts m err)
  note q = assms(2) [unfolded queue_inv_def]
  have w: "\<not> closeClosed (getWriter c s)" "lastErr (getWriter c s) = None" using q by auto
  from Write_only [OF wr_fail(2) w wr_fail(3)] have t: "only_writer c s s'"
    "doneClosed (getWriter c s') \<longrightarrow> doneClosed (getWriter c s)" by auto
  show ?thesis using q t w unfolding queue_inv_def only_writer_def by metis
next
  case (sender_enqueue c)
  then have "mset (busy s') = mset (busy s)" by (auto simp: busy_def)
  then have "set (busy s') = set (busy s)" "distinct (busy s') = distinct (busy s)"
    by (metis mset_eq_setD, metis mset_eq_imp_distinct_iff)
  with sender_enqueue assms(2) show ?thesis by (simp add: queue_inv_def getWriter_def)
next
  case (run_chunk c q)
  note q = assms(2) [unfolded queue_inv_def]
  have b: "busy s = c # q @ sched_blocked s" using run_chunk by (simp add: busy_def)
  define s0 where "s0 = s\<lparr>sched_writers := q\<rparr>"
  have g: "getWriter a s0 = getWriter a s" "getWriter a (x\<lparr>cs_w := v\<rparr>) = getWriter a x"
    "getWriter a (x\<lparr>sched_holding := h\<rparr>) = getWriter a x" for a x v h
    by (simp_all add: s0_def getWriter_def)
  obtain w' v where w: "snd (writeChunk c s0) = putWriter c w' (s0\<lparr>cs_w := v\<rparr>)" "same_message (getWriter c s) w'"
    using writeChunk_shape [of c s0] g by auto
  show ?thesis
  proof (cases "fst (writeChunk c s0)")
    case (Ok fin)
    with w(1) have wr: "writeChunk c s0 = (Ok fin, putWriter c w' (s0\<lparr>cs_w := v\<rparr>))" by (metis prod.collapse)
    have s': "s' = (if fin then putWriter c (w'\<lparr>doneClosed := True\<rparr>) (s0\<lparr>cs_w := v\<rparr>)
        else (putWriter c w' (s0\<lparr>cs_w := v\<rparr>))\<lparr>sched_holding := Some c\<rparr>)"
      unfolding run_chunk(2) s0_def [symmetric] Run_round_def wr by simp
    have "busy s' = (if fin then q @ sched_blocked s else q @ c # sched_blocked s)"
      "sched_writers s' = q" using run_chunk(4) by (simp_all add: s' s0_def busy_def)
    moreover have "length q \<le> maxWriterQueueSize" using q run_chunk by simp
    ultimately show ?thesis
      using q b w(2) by (auto simp: queue_inv_def s' g same_message_def)
  next
    case (Err e)
    then have "runDone s'" unfolding run_chunk(2) s0_def [symmetric] by (intro Run_round_failed) simp
    with assms(3) show ?thesis by simp
  next
    case (Panic m)
    then have "runDone s'" unfolding run_chunk(2) s0_def [symmetric] by (intro Run_round_failed) simp
    with assms(3) show ?thesis by simp
  qed
next
  case (run_requeue c)
  then have "mset (busy s') = mset (busy s)" by (simp add: busy_def)
  then have "set (busy s') = set (busy s)" "distinct (busy s') = distinct (busy s)"
    by (metis mset_eq_setD, metis mset_eq_imp_distinct_iff)
  with run_requeue assms(2) show ?thesis by (simp add: queue_inv_def getWriter_def)
next
  case close_sched
  with assms(2) show ?thesis by (simp add: queue_inv_def getWriter_def busy_def)
next
  case run_stop
  with assms(3) show ?thesis by (simp add: schedWriteLoop_end_def Let_def)
qed

lemma runDone_step: "out_step lib s e s' \<Longrightarrow> runDone s \<Longrightarrow> runDone s'"
proof (induction rule: out_step.induct)
  case (wr_ok wc c s ctx ts m s')
  have "runDone (snd (Write lib c ts m wc s)) = runDone s"
    by (rule Write_keeps_done)
  with wr_ok show ?case by simp
next
  case (wr_fail wc c s ctx ts m e s')
  have "runDone (snd (Write lib c ts m wc s)) = runDone s"
    by (rule Write_keeps_done)
  with wr_fail show ?case by simp
qed (simp_all add: schedWriteLoop_end_def Let_def)

lemma queue_inv_run:
  assumes "out_run lib s es s'" "queue_inv s" "\<not> runDone s'"
  shows "queue_inv s'"
  using assms
proof (induction rule: out_run.induct)
  case (run_cons s e s1 es s2)
  have "\<not> runDone s1" using run_cons.hyps(2) run_cons.prems(2)
    by (induction rule: out_run.induct) (auto dest: runDone_step)
  with run_cons show ?case by (blast intro: queue_inv_step)
qed simp

section \<open>A chunk stream whose message could not be encoded\<close>

text \<open>
  A writer that is acquired and never queued: its done channel stays open, and nothing closes it.
\<close>

definition stuck :: "int \<Rightarrow> chunk_out \<Rightarrow> bool" where
  "stuck c s \<longleftrightarrow> queue_inv s \<and> \<not> doneClosed (getWriter c s) \<and> c \<notin> set (busy s)"

lemma Write_failed_stuck:
  assumes "queue_inv s" "doneClosed (getWriter c s)"
    and "map_of (cs_writers s) c \<noteq> None \<or> int (length (cs_writers s)) < cfgMaxChunkStreams (out_cfg s)"
    and "fst (Encode lib (Message m) (buf (getWriter c s))) = Err e"
    and "Write lib c ts m WaitDone s = (res, s')"
  shows "res = Err e \<and> stuck c s'"
proof -
  have w: "\<not> closeClosed (getWriter c s)" "lastErr (getWriter c s) = None"
    using assms(1) by (auto simp: queue_inv_def)
  have ready: "WaitDone \<in> set (Wait_ready (getWriter c s) None)" using assms(2) by (simp add: Wait_ready_def)
  have full: "prepareChunkWriter c s \<noteq> (Err x, s)" for x
    using assms(3) by (auto simp: prepareChunkWriter_def split: option.split)
  have new: "NewChunkWriter c WaitDone s = (Ok (), putWriter c ((getWriter c s)\<lparr>doneClosed := False\<rparr>) s)"
    by (cases rule: prepareChunkWriter_cases [of c s])
      (use full w(2) in \<open>auto simp: NewChunkWriter_def wrap_err_def\<close>)
  have wr: "Write lib c ts m WaitDone s = (Err e, putWriter c ((getWriter c s)\<lparr>doneClosed := False,
      buf := snd (Encode lib (Message m) (buf (getWriter c s)))\<rparr>) (s\<lparr>msgEnc := Some c\<rparr>))"
    using assms(4) by (simp add: Write_def Write_reset_def new Write_encode_def Let_def) (simp add: putWriter_def getWriter_def)
  have "c \<notin> set (busy s)" using assms(1,2) by (auto simp: queue_inv_def)
  moreover have g: "getWriter a (s\<lparr>msgEnc := x\<rparr>) = getWriter a s" for a x by (simp add: getWriter_def)
  ultimately show ?thesis using assms(1,5) wr by (auto simp: stuck_def queue_inv_def g split: if_splits)
qed

lemma stuck_step:
  assumes "out_step lib s e s'" "stuck c s" "\<not> runDone s'"
  shows "stuck c s'"
proof -
  have q: "queue_inv s'" using queue_inv_step assms by (auto simp: stuck_def)
  have w: "\<not> closeClosed (getWriter a s)" "lastErr (getWriter a s) = None" for a
    using assms(2) by (auto simp: stuck_def queue_inv_def)
  have keep: "stuck c s'" if "only_writer a s s'" "a \<noteq> c \<or> (doneClosed (getWriter a s') \<longrightarrow> doneClosed (getWriter a s))" for a
    using that assms(2) q by (cases "a = c") (auto simp: stuck_def only_writer_def)
  from assms(1) show ?thesis
  proof cases
    case (wr_ok wc a ctx ts m)
    from Write_only [OF wr_ok(2) w wr_ok(3)] obtain t where t: "doneClosed (getWriter a s)"
      "only_writer a s t"
      "s' = putWriter a ((getWriter a t)\<lparr>newChunk := True\<rparr>) (t\<lparr>sched_blocked := sched_blocked t @ [a]\<rparr>)" by auto
    then have "a \<noteq> c" "busy s' = busy s @ [a]"
      using assms(2) by (auto simp: stuck_def only_writer_def busy_snoc)
    moreover have "getWriter c (t\<lparr>sched_blocked := x\<rparr>) = getWriter c t" for x by (simp add: getWriter_def)
    ultimately show ?thesis using t assms(2) q by (auto simp: stuck_def only_writer_def)
  next
    case (wr_fail wc a ctx ts m err)
    from Write_only [OF wr_fail(2) w wr_fail(3)] show ?thesis by (intro keep [of a]) auto
  next
    case (sender_enqueue a)
    then have "set (busy s') \<subseteq> set (busy s)" by (auto simp: busy_def dest: set_remove1_subset [THEN subsetD])
    with sender_enqueue q assms(2) show ?thesis by (auto simp: stuck_def getWriter_def)
  next
    case (run_chunk a q')
    then have "a \<noteq> c" using assms(2) by (auto simp: stuck_def busy_def)
    define s0 where "s0 = s\<lparr>sched_writers := q'\<rparr>"
    obtain w' v where sh: "snd (writeChunk a s0) = putWriter a w' (s0\<lparr>cs_w := v\<rparr>)"
      using writeChunk_shape [of a s0] by blast
    have other: "getWriter c (snd (writeChunk a s0)) = getWriter c s"
      using \<open>a \<noteq> c\<close> by (simp add: sh) (simp add: s0_def getWriter_def)
    have "getWriter c s' = getWriter c s \<and> set (busy s') \<subseteq> set (busy s)"
    proof (cases "fst (writeChunk a s0)")
      case (Ok fin)
      with sh have wr: "writeChunk a s0 = (Ok fin, putWriter a w' (s0\<lparr>cs_w := v\<rparr>))" by (metis prod.collapse)
      have g: "getWriter c (x\<lparr>sched_holding := h\<rparr>) = getWriter c x" for x h by (simp add: getWriter_def)
      have b: "busy s = a # q' @ sched_blocked s" using run_chunk by (simp add: busy_def)
      have b2: "sched_holding s = None" by (fact run_chunk)
      show ?thesis
        using \<open>a \<noteq> c\<close> other b b2 unfolding run_chunk(2) s0_def [symmetric] Run_round_def wr
        by (auto simp: wr g) (auto simp: s0_def busy_def)
    next
      case (Err e)
      then have "runDone s'" unfolding run_chunk(2) s0_def [symmetric] by (intro Run_round_failed) simp
      with assms(3) show ?thesis by simp
    next
      case (Panic m)
      then have "runDone s'" unfolding run_chunk(2) s0_def [symmetric] by (intro Run_round_failed) simp
      with assms(3) show ?thesis by simp
    qed
    with q assms(2) show ?thesis by (auto simp: stuck_def)
  next
    case (run_requeue a)
    then have "set (busy s') = set (busy s)" by (auto simp: busy_def)
    with run_requeue q assms(2) show ?thesis by (auto simp: stuck_def getWriter_def)
  next
    case close_sched
    with q assms(2) show ?thesis by (simp add: stuck_def getWriter_def busy_def)
  next
    case run_stop
    with assms(3) show ?thesis by (simp add: schedWriteLoop_end_def Let_def)
  qed
qed

lemma stuck_run:
  assumes "out_run lib s es s'" "stuck c s" "\<not> runDone s'"
  shows "stuck c s'"
  using assms
proof (induction rule: out_run.induct)
  case (run_cons s e s1 es s2)
  have "\<not> runDone s1" using run_cons.hyps(2) run_cons.prems(2)
    by (induction rule: out_run.induct) (auto dest: runDone_step)
  with run_cons show ?case by (blast intro: stuck_step)
qed simp

section \<open>Properties\<close>

text \<open>
  C31. On every run of a new streamer, with any messages, on any connection and whether the writes
  succeed or fail: while the scheduler has not ended, no chunk stream is queued, held or waiting
  twice, none of those is done, and the scheduler's channel keeps to its capacity.
\<close>

theorem scheduler_queue:
  assumes "out_run lib (NewChunkStreamer_out v cfg) es s'" "\<not> runDone s'"
  shows "distinct (busy s') \<and> (\<forall>c \<in> set (busy s'). \<not> doneClosed (getWriter c s')) \<and>
    length (sched_writers s') \<le> maxWriterQueueSize"
  using queue_inv_run [OF assms(1) queue_inv_new assms(2)] by (simp add: queue_inv_def)

theorem scheduler_queue_witness:
  "distinct (busy sampleEnd) \<and> list_all (\<lambda>c. \<not> doneClosed (getWriter c sampleEnd)) (busy sampleEnd) \<and>
    length (sched_writers sampleEnd) \<le> maxWriterQueueSize"
proof -
  have "\<not> runDone sampleEnd" using sampleStart_sel by (simp add: sampleEnd_def)
  from scheduler_queue [OF sample_run [unfolded sampleStart_def] this] show ?thesis by (simp add: list_all_iff)
qed

text \<open>
  C33. A message that cannot be encoded locks its chunk stream for good: \<open>Write\<close> returns the
  encoder's error, the writer's done channel is never closed again while the scheduler runs, and
  all that a later \<open>Write\<close> on that chunk stream can do is wait for its context to expire.
\<close>

theorem failed_encode_locks_stream:
  assumes "out_run lib (NewChunkStreamer_out v cfg) es s" "\<not> runDone s" "doneClosed (getWriter c s)"
    and "map_of (cs_writers s) c \<noteq> None \<or> int (length (cs_writers s)) < cfgMaxChunkStreams (out_cfg s)"
    and "fst (Encode lib (Message m) (buf (getWriter c s))) = Err e"
    and "Write lib c ts m WaitDone s = (res, s1)"
    and "out_run lib s1 es' s2" "\<not> runDone s2"
  shows "res = Err e \<and> Wait_ready (getWriter c s2) None = []"
proof -
  have q: "queue_inv s" using queue_inv_run [OF assms(1) queue_inv_new assms(2)] .
  from Write_failed_stuck [OF q assms(3-6)] have s1: "res = Err e" "stuck c s1" by auto
  from stuck_run [OF assms(7) s1(2) assms(8)] show ?thesis
    using s1(1) by (auto simp: stuck_def queue_inv_def Wait_ready_def)
qed

theorem failed_encode_locks_stream_witness:
  "\<exists>s1. Write sampleAmf 3 0 \<lparr>StreamID = 0, Message = SetChunkSize 0\<rparr> WaitDone sampleStart =
      (Err (Errorf ''Invalid format: chunk size is out of range [1, 0x80000000)'' []), s1) \<and>
    Wait_ready (getWriter 3 s1) None = []"
proof -
  let ?m = "\<lparr>StreamID = 0, Message = SetChunkSize 0\<rparr>"
  have start: "doneClosed (getWriter 3 sampleStart)" "\<not> runDone sampleStart"
    "int (length (cs_writers sampleStart)) < cfgMaxChunkStreams (out_cfg sampleStart)"
    using sampleStart_sel by (simp_all add: getWriter_def newWriter_def)
  have enc: "fst (Encode sampleAmf (Message ?m) (buf (getWriter 3 sampleStart))) =
      Err (Errorf ''Invalid format: chunk size is out of range [1, 0x80000000)'' [])"
    by (simp add: encodeSetChunkSize_def)
  obtain res s1 where w: "Write sampleAmf 3 0 ?m WaitDone sampleStart = (res, s1)" by fastforce
  have nd: "\<not> runDone s1" using Write_keeps_done [of sampleAmf 3 0 ?m WaitDone sampleStart] w start(2) by simp
  have "out_run sampleAmf (NewChunkStreamer_out open_connection sampleCfg) [] sampleStart"
    by (simp add: sampleStart_def out_run.run_nil)
  from failed_encode_locks_stream [OF this start(2,1) disjI2 [OF start(3)] enc w out_run.run_nil nd] w
  show ?thesis by auto
qed

end
