(* ===== verification/ChunkInput.thy ===== *)
theory ChunkInput
  imports ChunkDelivery
begin

text \<open>
  The reading half of the streamer on arbitrary bytes: what it stores stays within the limits of
  the protocol and of the configuration, and the one kind of input that makes it panic. At the end,
  the case in which the two ends compute different timestamps.
\<close>

section \<open>What a reader stores\<close>

definition reader_bounded :: "ChunkStreamReader \<Rightarrow> bool" where
  "reader_bounded rd \<longleftrightarrow> length (buf rd) \<le> unat (messageLength rd) \<and> messageLength rd \<le> 0xffffff"

definition input_bounded :: "chunk_in \<Rightarrow> bool" where
  "input_bounded i \<longleftrightarrow> (\<forall>p \<in> set (cs_readers i). reader_bounded (snd p)) \<and>
     (cs_readers i \<noteq> [] \<longrightarrow> int (length (cs_readers i)) \<le> cfgMaxChunkStreams (in_cfg i))"

lemma set_set_key: "p \<in> set (set_key k v t) \<Longrightarrow> p = (k, v) \<or> p \<in> set t"
  by (induction t) (auto split: if_splits)

text \<open>A decoded length has 24 bits.\<close>

lemma csr_exact_length: "csr_ReadAtLeast r n n = (Ok bs, r') \<Longrightarrow> length bs = n"
  using csr.ral_exact_inv by blast

lemma decoded_length:
  assumes "decodeChunkMessageHeader csr_ReadAtLeast r f mh0 = (Ok mh, r')" "mh_messageLength mh0 \<le> 0xffffff"
  shows "mh_messageLength mh \<le> 0xffffff"
  using assms
  by (auto simp: decodeChunkMessageHeader_def bindo_Ok_iff Let_def get_be24_bound split: if_splits
      dest!: csr_exact_length)

lemma applyHeader_bounded:
  assumes "applyHeader bh mh rd = Ok rd'" "mh_messageLength mh \<le> 0xffffff" "messageLength rd \<le> 0xffffff"
  shows "messageLength rd' \<le> 0xffffff"
  using assms by (auto simp: applyHeader_def resetCompleted_def Let_def split: if_splits)

lemma readPayload_bounded:
  assumes "readPayload c rd i = (Ok c', i')" "messageLength rd \<le> 0xffffff"
  obtains rd' where "reader_bounded rd'" "cs_readers i' = set_key c rd' (cs_readers i)" "in_cfg i' = in_cfg i"
    "peerState i' = peerState i"
proof -
  define e where "e = uint (messageLength rd) - int (length (buf rd))"
  define n where "n = nat (if (word_of_int e :: u32) > chunkSize (peerState i) then uint (chunkSize (peerState i)) else e)"
  obtain r where cp: "csr_CopyLimit (cs_r i) n = ((take n (csr_pending (cs_r i)),
      if length (csr_pending (cs_r i)) < n \<and> csr_fin (cs_r i) \<noteq> EOF then Some (csr_fin (cs_r i)) else None), r)"
    using csr_copy [of "cs_r i" n] by blast
  have pos: "0 < e" using assms(1) by (auto simp: readPayload_def Let_def e_def split: if_splits)
  have le: "int n \<le> e"
  proof (cases "(word_of_int e :: u32) > chunkSize (peerState i)")
    case True
    have "uint (messageLength rd) < 2 ^ 32" using unsigned_less [of "messageLength rd", where 'a = int] by simp
    then have "e < 2 ^ 32" by (simp add: e_def)
    with pos have "uint (word_of_int e :: u32) = e" by (simp only: uint_word_of_int) simp
    with True pos show ?thesis by (simp add: n_def word_less_def)
  next
    case False
    with pos show ?thesis by (simp add: n_def)
  qed
  then have len: "length (buf rd) + min (length (csr_pending (cs_r i))) n \<le> unat (messageLength rd)"
  proof -
    have "int (unat (messageLength rd)) = uint (messageLength rd)" by (rule uint_nat [symmetric])
    with le show ?thesis unfolding e_def by linarith
  qed
  define bs where "bs = take n (csr_pending (cs_r i))"
  define rd1 where "rd1 = rd\<lparr>buf := buf rd @ bs\<rparr>"
  define rd2 where "rd2 = rd1\<lparr>timestamp := timestamp rd1 + timestampDelta rd1, completed := True\<rparr>"
  have b: "reader_bounded rd1" "reader_bounded rd2"
    using len assms(2) by (simp_all add: reader_bounded_def rd1_def rd2_def bs_def)
  from assms(1) have "i' = putReader c rd1 (i\<lparr>cs_r := r\<rparr>) \<or> i' = putReader c rd2 (i\<lparr>cs_r := r\<rparr>)"
    unfolding readPayload_def Let_def e_def [symmetric] n_def [symmetric] cp rd2_def rd1_def bs_def
    by (auto split: if_splits)
  then show ?thesis
    using that [OF b(1)] that [OF b(2)] by (auto simp: putReader_def)
qed

lemma input_bounded_put:
  assumes "input_bounded i" "reader_bounded rd" "cs_readers i' = set_key c rd (cs_readers i)"
    "in_cfg i' = in_cfg i" "reader_room c i"
  shows "input_bounded i'"
proof -
  have "map_of (cs_readers i) c \<noteq> None \<Longrightarrow> cs_readers i \<noteq> []" by auto
  with assms show ?thesis
    by (auto simp: input_bounded_def length_set_key reader_room_def dest!: set_set_key)
qed

lemma getReader_bounded: "input_bounded i \<Longrightarrow> reader_bounded (getReader c i)"
  by (auto simp: getReader_def input_bounded_def reader_bounded_def zeroReader_def
      split: option.splits dest!: map_of_SomeD)

text \<open>The parts of a \<open>readChunk\<close> that returns.\<close>

lemma readChunk_parts:
  assumes "readChunk i = (Ok c, i')"
  obtains bh r1 mh r2 rd i3 where
    "decodeChunkBasicHeader csr_ReadAtLeast (cs_r i) cacheBufferLen = (Ok bh, r1)"
    "decodeChunkMessageHeader csr_ReadAtLeast r1 (fmt bh) zeroMessageHeader = (Ok mh, r2)"
    "reader_room (chunkStreamID bh) i" "applyHeader bh mh (getReader (chunkStreamID bh) i) = Ok rd"
    "readPayload (chunkStreamID bh) rd i3 = (Ok c, i')" "in_cfg i3 = in_cfg i" "peerState i3 = peerState i"
    "\<And>x. set_key (chunkStreamID bh) x (cs_readers i3) = set_key (chunkStreamID bh) x (cs_readers i)"
proof -
  from assms obtain bh r1 mh r2 rd0 i3 rd where
    bh: "decodeChunkBasicHeader csr_ReadAtLeast (cs_r i) cacheBufferLen = (Ok bh, r1)" and
    mh: "decodeChunkMessageHeader csr_ReadAtLeast r1 (fmt bh) zeroMessageHeader = (Ok mh, r2)" and
    pr: "wrap_err ''Failed to prepare chunk reader''
      (prepareChunkReader (chunkStreamID bh) (i\<lparr>cs_r := r2\<rparr>)) = (Ok rd0, i3)" and
    ap: "applyHeader bh mh rd0 = Ok rd" and
    rp: "readPayload (chunkStreamID bh) rd i3 = (Ok c, i')"
    by (auto simp: readChunk_def bindo_Ok_iff with_r_Ok)
  have "rd0 = getReader (chunkStreamID bh) i \<and> reader_room (chunkStreamID bh) i \<and> in_cfg i3 = in_cfg i \<and>
      peerState i3 = peerState i \<and>
      (\<forall>x. set_key (chunkStreamID bh) x (cs_readers i3) = set_key (chunkStreamID bh) x (cs_readers i))"
    using pr by (cases "map_of (cs_readers i) (chunkStreamID bh)")
      (auto simp: prepareChunkReader_def wrap_err_def getReader_def reader_room_def split: if_splits)
  then show ?thesis using that [OF bh mh] ap rp by simp
qed

lemma readChunk_bounded:
  assumes "readChunk i = (Ok c, i')" "input_bounded i"
  shows "input_bounded i' \<and> in_cfg i' = in_cfg i \<and> peerState i' = peerState i"
proof -
  from readChunk_parts [OF assms(1)] obtain bh r1 mh r2 rd i3 where
    h: "decodeChunkMessageHeader csr_ReadAtLeast r1 (fmt bh) zeroMessageHeader = (Ok mh, r2)"
      "reader_room (chunkStreamID bh) i" "applyHeader bh mh (getReader (chunkStreamID bh) i) = Ok rd"
      "readPayload (chunkStreamID bh) rd i3 = (Ok c, i')" "in_cfg i3 = in_cfg i" "peerState i3 = peerState i"
      "\<And>x. set_key (chunkStreamID bh) x (cs_readers i3) = set_key (chunkStreamID bh) x (cs_readers i)"
    by metis
  have "mh_messageLength mh \<le> 0xffffff" using decoded_length [OF h(1)] by (simp add: zeroMessageHeader_def)
  with applyHeader_bounded [OF h(3)] getReader_bounded [OF assms(2)]
  have "messageLength rd \<le> 0xffffff" by (simp add: reader_bounded_def)
  from readPayload_bounded [OF h(4) this] obtain rd' where "reader_bounded rd'"
    "cs_readers i' = set_key (chunkStreamID bh) rd' (cs_readers i3)" "in_cfg i' = in_cfg i3" "peerState i' = peerState i3" .
  with input_bounded_put [OF assms(2), of rd' i' "chunkStreamID bh"] h show ?thesis by simp
qed

lemma NewChunkReader_bounded:
  assumes "NewChunkReader sendAck (i, w) = (Ok c, (i', w'))" "input_bounded i"
  shows "input_bounded i' \<and> in_cfg i' = in_cfg i \<and> peerState i' = peerState i"
  using assms
proof (induction sendAck "(i, w)" arbitrary: i w rule: NewChunkReader.induct)
  case (1 sendAck i w)
  from "1.prems"(1) obtain c1 i1 where rc: "readChunk i = (Ok c1, i1)"
    by (subst (asm) NewChunkReader.simps) (auto split: prod.splits outcome.splits)
  from "1.prems"(1) rc obtain i2 w2 where ack: "acknowledge sendAck (i1, w) = (Ok (), (i2, w2))"
    by (subst (asm) NewChunkReader.simps) (auto split: prod.splits outcome.splits)
  have b1: "input_bounded i1 \<and> in_cfg i1 = in_cfg i \<and> peerState i1 = peerState i"
    by (rule readChunk_bounded [OF rc "1.prems"(2)])
  have "cs_readers i2 = cs_readers i1 \<and> in_cfg i2 = in_cfg i1 \<and> peerState i2 = peerState i1"
    using ack by (auto simp: acknowledge_def split: if_splits prod.splits outcome.splits)
  with b1 have b2: "input_bounded i2 \<and> in_cfg i2 = in_cfg i \<and> peerState i2 = peerState i"
    by (auto simp add: input_bounded_def)
  show ?case
  proof (cases "reader_completed i2 c1")
    case True
    with "1.prems"(1) rc ack b2 show ?thesis by (simp add: NewChunkReader.simps [of sendAck i w])
  next
    case False
    with "1.prems"(1) rc ack have "NewChunkReader sendAck (i2, w2) = (Ok c, (i', w'))"
      by (simp add: NewChunkReader.simps [of sendAck i w])
    from "1.hyps" [OF rc [symmetric] refl ack [symmetric] refl refl False this] b2 show ?thesis by simp
  qed
qed

section \<open>Reading messages\<close>

text \<open>What is relied on of the AMF library's decoders: they leave no more than they were given.\<close>

definition amf_shrink_law :: "amf0_lib \<Rightarrow> bool" where
  "amf_shrink_law lib \<longleftrightarrow> (\<forall>r. length (snd (amf_dec_string lib r)) \<le> length r \<and>
     length (snd (amf_dec_int64 lib r)) \<le> length r)"

lemma buffer_ral_shrinks: "m \<le> n \<Longrightarrow> length (snd (buffer_ReadAtLeast b n m)) \<le> length b"
  by (cases "m \<le> length b") (use bbuf.ral_ok [of m n b] bbuf.ral_short [of m n b] in auto)

lemma snd_andthen_shrinks:
  assumes "length (snd p) \<le> k" "\<And>x v. length v \<le> k \<Longrightarrow> length (snd (f x v)) \<le> k"
  shows "length (snd (andthen p f)) \<le> (k :: nat)"
  using assms by (cases p; cases "fst p") auto

lemma decodeU32_shrinks: "length b \<le> k \<Longrightarrow> length (snd (decodeU32 buffer_ReadAtLeast mk b)) \<le> k"
  using buffer_ral_shrinks [of 4 4 b] by (auto simp: decodeU32_def intro!: snd_andthen_shrinks)

lemma decodeUserCtrl_shrinks: "length (snd (decodeUserCtrl buffer_ReadAtLeast b)) \<le> length b"
proof -
  have 8: "length (snd (decodeSetBufferLength buffer_ReadAtLeast v)) \<le> k" if "length v \<le> k" for v k
    using that buffer_ral_shrinks [of 8 8 v] by (auto simp: decodeSetBufferLength_def intro!: snd_andthen_shrinks)
  have "length (snd (UserControlEventDecode buffer_ReadAtLeast b)) \<le> length b"
    unfolding UserControlEventDecode_def
    by (rule snd_andthen_shrinks) (auto simp: Let_def buffer_ral_shrinks decodeU32_shrinks 8)
  then show ?thesis by (auto simp: decodeUserCtrl_def split: prod.splits outcome.splits)
qed

lemma Decode_shrinks:
  assumes "amf_shrink_law lib"
  shows "length (snd (Decode lib tid b)) \<le> length b"
proof -
  have s: "length (snd (amf_dec_string lib v)) \<le> k" "length (snd (amf_dec_int64 lib v)) \<le> k"
    if "length v \<le> k" for v k
    using assms that by (auto simp: amf_shrink_law_def intro: order_trans)
  have "length (snd (decodeSetChunkSize buffer_ReadAtLeast b)) \<le> length b"
    unfolding decodeSetChunkSize_def by (rule snd_andthen_shrinks) (simp_all add: Let_def buffer_ral_shrinks)
  moreover have "length (snd (decodeSetPeerBandwidth buffer_ReadAtLeast b)) \<le> length b"
    unfolding decodeSetPeerBandwidth_def by (rule snd_andthen_shrinks) (simp_all add: buffer_ral_shrinks)
  moreover have "length (snd (decodeDataMessageAMF0 lib b)) \<le> length b"
    unfolding decodeDataMessageAMF0_def decodeDataMessage_def by (rule snd_andthen_shrinks) (simp_all add: wrap_err_def s)
  moreover have "length (snd (decodeCommandMessageAMF0 lib b)) \<le> length b"
    unfolding decodeCommandMessageAMF0_def decodeCommandMessage_def
    by (rule snd_andthen_shrinks) (auto simp: wrap_err_def s intro!: snd_andthen_shrinks)
  ultimately show ?thesis
    by (simp add: Decode_def Let_def decodeUserCtrl_shrinks decodeU32_shrinks not_implemented_def)
qed

lemma Read_bounded:
  assumes "Read lib sendAck (i, w) = (Ok x, (i', w'))" "input_bounded i" "amf_shrink_law lib"
  shows "input_bounded i' \<and> in_cfg i' = in_cfg i"
proof -
  from assms(1) obtain c i1 w1 rd where n: "NewChunkReader sendAck (i, w) = (Ok c, (i1, w1))"
    "map_of (cs_readers i1) c = Some rd"
    by (auto simp: Read_def bindo_Ok_iff split: option.splits)
  have b: "input_bounded i1" "in_cfg i1 = in_cfg i" using NewChunkReader_bounded [OF n(1) assms(2)] by auto
  obtain res r where dec: "Decode lib (messageTypeID rd) (buf rd) = (res, r)" by fastforce
  have "reader_bounded (rd\<lparr>buf := r\<rparr>)"
    using getReader_bounded [OF b(1), of c] Decode_shrinks [OF assms(3), of "messageTypeID rd" "buf rd"] n(2) dec
    by (simp add: getReader_def reader_bounded_def)
  moreover have "i' = putReader c (rd\<lparr>buf := r\<rparr>) i1"
    using assms(1) n dec by (auto simp: Read_def Let_def split: outcome.splits)
  ultimately show ?thesis
    using input_bounded_put [OF b(1), of "rd\<lparr>buf := r\<rparr>" i' c] n(2) b(2) by (auto simp: putReader_def reader_room_def)
qed

lemma Reads_bounded:
  assumes "Reads lib sendAck n (i, w) = (Ok xs, (i', w'))" "input_bounded i" "amf_shrink_law lib"
  shows "input_bounded i' \<and> in_cfg i' = in_cfg i"
  using assms
proof (induction n arbitrary: i w xs)
  case (Suc n)
  from Suc.prems(1) obtain x i1 w1 ys where s: "Read lib sendAck (i, w) = (Ok x, (i1, w1))"
    "Reads lib sendAck n (i1, w1) = (Ok ys, (i', w'))"
    by (auto simp: bindo_Ok_iff)
  from Suc.IH [OF s(2)] Read_bounded [OF s(1)] Suc.prems show ?case by auto
qed auto

section \<open>Properties\<close>

text \<open>
  C32. Whatever bytes the peer sends, in whatever segmentation: after any number of successful calls
  of \<open>Read\<close> on a new streamer no more chunk stream readers exist than the configuration allows, and
  each of them holds at most the length its header announced, which is below \<open>2 ^ 24\<close>.
\<close>

theorem peer_input_bounded:
  assumes "Reads lib sendAck n (NewChunkStreamer_in r cfg, w) = (Ok xs, (i, w'))" "amf_shrink_law lib"
    and "0 \<le> cfgMaxChunkStreams (configOf cfg)"
  shows "int (length (cs_readers i)) \<le> cfgMaxChunkStreams (configOf cfg) \<and>
    (\<forall>p \<in> set (cs_readers i). length (buf (snd p)) \<le> unat (messageLength (snd p)) \<and> messageLength (snd p) \<le> 0xffffff)"
proof -
  have "input_bounded (NewChunkStreamer_in r cfg)" by (simp add: input_bounded_def NewChunkStreamer_in_def)
  from Reads_bounded [OF assms(1) this assms(2)] assms(3) show ?thesis
    by (auto simp: input_bounded_def reader_bounded_def NewChunkStreamer_in_def)
qed

lemma sampleAmf_shrink: "amf_shrink_law sampleAmf"
  by (simp add: amf_shrink_law_def sampleAmf_def Let_def)

theorem peer_input_bounded_witness:
  "\<exists>xs i w'. Reads sampleAmf (\<lambda>_ w. (Ok (), w)) (length xs)
       (NewChunkStreamer_in \<lparr>segs = [sent (cs_w sampleEnd)], end_err = EOF\<rparr> sampleCfg, ()) = (Ok xs, (i, w')) \<and>
     xs \<noteq> [] \<and> int (length (cs_readers i)) \<le> cfgMaxChunkStreams (configOf sampleCfg) \<and>
     list_all (\<lambda>p. length (buf (snd p)) \<le> unat (messageLength (snd p)) \<and> messageLength (snd p) \<le> 0xffffff) (cs_readers i)"
proof -
  obtain ms i w' where ms: "Reads sampleAmf (\<lambda>_ w. (Ok (), w)) (length ms)
      (NewChunkStreamer_in \<lparr>segs = [sent (cs_w sampleEnd)], end_err = EOF\<rparr> sampleCfg, ()) = (Ok ms, (i, w'))"
    "on 4 ms = [(4, 10, sampleAudio)]"
    using sample_reads by auto
  then have "ms \<noteq> []" by auto
  with ms(1) peer_input_bounded [OF ms(1) sampleAmf_shrink sampleStart_sel(9)] show ?thesis unfolding list_all_iff by blast
qed

text \<open>
  C39. A chunk of type 0 or 1 that announces an empty message makes \<open>readChunk\<close> panic, on any state of
  the chunk stream with room for it: a peer, or a caller that writes an empty payload to one, ends
  the connection by panic.
\<close>

theorem empty_message_panics:
  assumes "basicHeaderBytes bh = Ok hb" "messageHeaderBytes (fmt bh) mh = Ok mb"
    and "fmt bh = 0 \<or> fmt bh = 1" "take_bit 24 (mh_messageLength mh) = 0"
    and "chunkStreamID bh < 320" "reader_room (chunkStreamID bh) i"
    and "csr_pending (cs_r i) = hb @ mb @ rest"
  shows "fst (readChunk i) = Panic ''invalid state''"
proof -
  have f: "fmt bh \<le> 3" using assms(3) by (auto simp: word_le_nat_alt)
  define rd0 where "rd0 = getReader (chunkStreamID bh) i"
  obtain rd where rd: "applyHeader bh (wireHeader (fmt bh) mh zeroMessageHeader) rd0 = Ok rd" "messageLength rd = 0"
    using assms(3,4) by (auto simp: applyHeader_def wireHeader_def Let_def)
  from readChunk_headers [OF assms(1,2) f assms(5,6) rd(1) [unfolded rd0_def] assms(7)] obtain i' where
    "readChunk i = readPayload (chunkStreamID bh) rd i'" by blast
  then show ?thesis using rd(2) by (simp add: readPayload_def)
qed

theorem empty_message_panics_witness:
  "fst (readChunk (NewChunkStreamer_in \<lparr>segs = [[4, 0, 0, 0], [0, 0, 0, 8, 1, 0, 0, 0]], end_err = EOF\<rparr> None)) =
    Panic ''invalid state''"
proof (rule empty_message_panics [where bh = "\<lparr>fmt = 0, chunkStreamID = 4\<rparr>" and mh = "\<lparr>mh_timestamp = 0,
      mh_timestampDelta = 0, mh_messageLength = 0, mh_messageTypeID = 8, mh_messageStreamID = 1\<rparr>" and
      hb = "[4]" and mb = "[0, 0, 0, 0, 0, 0, 8, 1, 0, 0, 0]" and rest = "[]"])
  show "messageHeaderBytes (fmt \<lparr>fmt = 0, chunkStreamID = 4\<rparr>) \<lparr>mh_timestamp = 0,
      mh_timestampDelta = 0, mh_messageLength = 0, mh_messageTypeID = 8, mh_messageStreamID = 1\<rparr> =
    Ok [0, 0, 0, 0, 0, 0, 8, 1, 0, 0, 0]" by code_simp
qed (simp_all add: basicHeaderBytes_def reader_room_def NewChunkStreamer_in_def csr_pending_def
    transport_pending_def configOf_def defaultStreamControlStateConfig_def normalize_def zeroConfig_def)

text \<open>
  C40. The two ends disagree on a timestamp. When the message stream of a chunk stream changes and
  the timestamp grows by \<open>d\<close>, the writer remembers the delta \<open>d\<close> but the reader resets its own to 0.
  If the next message has the same length and type and its timestamp grows by \<open>d\<close> again, the writer
  sends it as type 3, and the reader gives it the timestamp of the message before.
\<close>

theorem delta_forgotten:
  assumes "newChunk w" "messageStreamID w \<noteq> mh_messageStreamID (messageHeader w)"
    and "mh_timestamp (messageHeader w) < timestamp w" "ts = timestamp w + (timestamp w - mh_timestamp (messageHeader w))"
    and "timestamp w \<le> ts"
    and "w1 = updateWriterHeader w"
    and "applyHeader (basicHeader w1) (wireHeader (fmt (basicHeader w1)) (messageHeader w1) zeroMessageHeader) rd = Ok rd1"
    and "w2 = updateWriterHeader (w1\<lparr>newChunk := True, timestamp := ts\<rparr>)"
    and "applyHeader (basicHeader w2) (wireHeader (fmt (basicHeader w2)) (messageHeader w2) zeroMessageHeader)
      (rd1\<lparr>completed := True\<rparr>) = Ok rd2"
  shows "fmt (basicHeader w2) = 3 \<and> timestamp rd2 + timestampDelta rd2 = timestamp w \<and> timestamp w < ts"
proof -
  define d where "d = timestamp w - mh_timestamp (messageHeader w)"
  have d: "d \<noteq> 0" "nextDelta w = d" "ts = timestamp w + d" using assms(3,4) by (auto simp: d_def nextDelta_def)
  have lt: "timestamp w < ts" using assms(5) d by (auto simp: order_le_less)
  have w1: "w1 = w\<lparr>newChunk := False, timestampDelta := d,
      messageHeader := \<lparr>mh_timestamp = timestamp w, mh_timestampDelta = d,
        mh_messageLength = messageLength w, mh_messageTypeID = messageTypeID w,
        mh_messageStreamID = messageStreamID w\<rparr>,
      basicHeader := (basicHeader w)\<lparr>fmt := 0\<rparr>\<rparr>"
    using update_first_chunk [OF assms(1)] assms(2,6) d by (simp add: nextFmt_def)
  have rd1: "timestamp rd1 = timestamp w" "timestampDelta rd1 = 0"
    using assms(7) unfolding w1 by (auto simp: applyHeader_def wireHeader_def Let_def)
  have n2: "nextDelta (w1\<lparr>newChunk := True, timestamp := ts\<rparr>) = d"
    using assms(5) d by (simp add: nextDelta_def w1)
  have f2: "nextFmt (w1\<lparr>newChunk := True, timestamp := ts\<rparr>) = 3"
    using assms(5) n2 by (simp add: nextFmt_def not_less) (simp add: w1)
  have "fmt (basicHeader w2) = 3"
    using update_first_chunk [of "w1\<lparr>newChunk := True, timestamp := ts\<rparr>"] assms(8) f2 by simp
  moreover from this have "timestamp rd2 = timestamp rd1 \<and> timestampDelta rd2 = timestampDelta rd1"
    using assms(9) by (auto simp: applyHeader_def resetCompleted_def Let_def split: if_splits)
  ultimately show ?thesis using rd1 lt by simp
qed

text \<open>A message at 10 on message stream 0, then 30 and 50 on message stream 1.\<close>

definition deltaWriter :: ChunkStreamWriter where
  "deltaWriter = (newWriter 4)\<lparr>messageHeader := \<lparr>mh_timestamp = 10, mh_timestampDelta = 0,
     mh_messageLength = 3, mh_messageTypeID = 8, mh_messageStreamID = 0\<rparr>, timestamp := 30,
     messageLength := 3, messageTypeID := 8, messageStreamID := 1, buf := [7, 8, 9]\<rparr>"

theorem delta_forgotten_witness:
  "\<exists>rd1 rd2. applyHeader (basicHeader (updateWriterHeader deltaWriter))
      (wireHeader (fmt (basicHeader (updateWriterHeader deltaWriter)))
        (messageHeader (updateWriterHeader deltaWriter)) zeroMessageHeader) zeroReader = Ok rd1 \<and>
    applyHeader (basicHeader (updateWriterHeader ((updateWriterHeader deltaWriter)\<lparr>newChunk := True, timestamp := 50\<rparr>)))
      (wireHeader (fmt (basicHeader (updateWriterHeader ((updateWriterHeader deltaWriter)\<lparr>newChunk := True, timestamp := 50\<rparr>))))
        (messageHeader (updateWriterHeader ((updateWriterHeader deltaWriter)\<lparr>newChunk := True, timestamp := 50\<rparr>)))
        zeroMessageHeader) (rd1\<lparr>completed := True\<rparr>) = Ok rd2 \<and>
    timestamp rd2 + timestampDelta rd2 = 30"
proof -
  let ?w1 = "updateWriterHeader deltaWriter"
  let ?w2 = "updateWriterHeader (?w1\<lparr>newChunk := True, timestamp := 50\<rparr>)"
  have total: "\<exists>x. applyHeader bh mh rd = Ok x" if "fmt bh = 0 \<or> fmt bh = 3" for bh mh rd
    using that by (auto simp: applyHeader_def Let_def)
  have w1: "?w1 = deltaWriter\<lparr>newChunk := False, timestampDelta := 20, messageHeader := \<lparr>mh_timestamp = 30,
      mh_timestampDelta = 20, mh_messageLength = 3, mh_messageTypeID = 8, mh_messageStreamID = 1\<rparr>,
      basicHeader := \<lparr>fmt = 0, chunkStreamID = 4\<rparr>\<rparr>"
    by (subst update_first_chunk) (simp_all add: deltaWriter_def newWriter_def nextFmt_def nextDelta_def)
  have dw: "messageStreamID deltaWriter = 1" "messageLength deltaWriter = 3" "messageTypeID deltaWriter = 8"
    "timestamp deltaWriter = 30" "basicHeader deltaWriter = \<lparr>fmt = 0, chunkStreamID = 4\<rparr>"
    by (simp_all add: deltaWriter_def newWriter_def)
  have f2: "fmt (basicHeader ?w2) = 3"
    using dw by (subst update_first_chunk) (simp_all add: w1 nextFmt_def nextDelta_def)
  obtain rd1 rd2 where
    rd1: "applyHeader (basicHeader ?w1) (wireHeader (fmt (basicHeader ?w1)) (messageHeader ?w1) zeroMessageHeader)
      zeroReader = Ok rd1" and
    rd2: "applyHeader (basicHeader ?w2) (wireHeader (fmt (basicHeader ?w2)) (messageHeader ?w2) zeroMessageHeader)
      (rd1\<lparr>completed := True\<rparr>) = Ok rd2"
  proof -
    have "fmt (basicHeader ?w1) = 0" by (simp add: w1)
    then obtain rd1 where "applyHeader (basicHeader ?w1) (wireHeader (fmt (basicHeader ?w1)) (messageHeader ?w1)
        zeroMessageHeader) zeroReader = Ok rd1" using total by blast
    moreover obtain rd2 where "applyHeader (basicHeader ?w2) (wireHeader (fmt (basicHeader ?w2)) (messageHeader ?w2)
        zeroMessageHeader) (rd1\<lparr>completed := True\<rparr>) = Ok rd2" using total f2 by blast
    ultimately show ?thesis by (rule that)
  qed
  have "timestamp rd2 + timestampDelta rd2 = timestamp deltaWriter"
    using delta_forgotten [OF _ _ _ _ _ refl rd1 refl rd2]
    by (simp add: deltaWriter_def newWriter_def)
  then show ?thesis using rd1 rd2 by (auto simp: deltaWriter_def)
qed

end
