(* ===== verification/BodyCodec.thy ===== *)
theory BodyCodec
  imports Messages
begin

text \<open>
  Package message: the bodies of commands and data messages (net_connection.go, net_stream.go), how
  they become AMF arguments (\<open>ToArgs\<close>, body_encoder.go) and how the arguments become bodies again
  (\<open>FromArgs\<close>, body_decoder.go), with the tables of decoders by command name.

  A body is one datatype, its constructors the Go types. The mapstructure library, which fills a
  struct from a map, is the argument \<open>mapstructure\<close>. Go's maps have no order; \<open>AMap\<close> lists the entries
  in the order of the source. Error texts leave out the quotes around command names.
\<close>

section \<open>Bodies\<close>

record NetConnectionConnectCommand =
  App :: string
  Type :: string
  FlashVer :: string
  TCURL :: string
  Fpad :: bool
  Capabilities :: int
  AudioCodecs :: int
  VideoCodecs :: int
  VideoFunction :: int
  ObjectEncoding :: byte

record NetConnectionConnectResultProperties =
  FMSVer :: string
  PropCapabilities :: int
  Mode :: int

record NetConnectionConnectResultInformation =
  Level :: string
  Code :: string
  Description :: string
  Data :: "(string \<times> amf_value) list"

definition NetConnectionConnectCodeSuccess :: string where
  "NetConnectionConnectCodeSuccess = ''NetConnection.Connect.Success''"
definition NetConnectionConnectCodeFailed :: string where
  "NetConnectionConnectCodeFailed = ''NetConnection.Connect.Failed''"
definition NetConnectionConnectCodeClosed :: string where
  "NetConnectionConnectCodeClosed = ''NetConnection.Connect.Closed''"

definition NetStreamOnStatusLevelStatus :: string where
  "NetStreamOnStatusLevelStatus = ''status''"
definition NetStreamOnStatusLevelError :: string where
  "NetStreamOnStatusLevelError = ''error''"
definition NetStreamOnStatusCodeConnectFailed :: string where
  "NetStreamOnStatusCodeConnectFailed = ''NetStream.Connect.Failed''"
definition NetStreamOnStatusCodePlayStart :: string where
  "NetStreamOnStatusCodePlayStart = ''NetStream.Play.Start''"
definition NetStreamOnStatusCodePlayFailed :: string where
  "NetStreamOnStatusCodePlayFailed = ''NetStream.Play.Failed''"
definition NetStreamOnStatusCodePublishBadName :: string where
  "NetStreamOnStatusCodePublishBadName = ''NetStream.Publish.BadName''"
definition NetStreamOnStatusCodePublishFailed :: string where
  "NetStreamOnStatusCodePublishFailed = ''NetStream.Publish.Failed''"
definition NetStreamOnStatusCodePublishStart :: string where
  "NetStreamOnStatusCodePublishStart = ''NetStream.Publish.Start''"

datatype amf_body =
    NetConnectionConnect NetConnectionConnectCommand
  | NetConnectionConnectResult NetConnectionConnectResultProperties NetConnectionConnectResultInformation
  | NetConnectionCreateStream
  | NetConnectionCreateStreamResult u32
  | NetConnectionReleaseStream string
  | NetStreamPublish string string
  | NetStreamPlay string i64
  | NetStreamOnStatus string string string
  | NetStreamDeleteStream u32
  | NetStreamFCPublish string
  | NetStreamFCUnpublish string
  | NetStreamReleaseStream string
  | NetStreamSetDataFrame "byte list" amf_value
  | NetStreamGetStreamLength string
  | NetStreamPing
  | NetStreamCloseStream

section \<open>ToArgs and the body encoder\<close>

definition command_struct :: "NetConnectionConnectCommand \<Rightarrow> amf_value" where
  "command_struct c = AStruct ''NetConnectionConnectCommand''
     [(''app'', AString (App c)), (''type'', AString (Type c)), (''flashVer'', AString (FlashVer c)),
      (''tcUrl'', AString (TCURL c)), (''fpad'', ABool (Fpad c)), (''capabilities'', AInt (Capabilities c)),
      (''audioCodecs'', AInt (AudioCodecs c)), (''videoCodecs'', AInt (VideoCodecs c)),
      (''videoFunction'', AInt (VideoFunction c)), (''objectEncoding'', AUint8 (ObjectEncoding c))]"

definition properties_struct :: "NetConnectionConnectResultProperties \<Rightarrow> amf_value" where
  "properties_struct p = AStruct ''NetConnectionConnectResultProperties''
     [(''fmsVer'', AString (FMSVer p)), (''capabilities'', AInt (PropCapabilities p)), (''mode'', AInt (Mode p))]"

definition information_struct :: "NetConnectionConnectResultInformation \<Rightarrow> amf_value" where
  "information_struct i = AStruct ''NetConnectionConnectResultInformation''
     [(''level'', AString (Level i)), (''code'', AString (Code i)), (''description'', AString (Description i)),
      (''data'', AECMAArray (Data i))]"

fun ToArgs :: "amf_body \<Rightarrow> amf_value list outcome" where
  "ToArgs (NetConnectionConnect c) = Ok [command_struct c]"
| "ToArgs (NetConnectionConnectResult p i) = Ok [properties_struct p, information_struct i]"
| "ToArgs NetConnectionCreateStream = Ok [ANil]"
| "ToArgs (NetConnectionCreateStreamResult sid) = Ok [ANil, AUint32 sid]"
| "ToArgs (NetConnectionReleaseStream name) = Ok [ANil, AString name]"
| "ToArgs (NetStreamPublish name ty) = Ok [ANil, AString name, AString ty]"
| "ToArgs (NetStreamPlay name start) = Panic ''Not implemented''"
| "ToArgs (NetStreamOnStatus level code desc) =
     Ok [ANil, AMap [(''level'', AString level), (''code'', AString code), (''description'', AString desc)]]"
| "ToArgs (NetStreamDeleteStream sid) = Ok [ANil, AUint32 sid]"
| "ToArgs (NetStreamFCPublish name) = Ok [ANil, AString name]"
| "ToArgs (NetStreamFCUnpublish name) = Ok [ANil, AString name]"
| "ToArgs (NetStreamReleaseStream name) = Ok [ANil, AString name]"
| "ToArgs (NetStreamSetDataFrame payload amfData) = Ok [AString ''onMetaData'', amfData]"
| "ToArgs (NetStreamGetStreamLength name) = Ok [ANil, AString name]"
| "ToArgs NetStreamPing = Ok [ANil]"
| "ToArgs NetStreamCloseStream = Ok [ANil]"

fun encode_args :: "amf0_lib \<Rightarrow> amf_value list \<Rightarrow> byte list \<Rightarrow> unit outcome \<times> byte list" where
  "encode_args lib [] w = (Ok (), w)"
| "encode_args lib (arg # args) w = andthen (amf_write lib arg w) (\<lambda>_ w. encode_args lib args w)"

text \<open>A nil body (\<open>None\<close>) writes nothing.\<close>

definition EncodeBodyAnyValues :: "amf0_lib \<Rightarrow> amf_body option \<Rightarrow> byte list \<Rightarrow> unit outcome \<times> byte list" where
  "EncodeBodyAnyValues lib v w =
     (case v of
        None \<Rightarrow> (Ok (), w)
      | Some b \<Rightarrow> andthen (ToArgs b, w) (\<lambda>args w. encode_args lib args w))"

section \<open>The body decoders\<close>

record mapstructure =
  ms_command :: "(string \<times> amf_value) list \<Rightarrow> NetConnectionConnectCommand outcome"
  ms_properties :: "(string \<times> amf_value) list \<Rightarrow> NetConnectionConnectResultProperties outcome"
  ms_information :: "(string \<times> amf_value) list \<Rightarrow> NetConnectionConnectResultInformation outcome"

definition dec_err :: "string \<Rightarrow> nat \<Rightarrow> 'a outcome \<times> byte list \<Rightarrow> 'a outcome \<times> byte list" where
  "dec_err name k p = (map_outcome_err (\<lambda>e. Wrap e (''Failed to decode '' @ name @
     (if k = 0 then '' args[0]'' else if k = 1 then '' args[1]'' else '' args[2]''))) (fst p), snd p)"

section \<open>FromArgs\<close>

text \<open>
  An argument the caller did not give, and a type assertion on a value of another type, panic. The receiver of
  \<open>FromArgs\<close> says which body it is; it is the zero value of its type wherever the code calls it.
\<close>

definition arg :: "amf_value list \<Rightarrow> nat \<Rightarrow> amf_value outcome" where
  "arg args k = (if k < length args then Ok (args ! k) else Panic ''index out of range'')"

fun assert_map :: "amf_value \<Rightarrow> (string \<times> amf_value) list outcome" where
  "assert_map (AMap m) = Ok m"
| "assert_map _ = Panic ''interface conversion''"

fun assert_string :: "amf_value \<Rightarrow> string outcome" where
  "assert_string (AString s) = Ok s"
| "assert_string _ = Panic ''interface conversion''"

fun assert_uint32 :: "amf_value \<Rightarrow> u32 outcome" where
  "assert_uint32 (AUint32 n) = Ok n"
| "assert_uint32 _ = Panic ''interface conversion''"

fun assert_int64 :: "amf_value \<Rightarrow> i64 outcome" where
  "assert_int64 (AInt64 n) = Ok n"
| "assert_int64 _ = Panic ''interface conversion''"

fun assert_bytes :: "amf_value \<Rightarrow> byte list outcome" where
  "assert_bytes (ABytes bs) = Ok bs"
| "assert_bytes _ = Panic ''interface conversion''"

definition Connect_FromArgs :: "mapstructure \<Rightarrow> amf_value list \<Rightarrow> amf_body outcome" where
  "Connect_FromArgs ms args =
     bindr (bindr (arg args 0) assert_map) (\<lambda>command.
     bindr (map_outcome_err (\<lambda>e. Wrap e ''Failed to mapping NetConnectionConnect'') (ms_command ms command)) (\<lambda>c.
       Ok (NetConnectionConnect c)))"

definition ConnectResult_FromArgs :: "mapstructure \<Rightarrow> amf_value list \<Rightarrow> amf_body outcome" where
  "ConnectResult_FromArgs ms args =
     bindr (bindr (arg args 0) assert_map) (\<lambda>properties.
     bindr (map_outcome_err (\<lambda>e. Wrap e ''Failed to mapping NetConnectionConnectResultProperties'')
              (ms_properties ms properties)) (\<lambda>p.
     bindr (bindr (arg args 1) assert_map) (\<lambda>information.
     bindr (map_outcome_err (\<lambda>e. Wrap e ''Failed to mapping NetConnectionConnectResultInformation'')
              (ms_information ms information)) (\<lambda>i.
       Ok (NetConnectionConnectResult p i)))))"

definition CreateStreamResult_FromArgs :: "amf_value list \<Rightarrow> amf_body outcome" where
  "CreateStreamResult_FromArgs args =
     bindr (bindr (arg args 1) assert_uint32) (\<lambda>n. Ok (NetConnectionCreateStreamResult n))"

definition ReleaseStream_FromArgs :: "amf_value list \<Rightarrow> amf_body outcome" where
  "ReleaseStream_FromArgs args =
     bindr (bindr (arg args 1) assert_string) (\<lambda>name. Ok (NetConnectionReleaseStream name))"

definition Publish_FromArgs :: "amf_value list \<Rightarrow> amf_body outcome" where
  "Publish_FromArgs args =
     bindr (bindr (arg args 1) assert_string) (\<lambda>name.
     bindr (bindr (arg args 2) assert_string) (\<lambda>ty. Ok (NetStreamPublish name ty)))"

definition Play_FromArgs :: "amf_value list \<Rightarrow> amf_body outcome" where
  "Play_FromArgs args =
     bindr (bindr (arg args 1) assert_string) (\<lambda>name.
     bindr (bindr (arg args 2) assert_int64) (\<lambda>start. Ok (NetStreamPlay name start)))"

fun FromArgs :: "mapstructure \<Rightarrow> amf_body \<Rightarrow> amf_value list \<Rightarrow> amf_body outcome" where
  "FromArgs ms (NetConnectionConnect _) args = Connect_FromArgs ms args"
| "FromArgs ms (NetConnectionConnectResult _ _) args = ConnectResult_FromArgs ms args"
| "FromArgs ms NetConnectionCreateStream args = Ok NetConnectionCreateStream"
| "FromArgs ms (NetConnectionCreateStreamResult _) args = CreateStreamResult_FromArgs args"
| "FromArgs ms (NetConnectionReleaseStream _) args = ReleaseStream_FromArgs args"
| "FromArgs ms (NetStreamPublish _ _) args = Publish_FromArgs args"
| "FromArgs ms (NetStreamPlay _ _) args = Play_FromArgs args"
| "FromArgs ms (NetStreamOnStatus _ _ _) args = Panic ''Not implemented''"
| "FromArgs ms (NetStreamDeleteStream _) args = bindr (bindr (arg args 1) assert_uint32) (\<lambda>n. Ok (NetStreamDeleteStream n))"
| "FromArgs ms (NetStreamFCPublish _) args = bindr (bindr (arg args 1) assert_string) (\<lambda>name. Ok (NetStreamFCPublish name))"
| "FromArgs ms (NetStreamFCUnpublish _) args = bindr (bindr (arg args 1) assert_string) (\<lambda>name. Ok (NetStreamFCUnpublish name))"
| "FromArgs ms (NetStreamReleaseStream _) args = bindr (bindr (arg args 1) assert_string) (\<lambda>name. Ok (NetStreamReleaseStream name))"
| "FromArgs ms (NetStreamSetDataFrame _ amfData) args =
     bindr (bindr (arg args 0) assert_bytes) (\<lambda>payload. Ok (NetStreamSetDataFrame payload amfData))"
| "FromArgs ms (NetStreamGetStreamLength _) args =
     bindr (bindr (arg args 1) assert_string) (\<lambda>name. Ok (NetStreamGetStreamLength name))"
| "FromArgs ms NetStreamPing args = Ok NetStreamPing"
| "FromArgs ms NetStreamCloseStream args = Ok NetStreamCloseStream"

section \<open>The decoders of commands\<close>

text \<open>A decoder ends with \<open>FromArgs\<close> on the values it read, its error wrapped.\<close>

definition zeroConnectCommand :: NetConnectionConnectCommand where
  "zeroConnectCommand = \<lparr>App = [], Type = [], FlashVer = [], TCURL = [], Fpad = False, Capabilities = 0,
     AudioCodecs = 0, VideoCodecs = 0, VideoFunction = 0, ObjectEncoding = 0\<rparr>"

definition zeroConnectResult :: amf_body where
  "zeroConnectResult = NetConnectionConnectResult \<lparr>FMSVer = [], PropCapabilities = 0, Mode = 0\<rparr>
     \<lparr>Level = [], Code = [], Description = [], Data = []\<rparr>"

definition reconstruct :: "mapstructure \<Rightarrow> string \<Rightarrow> amf_body \<Rightarrow> amf_value list \<Rightarrow> amf_body outcome" where
  "reconstruct ms name cmd args = map_outcome_err (\<lambda>e. Wrap e (''Failed to reconstruct '' @ name)) (FromArgs ms cmd args)"

definition DecodeBodyConnect :: "amf0_lib \<Rightarrow> mapstructure \<Rightarrow> byte list \<Rightarrow> amf_body outcome \<times> byte list" where
  "DecodeBodyConnect lib ms r =
     andthen (dec_err ''connect'' 0 (amf_dec_map lib r)) (\<lambda>object r.
       (reconstruct ms ''connect'' (NetConnectionConnect zeroConnectCommand) [AMap object], r))"

definition DecodeBodyConnectResult :: "amf0_lib \<Rightarrow> mapstructure \<Rightarrow> byte list \<Rightarrow> amf_body outcome \<times> byte list" where
  "DecodeBodyConnectResult lib ms r =
     andthen (dec_err ''connect.result'' 0 (amf_dec_any lib r)) (\<lambda>properties r.
     andthen (dec_err ''connect.result'' 1 (amf_dec_any lib r)) (\<lambda>information r.
       (reconstruct ms ''connect.result'' zeroConnectResult [properties, information], r)))"

text \<open>Most bodies are an ignored command object, then nothing, a name or a stream id.\<close>

definition DecodeBodyNil :: "amf0_lib \<Rightarrow> mapstructure \<Rightarrow> string \<Rightarrow> amf_body \<Rightarrow> byte list \<Rightarrow> amf_body outcome \<times> byte list" where
  "DecodeBodyNil lib ms name cmd r =
     andthen (dec_err name 0 (amf_dec_any lib r)) (\<lambda>object r. (reconstruct ms name cmd [object], r))"

definition DecodeBodyName :: "amf0_lib \<Rightarrow> mapstructure \<Rightarrow> string \<Rightarrow> amf_body \<Rightarrow> byte list \<Rightarrow> amf_body outcome \<times> byte list" where
  "DecodeBodyName lib ms name cmd r =
     andthen (dec_err name 0 (amf_dec_any lib r)) (\<lambda>commandObject r.
     andthen (dec_err name 1 (amf_dec_string lib r)) (\<lambda>streamName r.
       (reconstruct ms name cmd [commandObject, AString streamName], r)))"

definition DecodeBodyStreamID :: "amf0_lib \<Rightarrow> mapstructure \<Rightarrow> string \<Rightarrow> amf_body \<Rightarrow> byte list \<Rightarrow> amf_body outcome \<times> byte list" where
  "DecodeBodyStreamID lib ms name cmd r =
     andthen (dec_err name 0 (amf_dec_any lib r)) (\<lambda>commandObject r.
     andthen (dec_err name 1 (amf_dec_uint32 lib r)) (\<lambda>streamID r.
       (reconstruct ms name cmd [commandObject, AUint32 streamID], r)))"

definition DecodeBodyCreateStream :: "amf0_lib \<Rightarrow> mapstructure \<Rightarrow> byte list \<Rightarrow> amf_body outcome \<times> byte list" where
  "DecodeBodyCreateStream lib ms = DecodeBodyNil lib ms ''createStream'' NetConnectionCreateStream"

definition DecodeBodyCreateStreamResult :: "amf0_lib \<Rightarrow> mapstructure \<Rightarrow> byte list \<Rightarrow> amf_body outcome \<times> byte list" where
  "DecodeBodyCreateStreamResult lib ms =
     DecodeBodyStreamID lib ms ''createStream.result'' (NetConnectionCreateStreamResult 0)"

definition DecodeBodyDeleteStream :: "amf0_lib \<Rightarrow> mapstructure \<Rightarrow> byte list \<Rightarrow> amf_body outcome \<times> byte list" where
  "DecodeBodyDeleteStream lib ms = DecodeBodyStreamID lib ms ''deleteStream'' (NetStreamDeleteStream 0)"

text \<open>The publishing type is optional: any error that wraps \<open>io.EOF\<close> gives ''live''.\<close>

definition DecodeBodyPublish :: "amf0_lib \<Rightarrow> mapstructure \<Rightarrow> byte list \<Rightarrow> amf_body outcome \<times> byte list" where
  "DecodeBodyPublish lib ms r =
     andthen (dec_err ''publish'' 0 (amf_dec_any lib r)) (\<lambda>commandObject r.
     andthen (dec_err ''publish'' 1 (amf_dec_string lib r)) (\<lambda>publishingName r.
     andthen
       (case amf_dec_string lib r of
          (Err e, r) \<Rightarrow>
            if errors_Is_EOF e then (Ok ''live'', r)
            else (Err (Wrap e ''Failed to decode publish args[2]''), r)
        | p \<Rightarrow> p) (\<lambda>publishingType r.
       (reconstruct ms ''publish'' (NetStreamPublish [] []) [commandObject, AString publishingName, AString publishingType], r))))"

text \<open>The start position is optional: the error \<open>io.EOF\<close> itself gives 0.\<close>

definition DecodeBodyPlay :: "amf0_lib \<Rightarrow> mapstructure \<Rightarrow> byte list \<Rightarrow> amf_body outcome \<times> byte list" where
  "DecodeBodyPlay lib ms r =
     andthen (dec_err ''play'' 0 (amf_dec_any lib r)) (\<lambda>commandObject r.
     andthen (dec_err ''play'' 1 (amf_dec_string lib r)) (\<lambda>streamName r.
     andthen
       (case amf_dec_int64 lib r of
          (Err e, r) \<Rightarrow>
            if e \<noteq> EOF then (Err (Wrap e ''Failed to decode play args[2]''), r) else (Ok 0, r)
        | p \<Rightarrow> p) (\<lambda>start r.
       (reconstruct ms ''play'' (NetStreamPlay [] 0) [commandObject, AString streamName, AInt64 start], r))))"

definition DecodeBodyReleaseStream :: "amf0_lib \<Rightarrow> mapstructure \<Rightarrow> byte list \<Rightarrow> amf_body outcome \<times> byte list" where
  "DecodeBodyReleaseStream lib ms = DecodeBodyName lib ms ''releaseStream'' (NetConnectionReleaseStream [])"

definition DecodeBodyFCPublish :: "amf0_lib \<Rightarrow> mapstructure \<Rightarrow> byte list \<Rightarrow> amf_body outcome \<times> byte list" where
  "DecodeBodyFCPublish lib ms = DecodeBodyName lib ms ''FCPublish'' (NetStreamFCPublish [])"

definition DecodeBodyFCUnpublish :: "amf0_lib \<Rightarrow> mapstructure \<Rightarrow> byte list \<Rightarrow> amf_body outcome \<times> byte list" where
  "DecodeBodyFCUnpublish lib ms = DecodeBodyName lib ms ''FCUnpublish'' (NetStreamFCUnpublish [])"

definition DecodeBodyGetStreamLength :: "amf0_lib \<Rightarrow> mapstructure \<Rightarrow> byte list \<Rightarrow> amf_body outcome \<times> byte list" where
  "DecodeBodyGetStreamLength lib ms = DecodeBodyName lib ms ''getStreamLength'' (NetStreamGetStreamLength [])"

definition DecodeBodyPing :: "amf0_lib \<Rightarrow> mapstructure \<Rightarrow> byte list \<Rightarrow> amf_body outcome \<times> byte list" where
  "DecodeBodyPing lib ms = DecodeBodyNil lib ms ''ping'' NetStreamPing"

definition DecodeBodyCloseStream :: "amf0_lib \<Rightarrow> mapstructure \<Rightarrow> byte list \<Rightarrow> amf_body outcome \<times> byte list" where
  "DecodeBodyCloseStream lib ms = DecodeBodyNil lib ms ''closeStream'' NetStreamCloseStream"

text \<open>\<open>io.Copy\<close> from the buffer takes all that is left and does not fail.\<close>

definition DecodeBodyAtSetDataFrame :: "mapstructure \<Rightarrow> byte list \<Rightarrow> amf_body outcome \<times> byte list" where
  "DecodeBodyAtSetDataFrame ms r = (reconstruct ms ''@setDataFrame'' (NetStreamSetDataFrame [] ANil) [ABytes r], [])"

text \<open>
  The decoders of unknown names decode values until one fails. The fuel is one more than the bytes
  there are, which is enough for a library that takes at least a byte for each value.
\<close>

fun decode_objs :: "amf0_lib \<Rightarrow> nat \<Rightarrow> byte list \<Rightarrow> amf_value list
     \<Rightarrow> amf_value list outcome \<times> byte list" where
  "decode_objs lib 0 r objs = (Ok objs, r)"
| "decode_objs lib (Suc fuel) r objs =
     (case amf_dec_any lib r of
        (Ok v, r) \<Rightarrow> decode_objs lib fuel r (objs @ [v])
      | (Err e, r) \<Rightarrow> (Ok objs, r)
      | (Panic m, r) \<Rightarrow> (Panic m, r))"

definition DataBodyDecoderFor :: "amf0_lib \<Rightarrow> mapstructure \<Rightarrow> string \<Rightarrow> byte list \<Rightarrow> amf_body outcome \<times> byte list" where
  "DataBodyDecoderFor lib ms name r =
     (if name = ''@setDataFrame'' then DecodeBodyAtSetDataFrame ms r
      else andthen (decode_objs lib (Suc (length r)) r []) (\<lambda>objs r.
        (Err (UnknownDataBodyDecodeError name objs), r)))"

definition CmdBodyDecoders ::
  "amf0_lib \<Rightarrow> mapstructure \<Rightarrow> (string \<times> (byte list \<Rightarrow> amf_body outcome \<times> byte list)) list" where
  "CmdBodyDecoders lib ms =
     [(''connect'', DecodeBodyConnect lib ms),
      (''createStream'', DecodeBodyCreateStream lib ms),
      (''deleteStream'', DecodeBodyDeleteStream lib ms),
      (''publish'', DecodeBodyPublish lib ms),
      (''play'', DecodeBodyPlay lib ms),
      (''releaseStream'', DecodeBodyReleaseStream lib ms),
      (''FCPublish'', DecodeBodyFCPublish lib ms),
      (''FCUnpublish'', DecodeBodyFCUnpublish lib ms),
      (''getStreamLength'', DecodeBodyGetStreamLength lib ms),
      (''ping'', DecodeBodyPing lib ms),
      (''closeStream'', DecodeBodyCloseStream lib ms)]"

definition CmdBodyDecoderFor ::
  "amf0_lib \<Rightarrow> mapstructure \<Rightarrow> string \<Rightarrow> i64 \<Rightarrow> byte list \<Rightarrow> amf_body outcome \<times> byte list" where
  "CmdBodyDecoderFor lib ms name tid r =
     (case map_of (CmdBodyDecoders lib ms) name of
        Some dec \<Rightarrow> dec r
      | None \<Rightarrow>
          andthen (decode_objs lib (Suc (length r)) r []) (\<lambda>objs r.
            (Err (UnknownCommandBodyDecodeError name tid objs), r)))"

section \<open>Round trips\<close>

text \<open>What is relied on of the AMF library for nil and for stream ids, beside strings.\<close>

definition amf_nil_law :: "amf0_lib \<Rightarrow> bool" where
  "amf_nil_law lib \<longleftrightarrow> fst (amf_enc lib ANil) = Ok () \<and>
     (\<forall>rest. amf_dec_any lib (snd (amf_enc lib ANil) @ rest) = (Ok ANil, rest))"

definition amf_uint32_law :: "amf0_lib \<Rightarrow> bool" where
  "amf_uint32_law lib \<longleftrightarrow> (\<forall>n rest. fst (amf_enc lib (AUint32 n)) = Ok () \<and>
     amf_dec_uint32 lib (snd (amf_enc lib (AUint32 n)) @ rest) = (Ok n, rest))"

text \<open>The command a body is sent with, for the bodies that have both directions.\<close>

fun command_of :: "amf_body \<Rightarrow> string option" where
  "command_of NetConnectionCreateStream = Some ''createStream''"
| "command_of (NetStreamDeleteStream _) = Some ''deleteStream''"
| "command_of (NetStreamPublish _ _) = Some ''publish''"
| "command_of (NetConnectionReleaseStream _) = Some ''releaseStream''"
| "command_of (NetStreamFCPublish _) = Some ''FCPublish''"
| "command_of (NetStreamFCUnpublish _) = Some ''FCUnpublish''"
| "command_of (NetStreamGetStreamLength _) = Some ''getStreamLength''"
| "command_of NetStreamPing = Some ''ping''"
| "command_of NetStreamCloseStream = Some ''closeStream''"
| "command_of _ = None"

fun wf_body :: "amf_body \<Rightarrow> bool" where
  "wf_body (NetStreamPublish name ty) \<longleftrightarrow> length name \<le> 0xffff \<and> length ty \<le> 0xffff"
| "wf_body (NetConnectionReleaseStream name) \<longleftrightarrow> length name \<le> 0xffff"
| "wf_body (NetStreamFCPublish name) \<longleftrightarrow> length name \<le> 0xffff"
| "wf_body (NetStreamFCUnpublish name) \<longleftrightarrow> length name \<le> 0xffff"
| "wf_body (NetStreamGetStreamLength name) \<longleftrightarrow> length name \<le> 0xffff"
| "wf_body _ \<longleftrightarrow> True"

lemma amf_write_nil: "amf_nil_law lib \<Longrightarrow> amf_write lib ANil w = (Ok (), w @ snd (amf_enc lib ANil))"
  by (simp add: amf_nil_law_def amf_write_eq)

lemma amf_write_uint32:
  "amf_uint32_law lib \<Longrightarrow> amf_write lib (AUint32 n) w = (Ok (), w @ snd (amf_enc lib (AUint32 n)))"
  by (simp add: amf_uint32_law_def amf_write_eq)

lemma amf_write_str:
  "amf_string_law lib \<Longrightarrow> length s \<le> 0xffff \<Longrightarrow> amf_write lib (AString s) w = (Ok (), w @ snd (amf_enc lib (AString s)))"
  by (simp add: amf_string_law_def amf_write_eq)

lemma dec_nil: "amf_nil_law lib \<Longrightarrow> amf_dec_any lib (snd (amf_enc lib ANil) @ rest) = (Ok ANil, rest)"
  by (simp add: amf_nil_law_def)

lemma dec_uint32: "amf_uint32_law lib \<Longrightarrow> amf_dec_uint32 lib (snd (amf_enc lib (AUint32 n)) @ rest) = (Ok n, rest)"
  by (simp add: amf_uint32_law_def)

lemma dec_str:
  "amf_string_law lib \<Longrightarrow> length s \<le> 0xffff \<Longrightarrow> amf_dec_string lib (snd (amf_enc lib (AString s)) @ rest) = (Ok s, rest)"
  by (simp add: amf_string_law_def)

lemmas body_writes = amf_write_nil amf_write_uint32 amf_write_str
lemmas body_reads = dec_nil dec_uint32 dec_str

text \<open>The table by name.\<close>

lemma cmd_lookup:
  "CmdBodyDecoderFor lib ms ''createStream'' tid = DecodeBodyCreateStream lib ms"
  "CmdBodyDecoderFor lib ms ''deleteStream'' tid = DecodeBodyDeleteStream lib ms"
  "CmdBodyDecoderFor lib ms ''publish'' tid = DecodeBodyPublish lib ms"
  "CmdBodyDecoderFor lib ms ''releaseStream'' tid = DecodeBodyReleaseStream lib ms"
  "CmdBodyDecoderFor lib ms ''FCPublish'' tid = DecodeBodyFCPublish lib ms"
  "CmdBodyDecoderFor lib ms ''FCUnpublish'' tid = DecodeBodyFCUnpublish lib ms"
  "CmdBodyDecoderFor lib ms ''getStreamLength'' tid = DecodeBodyGetStreamLength lib ms"
  "CmdBodyDecoderFor lib ms ''ping'' tid = DecodeBodyPing lib ms"
  "CmdBodyDecoderFor lib ms ''closeStream'' tid = DecodeBodyCloseStream lib ms"
  by (simp_all add: CmdBodyDecoderFor_def CmdBodyDecoders_def fun_eq_iff)

text \<open>The three shapes of bodies.\<close>

lemma FromArgs_name:
  "FromArgs ms (NetConnectionReleaseStream t) [v, AString s] = Ok (NetConnectionReleaseStream s)"
  "FromArgs ms (NetStreamFCPublish t) [v, AString s] = Ok (NetStreamFCPublish s)"
  "FromArgs ms (NetStreamFCUnpublish t) [v, AString s] = Ok (NetStreamFCUnpublish s)"
  "FromArgs ms (NetStreamReleaseStream t) [v, AString s] = Ok (NetStreamReleaseStream s)"
  "FromArgs ms (NetStreamGetStreamLength t) [v, AString s] = Ok (NetStreamGetStreamLength s)"
  by (simp_all add: arg_def ReleaseStream_FromArgs_def)

lemma FromArgs_stream_id:
  "FromArgs ms (NetConnectionCreateStreamResult m) [v, AUint32 n] = Ok (NetConnectionCreateStreamResult n)"
  "FromArgs ms (NetStreamDeleteStream m) [v, AUint32 n] = Ok (NetStreamDeleteStream n)"
  by (simp_all add: arg_def CreateStreamResult_FromArgs_def)

lemma FromArgs_three:
  "FromArgs ms (NetStreamPublish a b) [v, AString s, AString ty] = Ok (NetStreamPublish s ty)"
  "FromArgs ms (NetStreamPlay a i) [v, AString s, AInt64 start] = Ok (NetStreamPlay s start)"
  by (simp_all add: arg_def Publish_FromArgs_def Play_FromArgs_def)

lemmas FromArgs_given = FromArgs_name FromArgs_stream_id FromArgs_three

text \<open>\<open>FromArgs\<close> undoes \<open>ToArgs\<close> on the bodies that have both.\<close>

lemma FromArgs_ToArgs: "command_of b \<noteq> None \<Longrightarrow> bindr (ToArgs b) (FromArgs ms b) = Ok b"
  by (cases b) (simp_all del: FromArgs.simps(4-14) add: FromArgs_given)

lemma DecodeBodyNil_rt:
  "amf_nil_law lib \<Longrightarrow> FromArgs ms cmd [ANil] = Ok b \<Longrightarrow>
   DecodeBodyNil lib ms name cmd (snd (amf_enc lib ANil) @ rest) = (Ok b, rest)"
  by (simp add: DecodeBodyNil_def dec_err_def body_reads reconstruct_def)

lemma DecodeBodyName_rt:
  "amf_nil_law lib \<Longrightarrow> amf_string_law lib \<Longrightarrow> length s \<le> 0xffff \<Longrightarrow> FromArgs ms cmd [ANil, AString s] = Ok b \<Longrightarrow>
   DecodeBodyName lib ms name cmd (snd (amf_enc lib ANil) @ snd (amf_enc lib (AString s)) @ rest) = (Ok b, rest)"
  by (simp add: DecodeBodyName_def dec_err_def body_reads reconstruct_def)

lemma DecodeBodyStreamID_rt:
  "amf_nil_law lib \<Longrightarrow> amf_uint32_law lib \<Longrightarrow> FromArgs ms cmd [ANil, AUint32 n] = Ok b \<Longrightarrow>
   DecodeBodyStreamID lib ms name cmd (snd (amf_enc lib ANil) @ snd (amf_enc lib (AUint32 n)) @ rest) = (Ok b, rest)"
  by (simp add: DecodeBodyStreamID_def dec_err_def body_reads reconstruct_def)

lemma DecodeBodyPublish_rt:
  "amf_nil_law lib \<Longrightarrow> amf_string_law lib \<Longrightarrow> length s \<le> 0xffff \<Longrightarrow> length ty \<le> 0xffff \<Longrightarrow>
   DecodeBodyPublish lib ms (snd (amf_enc lib ANil) @ snd (amf_enc lib (AString s)) @ snd (amf_enc lib (AString ty)) @ rest) =
     (Ok (NetStreamPublish s ty), rest)"
  by (simp add: DecodeBodyPublish_def dec_err_def body_reads reconstruct_def FromArgs_given del: FromArgs.simps)

lemmas body_decoders = DecodeBodyCreateStream_def DecodeBodyDeleteStream_def DecodeBodyReleaseStream_def
  DecodeBodyFCPublish_def DecodeBodyFCUnpublish_def DecodeBodyGetStreamLength_def DecodeBodyPing_def
  DecodeBodyCloseStream_def

section \<open>Unknown names\<close>

text \<open>A library whose decoder takes at least a byte for each value it returns.\<close>

definition amf_progress_law :: "amf0_lib \<Rightarrow> bool" where
  "amf_progress_law lib \<longleftrightarrow>
     (\<forall>r v r'. amf_dec_any lib r = (Ok v, r') \<longrightarrow> length r' < length r) \<and> (\<forall>r m r'. amf_dec_any lib r \<noteq> (Panic m, r'))"

lemma decode_objs_stops:
  assumes "amf_progress_law lib" "length r < fuel"
  shows "\<exists>vs r0 e r'. decode_objs lib fuel r objs = (Ok (objs @ vs), r') \<and> amf_dec_any lib r0 = (Err e, r')"
  using assms(2)
proof (induction fuel arbitrary: r objs)
  case (Suc fuel)
  obtain res r1 where d: "amf_dec_any lib r = (res, r1)" by fastforce
  show ?case
  proof (cases res)
    case (Ok v)
    with d assms(1) have "length r1 < length r" by (auto simp: amf_progress_law_def)
    with Suc.prems have "length r1 < fuel" by simp
    from Suc.IH [OF this, of "objs @ [v]"] d Ok show ?thesis by fastforce
  next
    case (Err e)
    with d show ?thesis by (intro exI [of _ "[]"] exI [of _ r]) auto
  next
    case (Panic m)
    with d assms(1) show ?thesis by (auto simp: amf_progress_law_def)
  qed
qed simp

section \<open>Properties\<close>

lemma body_decoded:
  assumes "command_of b = Some name" "wf_body b" "amf_string_law lib" "amf_nil_law lib" "amf_uint32_law lib"
  shows "\<exists>bs. EncodeBodyAnyValues lib (Some b) w = (Ok (), w @ bs) \<and>
    CmdBodyDecoderFor lib ms name tid (bs @ rest) = (Ok b, rest)"
proof -
  note laws = assms(3,4,5)
  have nm: "name = the (command_of b)" using assms(1) by simp
  show ?thesis
  proof (cases b)
    case (NetStreamPublish s ty)
    with assms(1,2) have "name = ''publish''" "length s \<le> 0xffff" "length ty \<le> 0xffff" by simp_all
    with laws NetStreamPublish show ?thesis
      by (simp add: EncodeBodyAnyValues_def body_writes cmd_lookup DecodeBodyPublish_rt)
  qed (use assms(1,2) laws in \<open>simp_all add: nm EncodeBodyAnyValues_def body_writes cmd_lookup
      body_decoders DecodeBodyNil_rt DecodeBodyName_rt DecodeBodyStreamID_rt arg_def ReleaseStream_FromArgs_def\<close>)
qed


lemma sampleAmf_nil: "amf_nil_law sampleAmf"
  by (simp add: amf_nil_law_def sampleAmf_def)

lemma sampleAmf_uint32: "amf_uint32_law sampleAmf"
  by (auto simp: amf_uint32_law_def sampleAmf_def wire)

text \<open>A mapping library that maps nothing, for bodies that need none.\<close>

definition emptyMs :: mapstructure where
  "emptyMs = \<lparr>ms_command = (\<lambda>_. Err (Errorf ''unsupported'' [])), ms_properties = (\<lambda>_. Err (Errorf ''unsupported'' [])),
     ms_information = (\<lambda>_. Err (Errorf ''unsupported'' []))\<rparr>"


text \<open>
  A command the table does not know is an error that carries its name, its transaction id and
  every value its body holds: the loop over the body ends, because a value failed to decode.
\<close>

lemma unknown_command:
  assumes "name \<notin> fst ` set (CmdBodyDecoders lib ms)" "amf_progress_law lib"
  shows "\<exists>objs r0 e r'. CmdBodyDecoderFor lib ms name tid r = (Err (UnknownCommandBodyDecodeError name tid objs), r') \<and>
    amf_dec_any lib r0 = (Err e, r')"
proof -
  have "map_of (CmdBodyDecoders lib ms) name = None" using assms(1) by (simp add: map_of_eq_None_iff)
  moreover obtain vs r0 e r' where "decode_objs lib (Suc (length r)) r [] = (Ok ([] @ vs), r')"
    "amf_dec_any lib r0 = (Err e, r')"
    using decode_objs_stops [OF assms(2), of r "Suc (length r)" "[]"] by blast
  ultimately show ?thesis by (auto simp: CmdBodyDecoderFor_def simp del: decode_objs.simps)
qed

lemma sampleAmf_progress: "amf_progress_law sampleAmf"
proof -
  have "length r - 1 < length r" if "take 1 r = [5 :: byte]" for r using that by (cases r) auto
  then show ?thesis by (auto simp: amf_progress_law_def sampleAmf_def split: if_splits)
qed

lemma unknown_command_witness:
  "\<exists>objs r0 e r'. CmdBodyDecoderFor sampleAmf emptyMs ''onStatus'' 0 [5, 5, 9] =
      (Err (UnknownCommandBodyDecodeError ''onStatus'' 0 objs), r') \<and> amf_dec_any sampleAmf r0 = (Err e, r')"
  by (rule unknown_command [OF _ sampleAmf_progress]) (simp add: CmdBodyDecoders_def)

text \<open>
  A reply to connect whose first argument is anything but an AMF object, for example the null that a
  rejecting server may send, is not an error but a panic of the goroutine that called \<open>Connect\<close>.
\<close>

lemma connect_result_panics:
  assumes "amf_dec_any lib r = (Ok v, r1)" "amf_dec_any lib r1 = (Ok v', r2)" "\<forall>m. v \<noteq> AMap m"
  shows "DecodeBodyConnectResult lib ms r = (Panic ''interface conversion'', r2)"
  using assms by (cases v) (simp_all add: DecodeBodyConnectResult_def dec_err_def reconstruct_def zeroConnectResult_def ConnectResult_FromArgs_def arg_def)

lemma connect_result_panics_null:
  "DecodeBodyConnectResult sampleAmf emptyMs [5, 5] = (Panic ''interface conversion'', [])"
  by (rule connect_result_panics [where v = ANil and v' = ANil and ?r1.0 = "[5]"]) (simp_all add: sampleAmf_def)

end
