(* ===== verification/Streams.thy ===== *)
theory Streams
  imports BodyCodec ConnState
begin

text \<open>
  transactions.go, streams.go and the data of stream.go: the table of pending transactions of a
  message stream and the table of message streams of a connection. Both are tables with a key, with
  the same three operations; their contract is a locale, shared with the relay service of the demo.

  A Go map is an association list with distinct keys; the pointer an operation returns is the entry's
  value, and what the code then changes through it is put back under its key.
\<close>

section \<open>Tables with a key\<close>

locale keyed_table =
  fixes create :: "'k \<Rightarrow> 's \<Rightarrow> 'e outcome \<times> 's"
    and delete :: "'k \<Rightarrow> 's \<Rightarrow> unit outcome \<times> 's"
    and at :: "'k \<Rightarrow> 's \<Rightarrow> 'e outcome"
    and tab :: "'s \<Rightarrow> 'k \<rightharpoonup> 'e"
    and inv :: "'s \<Rightarrow> bool"
  assumes create_Ok: "create k s = (Ok e, s') \<Longrightarrow> tab s k = None \<and> tab s' = (tab s)(k \<mapsto> e)"
    and create_dup: "tab s k \<noteq> None \<Longrightarrow> \<exists>x. create k s = (Err x, s)"
    and create_Err: "create k s = (Err x, s') \<Longrightarrow> s' = s"
    and create_total: "create k s \<noteq> (Panic m, s')"
    and create_inv: "inv s \<Longrightarrow> inv (snd (create k s))"
    and delete_Ok: "inv s \<Longrightarrow> tab s k = Some e \<Longrightarrow> \<exists>s'. delete k s = (Ok (), s') \<and> tab s' = (tab s)(k := None)"
    and delete_missing: "tab s k = None \<Longrightarrow> \<exists>x. delete k s = (Err x, s)"
    and delete_inv: "inv s \<Longrightarrow> inv (snd (delete k s))"
    and at_Ok: "tab s k = Some e \<Longrightarrow> at k s = Ok e"
    and at_missing: "tab s k = None \<Longrightarrow> \<exists>x. at k s = Err x"
begin

lemma at_after_create:
  assumes "create k s = (Ok e, s')"
  shows "at k s' = Ok e" "k' \<noteq> k \<Longrightarrow> tab s' k' = tab s k'"
  using create_Ok [OF assms] at_Ok [of s' k e] by auto

lemma create_twice: "create k s = (Ok e, s') \<Longrightarrow> \<exists>x. create k s' = (Err x, s')"
  using create_Ok [of k s e s'] create_dup [of s' k] by auto

lemma delete_cases:
  assumes "inv s"
  obtains (gone) e s' where "tab s k = Some e" "delete k s = (Ok (), s')" "tab s' = (tab s)(k := None)" "inv s'"
  | (missing) x where "tab s k = None" "delete k s = (Err x, s)"
  using assms delete_Ok [of s k] delete_missing [of s k] delete_inv [of s k] by (cases "tab s k") auto

lemma at_after_delete:
  assumes "inv s" "delete k s = (Ok (), s')"
  shows "\<exists>x. at k s' = Err x" "k' \<noteq> k \<Longrightarrow> tab s' k' = tab s k'"
  using assms(2) at_missing [of s' k] by (cases rule: delete_cases [OF assms(1), of k]; auto)+

lemma delete_twice:
  assumes "inv s" "delete k s = (Ok (), s')"
  shows "\<exists>x. delete k s' = (Err x, s')"
  using assms(2) delete_missing [of s' k] by (cases rule: delete_cases [OF assms(1), of k]) auto

text \<open>Creating and deleting a key leaves the table as it was.\<close>

lemma create_delete:
  assumes "inv s" "create k s = (Ok e, s')"
  shows "\<exists>s2. delete k s' = (Ok (), s2) \<and> tab s2 = tab s"
proof -
  have "tab s k = None" "tab s' = (tab s)(k \<mapsto> e)" "inv s'"
    using create_Ok [OF assms(2)] create_inv [OF assms(1), of k] assms(2) by auto
  with delete_Ok [of s' k e] show ?thesis by (auto simp: fun_eq_iff)
qed

end

section \<open>Transactions\<close>

record transaction =
  tr_commandName :: string
  tr_encoding :: byte
  tr_body :: "byte list"
  tr_lastErr :: "go_err option"
  tr_done :: bool

type_synonym transactions = "(i64 \<times> transaction) list"

definition newTransaction :: transaction where
  "newTransaction = \<lparr>tr_commandName = [], tr_encoding = 0, tr_body = [], tr_lastErr = None, tr_done = False\<rparr>"

text \<open>\<open>Reply\<close> copies the body out of the reader, which is a buffer, and closes the done channel.\<close>

definition Reply :: "string \<Rightarrow> byte \<Rightarrow> byte list \<Rightarrow> transaction \<Rightarrow> unit outcome \<times> transaction" where
  "Reply commandName enc body t =
     (let t' = t\<lparr>tr_commandName := commandName, tr_encoding := enc, tr_body := body, tr_lastErr := None\<rparr> in
      if tr_done t then (Panic ''close of closed channel'', t') else (Ok (), t'\<lparr>tr_done := True\<rparr>))"

definition transactions_Create :: "i64 \<Rightarrow> transactions \<Rightarrow> transaction outcome \<times> transactions" where
  "transactions_Create tid ts =
     (case map_of ts tid of
        Some _ \<Rightarrow> (Err (Errorf ''Transaction already exists: TransactionID = %d'' [ArgInt (sint tid)]), ts)
      | None \<Rightarrow> (Ok newTransaction, set_key tid newTransaction ts))"

definition transactions_Delete :: "i64 \<Rightarrow> transactions \<Rightarrow> unit outcome \<times> transactions" where
  "transactions_Delete tid ts =
     (case map_of ts tid of
        None \<Rightarrow> (Err (Errorf ''Transaction not exists: TransactionID = %d'' [ArgInt (sint tid)]), ts)
      | Some _ \<Rightarrow> (Ok (), del_key tid ts))"

definition transactions_At :: "i64 \<Rightarrow> transactions \<Rightarrow> transaction outcome" where
  "transactions_At tid ts =
     (case map_of ts tid of
        None \<Rightarrow> Err (Errorf ''Transaction is not found: TransactionID = %d'' [ArgInt (sint tid)])
      | Some t \<Rightarrow> Ok t)"

interpretation trans: keyed_table transactions_Create transactions_Delete transactions_At map_of "\<lambda>_. True"
  by unfold_locales
    (auto simp: transactions_Create_def transactions_Delete_def transactions_At_def split: option.splits)

section \<open>Message streams\<close>

datatype streamState =
    streamStateUnknown
  | streamStateServerNotConnected
  | streamStateServerConnected
  | streamStateServerInactive
  | streamStateServerPublish
  | streamStateServerPlay
  | streamStateClientNotConnected
  | streamStateClientConnected

fun streamState_String :: "streamState \<Rightarrow> string" where
  "streamState_String streamStateServerNotConnected = ''NotConnected(Server)''"
| "streamState_String streamStateServerConnected = ''Connected(Server)''"
| "streamState_String streamStateServerInactive = ''Inactive(Server)''"
| "streamState_String streamStateServerPublish = ''Publish(Server)''"
| "streamState_String streamStateServerPlay = ''Play(Server)''"
| "streamState_String streamStateClientNotConnected = ''NotConnected(Client)''"
| "streamState_String streamStateClientConnected = ''Connected(Client)''"
| "streamState_String _ = ''<Unknown>''"

text \<open>
  A stream with its stream handler: \<open>sh_handler\<close> is the state whose handler object is installed
  (\<open>None\<close>: the nil interface a new stream has), \<open>sh_state\<close> the state it reports.
\<close>

record Stream =
  streamID :: u32
  encTy :: byte
  trs :: transactions
  sh_handler :: "streamState option"
  sh_state :: streamState

definition newStream :: "u32 \<Rightarrow> Stream" where
  "newStream sid = \<lparr>streamID = sid, encTy = EncodingTypeAMF0, trs = [], sh_handler = None,
     sh_state = streamStateUnknown\<rparr>"

definition ControlStreamID :: u32 where
  "ControlStreamID = 0"

record streams =
  strm_map :: "(u32 \<times> Stream) list"
  strm_limit :: int

definition newStreams :: "StreamControlStateConfig \<Rightarrow> streams" where
  "newStreams cfg = \<lparr>strm_map = [], strm_limit = cfgMaxMessageStreams cfg\<rparr>"

definition streams_Create :: "u32 \<Rightarrow> streams \<Rightarrow> Stream outcome \<times> streams" where
  "streams_Create sid ss =
     (case map_of (strm_map ss) sid of
        Some _ \<Rightarrow> (Err (Errorf ''Stream already exists: StreamID = %d'' [ArgInt (uint sid)]), ss)
      | None \<Rightarrow>
          if int (length (strm_map ss)) \<ge> strm_limit ss then
            (Err (Errorf ''Creating message streams limit exceeded: Limit = %d'' [ArgInt (strm_limit ss)]), ss)
          else (Ok (newStream sid), ss\<lparr>strm_map := set_key sid (newStream sid) (strm_map ss)\<rparr>))"

text \<open>The loop of \<open>CreateIfAvailable\<close>: \<open>fuel\<close> rounds from \<open>i\<close>.\<close>

fun create_first :: "nat \<Rightarrow> int \<Rightarrow> streams \<Rightarrow> Stream outcome \<times> streams" where
  "create_first 0 i ss =
     (Err (Errorf ''Creating streams limit exceeded: Limit = %d'' [ArgInt (strm_limit ss)]), ss)"
| "create_first (Suc fuel) i ss =
     (case streams_Create (word_of_int i) ss of
        (Ok s, ss') \<Rightarrow> (Ok s, ss')
      | (Err e, ss') \<Rightarrow> create_first fuel (i + 1) ss'
      | (Panic m, ss') \<Rightarrow> (Panic m, ss'))"

definition CreateIfAvailable :: "streams \<Rightarrow> Stream outcome \<times> streams" where
  "CreateIfAvailable ss = create_first (nat (strm_limit ss)) 0 ss"

definition streams_Delete :: "u32 \<Rightarrow> streams \<Rightarrow> unit outcome \<times> streams" where
  "streams_Delete sid ss =
     (case map_of (strm_map ss) sid of
        None \<Rightarrow> (Err (Errorf ''Stream not exists: StreamID = %d'' [ArgInt (uint sid)]), ss)
      | Some s \<Rightarrow> (Ok (), ss\<lparr>strm_map := del_key (streamID s) (strm_map ss)\<rparr>))"

definition streams_At :: "u32 \<Rightarrow> streams \<Rightarrow> Stream outcome" where
  "streams_At sid ss =
     (case map_of (strm_map ss) sid of
        None \<Rightarrow> Err (Errorf ''Stream is not found: StreamID = %d'' [ArgInt (uint sid)])
      | Some s \<Rightarrow> Ok s)"

definition putStream :: "u32 \<Rightarrow> Stream \<Rightarrow> streams \<Rightarrow> streams" where
  "putStream sid s ss = ss\<lparr>strm_map := set_key sid s (strm_map ss)\<rparr>"

section \<open>The invariant of the stream table\<close>

text \<open>
  The code deletes the entry under the stream's own id, so the table is one only while every stream
  is stored under its id.
\<close>

definition streams_ok :: "streams \<Rightarrow> bool" where
  "streams_ok ss \<longleftrightarrow> distinct (map fst (strm_map ss)) \<and>
     (\<forall>k s. map_of (strm_map ss) k = Some s \<longrightarrow> streamID s = k) \<and>
     (strm_map ss \<noteq> [] \<longrightarrow> int (length (strm_map ss)) \<le> strm_limit ss)"

lemma streams_ok_new: "streams_ok (newStreams cfg)"
  by (simp add: streams_ok_def newStreams_def)

lemma streams_ok_Create: "streams_ok ss \<Longrightarrow> streams_ok (snd (streams_Create sid ss))"
  by (auto simp: streams_ok_def streams_Create_def length_set_key newStream_def
      intro!: distinct_set_key split: option.splits)

lemma create_first_ok: "streams_ok ss \<Longrightarrow> streams_ok (snd (create_first fuel i ss))"
proof (induction fuel arbitrary: i ss)
  case (Suc fuel)
  then show ?case using streams_ok_Create [OF Suc.prems, of "word_of_int i"]
    by (auto split: prod.splits outcome.splits)
qed simp

lemma length_del_key_le: "length (del_key k t) \<le> length t"
  by (simp add: del_key_def)

lemma streams_ok_Delete: "streams_ok ss \<Longrightarrow> streams_ok (snd (streams_Delete sid ss))"
  using length_del_key_le [of sid "strm_map ss"]
  by (auto simp: streams_ok_def streams_Delete_def intro!: distinct_del_key split: option.splits)

lemma streams_ok_put:
  "streams_ok ss \<Longrightarrow> map_of (strm_map ss) sid \<noteq> None \<Longrightarrow> streamID s = sid \<Longrightarrow> streams_ok (putStream sid s ss)"
  by (auto simp: streams_ok_def putStream_def length_set_key intro!: distinct_set_key)

interpretation strms: keyed_table streams_Create streams_Delete streams_At "\<lambda>ss. map_of (strm_map ss)" streams_ok
proof (unfold_locales, goal_cases)
  case (5 ss sid)
  then show ?case by (rule streams_ok_Create)
next
  case (6 ss sid s)
  then have "streamID s = sid" by (simp add: streams_ok_def)
  with 6 show ?case by (simp add: streams_Delete_def)
next
  case (8 ss sid)
  then show ?case by (rule streams_ok_Delete)
qed (auto simp: streams_Create_def streams_Delete_def streams_At_def split: option.splits if_splits)

section \<open>The first free stream id\<close>

definition taken :: "streams \<Rightarrow> int \<Rightarrow> bool" where
  "taken ss j \<longleftrightarrow> map_of (strm_map ss) (word_of_int j) \<noteq> None"

lemma create_first_least:
  assumes "int (length (strm_map ss)) < strm_limit ss" "i \<le> j" "j < i + int fuel" "\<not> taken ss j"
    and "\<forall>k. i \<le> k \<and> k < j \<longrightarrow> taken ss k"
  shows "create_first fuel i ss = streams_Create (word_of_int j) ss"
  using assms
proof (induction fuel arbitrary: i)
  case (Suc fuel)
  show ?case
  proof (cases "i = j")
    case True
    with Suc.prems(1,4) show ?thesis by (auto simp: taken_def streams_Create_def)
  next
    case False
    with Suc.prems have "taken ss i" by auto
    then obtain e where "streams_Create (word_of_int i) ss = (Err e, ss)"
      by (auto simp: taken_def streams_Create_def)
    with Suc.IH [of "i + 1"] Suc.prems False show ?thesis by auto
  qed
qed simp

text \<open>A table with room has a free id below its limit: there are more ids than entries.\<close>

lemma free_id:
  assumes "int (length (strm_map ss)) < strm_limit ss" "strm_limit ss \<le> 2 ^ 32"
  shows "\<exists>j. 0 \<le> j \<and> j < strm_limit ss \<and> \<not> taken ss j"
proof (rule ccontr)
  assume "\<not> ?thesis"
  then have all: "\<forall>j. 0 \<le> j \<and> j < strm_limit ss \<longrightarrow> (word_of_int j :: u32) \<in> fst ` set (strm_map ss)"
    by (auto simp: taken_def map_of_eq_None_iff)
  have inj: "inj_on (word_of_int :: int \<Rightarrow> u32) {0..<strm_limit ss}"
  proof (rule inj_onI)
    fix x y :: int
    assume "x \<in> {0..<strm_limit ss}" "y \<in> {0..<strm_limit ss}" "(word_of_int x :: u32) = word_of_int y"
    then have "uint (word_of_int x :: u32) = uint (word_of_int y :: u32)" "0 \<le> x" "x < 2 ^ 32" "0 \<le> y" "y < 2 ^ 32"
      using assms(2) by auto
    then show "x = y" by (simp only: uint_word_of_int) simp
  qed
  have "card ((word_of_int :: int \<Rightarrow> u32) ` {0..<strm_limit ss}) \<le> card (fst ` set (strm_map ss))"
    using all by (intro card_mono) auto
  also have "\<dots> \<le> length (strm_map ss)"
    by (metis card_length image_set length_map)
  finally have "nat (strm_limit ss) \<le> length (strm_map ss)"
    using card_image [OF inj] by simp
  with assms(1) show False by simp
qed

lemma create_first_full:
  "int (length (strm_map ss)) \<ge> strm_limit ss \<Longrightarrow>
   create_first fuel i ss = (Err (Errorf ''Creating streams limit exceeded: Limit = %d'' [ArgInt (strm_limit ss)]), ss)"
  by (induction fuel arbitrary: i) (auto simp: streams_Create_def split: option.splits)

section \<open>Properties\<close>

text \<open>
  \<open>CreateIfAvailable\<close> returns a new stream under the least id that no stream has, whenever fewer
  streams exist than the limit allows; otherwise it fails and changes nothing.
\<close>

lemma create_if_available:
  assumes "strm_limit ss \<le> 2 ^ 32"
  shows "if int (length (strm_map ss)) < strm_limit ss
    then \<exists>j. 0 \<le> j \<and> j < strm_limit ss \<and> \<not> taken ss j \<and> (\<forall>k. 0 \<le> k \<and> k < j \<longrightarrow> taken ss k) \<and>
      CreateIfAvailable ss = (Ok (newStream (word_of_int j)), putStream (word_of_int j) (newStream (word_of_int j)) ss)
    else CreateIfAvailable ss =
      (Err (Errorf ''Creating streams limit exceeded: Limit = %d'' [ArgInt (strm_limit ss)]), ss)"
proof (cases "int (length (strm_map ss)) < strm_limit ss")
  case True
  obtain j0 where j0: "0 \<le> j0" "j0 < strm_limit ss" "\<not> taken ss j0" using free_id [OF True assms] by blast
  define j where "j = int (LEAST n. \<not> taken ss (int n))"
  have free: "\<not> taken ss j" unfolding j_def using j0 by (intro LeastI [of "\<lambda>n. \<not> taken ss (int n)" "nat j0"]) simp
  have below: "taken ss k" if "0 \<le> k" "k < j" for k
    using that not_less_Least [of "nat k" "\<lambda>n. \<not> taken ss (int n)"] unfolding j_def by auto
  have "j \<le> j0" unfolding j_def using j0 Least_le [of "\<lambda>n. \<not> taken ss (int n)" "nat j0"] by simp
  then have j: "0 \<le> j" "j < strm_limit ss" using j0 by (auto simp: j_def)
  have "CreateIfAvailable ss = streams_Create (word_of_int j) ss"
    unfolding CreateIfAvailable_def using True j free below by (intro create_first_least) auto
  moreover have "streams_Create (word_of_int j) ss =
      (Ok (newStream (word_of_int j)), putStream (word_of_int j) (newStream (word_of_int j)) ss)"
    using True free by (simp add: streams_Create_def taken_def putStream_def)
  ultimately show ?thesis using True j free below by auto
next
  case False
  then show ?thesis using create_first_full [of ss] by (simp add: CreateIfAvailable_def)
qed

definition sampleStreams :: streams where
  "sampleStreams = \<lparr>strm_map = [(0, newStream 0), (2, newStream 2)], strm_limit = 4\<rparr>"

lemma create_if_available_witness:
  "CreateIfAvailable sampleStreams = (Ok (newStream 1), putStream 1 (newStream 1) sampleStreams)"
proof -
  obtain j where j: "0 \<le> j" "j < strm_limit sampleStreams" "\<not> taken sampleStreams j" "\<forall>k. 0 \<le> k \<and> k < j \<longrightarrow> taken sampleStreams k"
    "CreateIfAvailable sampleStreams = (Ok (newStream (word_of_int j)), putStream (word_of_int j) (newStream (word_of_int j)) sampleStreams)"
    using create_if_available [of sampleStreams] by (auto simp: sampleStreams_def)
  have "taken sampleStreams 0" "\<not> taken sampleStreams 1" by (simp_all add: taken_def sampleStreams_def)
  with j(3) have "j \<noteq> 0" by auto
  moreover have "\<not> 1 < j" using j(4) \<open>\<not> taken sampleStreams 1\<close> by force
  ultimately have "j = 1" using j(1) by simp
  with j(5) show ?thesis by simp
qed

text \<open>
  The table of message streams: under its invariant, which every operation keeps, a stream can
  be found after it was created, a second creation of its id fails, deleting it makes it
  unfindable and restores the table, and a second deletion fails.
\<close>

lemma stream_table:
  assumes "streams_ok ss" "streams_Create sid ss = (Ok s, ss')"
  shows "streams_ok ss' \<and> streams_At sid ss' = Ok s \<and> (\<exists>x. streams_Create sid ss' = (Err x, ss')) \<and>
    (\<exists>ss2 y z. streams_Delete sid ss' = (Ok (), ss2) \<and> map_of (strm_map ss2) = map_of (strm_map ss) \<and>
       streams_At sid ss2 = Err y \<and> streams_Delete sid ss2 = (Err z, ss2))"
proof -
  have ok: "streams_ok ss'" using strms.create_inv [OF assms(1), of sid] assms(2) by simp
  obtain ss2 where d: "streams_Delete sid ss' = (Ok (), ss2)" "map_of (strm_map ss2) = map_of (strm_map ss)"
    using strms.create_delete [OF assms] by blast
  show ?thesis
    using ok strms.at_after_create(1) [OF assms(2)] strms.create_twice [OF assms(2)] d
      strms.at_after_delete(1) [OF ok d(1)] strms.delete_twice [OF ok d(1)] by blast
qed

lemma stream_table_witness:
  "\<exists>ss'. streams_Create 1 sampleStreams = (Ok (newStream 1), ss') \<and> streams_At 1 ss' = Ok (newStream 1)"
proof -
  have ok: "streams_ok sampleStreams" by (simp add: streams_ok_def sampleStreams_def newStream_def)
  have "streams_Create 1 sampleStreams = (Ok (newStream 1), snd (streams_Create 1 sampleStreams))"
    by (simp add: streams_Create_def sampleStreams_def)
  with stream_table [OF ok this] show ?thesis by blast
qed

text \<open>
  A transaction that was created and is answered once: its done channel closes with the reply's
  name, encoding and body; a second reply to it panics on the closed channel; and once it is deleted
  its id can be used again, with a new transaction.
\<close>

lemma transaction_lifecycle:
  assumes "transactions_Create tid ts = (Ok t, ts1)"
  shows "(\<exists>t'. Reply name enc body t = (Ok (), t') \<and> tr_done t' \<and> tr_commandName t' = name \<and>
      tr_encoding t' = enc \<and> tr_body t' = body \<and> (\<forall>n e b. fst (Reply n e b t') = Panic ''close of closed channel'')) \<and>
    (\<exists>ts2 ts3. transactions_Delete tid ts1 = (Ok (), ts2) \<and> map_of ts2 = map_of ts \<and>
      transactions_Create tid ts2 = (Ok newTransaction, ts3))"
proof -
  have t: "t = newTransaction" "map_of ts tid = None"
    using assms by (auto simp: transactions_Create_def split: option.splits)
  have "\<exists>t'. Reply name enc body t = (Ok (), t') \<and> tr_done t' \<and> tr_commandName t' = name \<and>
      tr_encoding t' = enc \<and> tr_body t' = body \<and> (\<forall>n e b. fst (Reply n e b t') = Panic ''close of closed channel'')"
    by (simp add: Reply_def t newTransaction_def)
  moreover obtain ts2 where "transactions_Delete tid ts1 = (Ok (), ts2)" "map_of ts2 = map_of ts"
    using trans.create_delete [OF TrueI assms] by blast
  ultimately show ?thesis using t by (auto simp: transactions_Create_def)
qed

lemma transaction_lifecycle_witness:
  "\<exists>t'. Reply ''_result'' 0 [5] newTransaction = (Ok (), t') \<and> tr_done t' \<and> tr_body t' = [5]"
  using transaction_lifecycle [of 1 "[]" newTransaction "[(1, newTransaction)]" "''_result''" 0 "[5]"]
  by (auto simp: transactions_Create_def)

end
