(* ===== verification/StreamIO.thy ===== *)
theory StreamIO
  imports Streams ChunkWriter
begin

text \<open>
  stream.go: what a stream writes. A stream's messages go to the streamer of its connection, which
  other goroutines use at the same time, so the operations act on a \<open>world\<close>: the writing half of the
  streamer, the application's state, the requests fired at the notification URL, and the history of
  the messages \<open>Stream.Write\<close> handed over. What the scheduler and the other goroutines do until a
  call's \<open>Wait\<close> returns, and which of its ready cases Go picks, is \<open>rt_turn\<close>, what they do between two
  rounds of the message loop \<open>rt_idle\<close>; theorems hold for all of them. The user's handler is a record of functions on the world.
\<close>

section \<open>The world of a connection\<close>

record 'u world =
  w_out :: chunk_out
  w_usr :: 'u
  w_http :: "string list"
  w_log :: "(u32 \<times> int \<times> u32 \<times> message) list"

type_synonym 'u callback = "'u world \<Rightarrow> unit outcome \<times> 'u world"

text \<open>
  handler.go: the interface \<open>Handler\<close>. \<open>OnServe\<close> and \<open>OnClose\<close> return nothing in the code, so their result is
  \<open>Ok\<close> or a panic; the theorems hold for an error too.
\<close>

record 'u Handler =
  OnServe :: "'u callback"
  OnConnect :: "u32 \<Rightarrow> NetConnectionConnectCommand \<Rightarrow> 'u callback"
  OnCreateStream :: "u32 \<Rightarrow> 'u callback"
  OnReleaseStream :: "u32 \<Rightarrow> string \<Rightarrow> 'u callback"
  OnDeleteStream :: "u32 \<Rightarrow> u32 \<Rightarrow> 'u callback"
  OnPublish :: "u32 \<Rightarrow> u32 \<Rightarrow> string \<Rightarrow> string \<Rightarrow> 'u callback"
  OnPlay :: "u32 \<Rightarrow> u32 \<Rightarrow> string \<Rightarrow> i64 \<Rightarrow> 'u callback"
  OnFCPublish :: "u32 \<Rightarrow> string \<Rightarrow> 'u callback"
  OnFCUnpublish :: "u32 \<Rightarrow> string \<Rightarrow> 'u callback"
  OnSetDataFrame :: "u32 \<Rightarrow> byte list \<Rightarrow> 'u callback"
  OnAudio :: "u32 \<Rightarrow> byte list \<Rightarrow> 'u callback"
  OnVideo :: "u32 \<Rightarrow> byte list \<Rightarrow> 'u callback"
  OnUnknownMessage :: "u32 \<Rightarrow> message \<Rightarrow> 'u callback"
  OnUnknownCommandMessage :: "u32 \<Rightarrow> message \<Rightarrow> 'u callback"
  OnUnknownDataMessage :: "u32 \<Rightarrow> message \<Rightarrow> 'u callback"
  OnClose :: "'u callback"

text \<open>default_handler.go: every callback returns nil and does nothing.\<close>

definition DefaultHandler :: "'u Handler" where
  "DefaultHandler = (let ok = \<lambda>w. (Ok (), w) in
     \<lparr>OnServe = ok, OnConnect = \<lambda>_ _. ok, OnCreateStream = \<lambda>_. ok, OnReleaseStream = \<lambda>_ _. ok,
      OnDeleteStream = \<lambda>_ _. ok, OnPublish = \<lambda>_ _ _ _. ok, OnPlay = \<lambda>_ _ _ _. ok, OnFCPublish = \<lambda>_ _. ok,
      OnFCUnpublish = \<lambda>_ _. ok, OnSetDataFrame = \<lambda>_ _. ok, OnAudio = \<lambda>_ _. ok, OnVideo = \<lambda>_ _. ok,
      OnUnknownMessage = \<lambda>_ _. ok, OnUnknownCommandMessage = \<lambda>_ _. ok, OnUnknownDataMessage = \<lambda>_ _. ok,
      OnClose = ok\<rparr>)"

text \<open>response_preset.go\<close>

record ResponsePreset =
  ServerConnectResultProperties :: NetConnectionConnectResultProperties
  ServerConnectResultData :: "(string \<times> amf_value) list"

definition defaultResponsePreset :: ResponsePreset where
  "defaultResponsePreset =
     \<lparr>ServerConnectResultProperties = \<lparr>FMSVer = ''GO-RTMP/0,0,0,0'', PropCapabilities = 31, Mode = 1\<rparr>,
      ServerConnectResultData = [(''type'', AString ''go-rtmp''), (''version'', AString ''master'')]\<rparr>"

text \<open>
  conn.go: \<open>ConnConfig\<close>, without the logger. The sizes of the two bufio buffers do not change what is
  read or written.
\<close>

record 'u ConnConfig =
  cHandler :: "'u Handler option"
  SkipHandshakeVerification :: bool
  IgnoreMessagesOnNotExistStream :: bool
  IgnoreMessagesOnNotExistStreamThreshold :: u32
  ReaderBufferSize :: int
  WriterBufferSize :: int
  ControlState :: StreamControlStateConfig
  RPreset :: "ResponsePreset option"

definition ConnConfig_normalize :: "'u ConnConfig \<Rightarrow> 'u ConnConfig" where
  "ConnConfig_normalize c = c\<lparr>
     cHandler := (case cHandler c of None \<Rightarrow> Some DefaultHandler | Some h \<Rightarrow> Some h),
     ReaderBufferSize := (if ReaderBufferSize c = 0 then 4 * 1024 else ReaderBufferSize c),
     WriterBufferSize := (if WriterBufferSize c = 0 then 4 * 1024 else WriterBufferSize c),
     ControlState := normalize (ControlState c)\<rparr>"

text \<open>What a connection's code runs against: the libraries, the other goroutines, its configuration.\<close>

record 'u runtime =
  rt_lib :: amf0_lib
  rt_ms :: mapstructure
  rt_turn :: "int \<Rightarrow> chunk_out \<Rightarrow> chunk_out \<times> wait_case"
  rt_idle :: "chunk_out \<Rightarrow> chunk_out"
  rt_cfg :: "'u ConnConfig"

definition userHandler :: "'u runtime \<Rightarrow> 'u Handler" where
  "userHandler rt = (case cHandler (rt_cfg rt) of Some h \<Rightarrow> h | None \<Rightarrow> DefaultHandler)"

section \<open>Writing\<close>

definition Stream_Write :: "'u runtime \<Rightarrow> u32 \<Rightarrow> int \<Rightarrow> u32 \<Rightarrow> message \<Rightarrow> 'u callback" where
  "Stream_Write rt sid csid ts msg w =
     (case rt_turn rt csid (w_out w) of (out, c) \<Rightarrow>
      case Write (rt_lib rt) csid ts \<lparr>StreamID = sid, Message = msg\<rparr> c out of
        (Ok _, out) \<Rightarrow> (Ok (), w\<lparr>w_out := out, w_log := w_log w @ [(sid, csid, ts, msg)]\<rparr>)
      | (Err e, out) \<Rightarrow> (Err e, w\<lparr>w_out := out\<rparr>)
      | (Panic m, out) \<Rightarrow> (Panic m, w\<lparr>w_out := out\<rparr>))"

definition writeCommandMessage ::
  "'u runtime \<Rightarrow> Stream \<Rightarrow> int \<Rightarrow> u32 \<Rightarrow> string \<Rightarrow> i64 \<Rightarrow> amf_body \<Rightarrow> 'u callback" where
  "writeCommandMessage rt s csid ts commandName tid body w =
     andthen (NewAMF (encTy s), w) (\<lambda>_ w.
     (case EncodeBodyAnyValues (rt_lib rt) (Some body) [] of
        (Ok _, bs) \<Rightarrow> Stream_Write rt (streamID s) csid ts (CommandMessage commandName tid (encTy s) bs) w
      | (Err e, _) \<Rightarrow> (Err e, w)
      | (Panic m, _) \<Rightarrow> (Panic m, w)))"

definition WriteDataMessage ::
  "'u runtime \<Rightarrow> Stream \<Rightarrow> int \<Rightarrow> u32 \<Rightarrow> string \<Rightarrow> amf_body \<Rightarrow> 'u callback" where
  "WriteDataMessage rt s csid ts name body w =
     (case EncodeBodyAnyValues (rt_lib rt) (Some body) [] of
        (Ok _, bs) \<Rightarrow> Stream_Write rt (streamID s) csid ts (DataMessage name EncodingTypeAMF0 bs) w
      | (Err e, _) \<Rightarrow> (Err e, w)
      | (Panic m, _) \<Rightarrow> (Panic m, w))"

definition WriteSetChunkSize :: "'u runtime \<Rightarrow> Stream \<Rightarrow> u32 \<Rightarrow> 'u callback" where
  "WriteSetChunkSize rt s n w =
     (if n < 1 then (Err (Errorf ''chunksize < 1'' []), w)
      else if n > 0x7fffffff then (Err (Errorf ''chunksize > 0x7fffffff'' []), w)
      else Stream_Write rt (streamID s) 2 0 (SetChunkSize n) w)"

definition WriteWinAckSize :: "'u runtime \<Rightarrow> Stream \<Rightarrow> int \<Rightarrow> u32 \<Rightarrow> i32 \<Rightarrow> 'u callback" where
  "WriteWinAckSize rt s csid ts n = Stream_Write rt (streamID s) csid ts (WinAckSize n)"

definition WriteSetPeerBandwidth :: "'u runtime \<Rightarrow> Stream \<Rightarrow> int \<Rightarrow> u32 \<Rightarrow> i32 \<Rightarrow> byte \<Rightarrow> 'u callback" where
  "WriteSetPeerBandwidth rt s csid ts n limit = Stream_Write rt (streamID s) csid ts (SetPeerBandwidth n limit)"

definition WriteUserCtrl :: "'u runtime \<Rightarrow> Stream \<Rightarrow> int \<Rightarrow> u32 \<Rightarrow> UserCtrlEvent \<Rightarrow> 'u callback" where
  "WriteUserCtrl rt s csid ts ev = Stream_Write rt (streamID s) csid ts (UserCtrl ev)"

section \<open>The commands of a server\<close>

definition ReplyConnect ::
  "'u runtime \<Rightarrow> Stream \<Rightarrow> int \<Rightarrow> u32 \<Rightarrow> NetConnectionConnectResultProperties \<Rightarrow>
     NetConnectionConnectResultInformation \<Rightarrow> 'u callback" where
  "ReplyConnect rt s csid ts props info =
     (let commandName =
        (if Code info = NetConnectionConnectCodeSuccess \<or> Code info = NetConnectionConnectCodeClosed then ''_result''
         else if Code info = NetConnectionConnectCodeFailed then ''_error''
         else [])
      in writeCommandMessage rt s csid ts commandName 1 (NetConnectionConnectResult props info))"

text \<open>A nil body is an error reply with stream id 0.\<close>

definition ReplyCreateStream :: "'u runtime \<Rightarrow> Stream \<Rightarrow> int \<Rightarrow> u32 \<Rightarrow> i64 \<Rightarrow> u32 option \<Rightarrow> 'u callback" where
  "ReplyCreateStream rt s csid ts tid body =
     (case body of
        None \<Rightarrow> writeCommandMessage rt s csid ts ''_error'' tid (NetConnectionCreateStreamResult 0)
      | Some newID \<Rightarrow> writeCommandMessage rt s csid ts ''_result'' tid (NetConnectionCreateStreamResult newID))"

definition NotifyStatus :: "'u runtime \<Rightarrow> Stream \<Rightarrow> int \<Rightarrow> u32 \<Rightarrow> amf_body \<Rightarrow> 'u callback" where
  "NotifyStatus rt s csid ts body = writeCommandMessage rt s csid ts ''onStatus'' 0 body"

section \<open>The commands of a client\<close>

text \<open>
  \<open>Connect\<close> and \<open>CreateStream\<close> send their command and wait until the message loop has answered their
  transaction; there is no timeout. Each is two definitions, the part before the wait and the part
  after it. A rejection is an error of its own type, \<open>Rejected\<close>.
\<close>

datatype ('a, 'r) client_result = Accepted 'a | Rejected i64 'r

definition Connect_send ::
  "'u runtime \<Rightarrow> NetConnectionConnectCommand option \<Rightarrow> Stream \<times> 'u world \<Rightarrow> unit outcome \<times> (Stream \<times> 'u world)" where
  "Connect_send rt body sw =
     (case sw of (s, w) \<Rightarrow>
      case transactions_Create 1 (trs s) of
        (Err e, ts) \<Rightarrow> (Err e, (s\<lparr>trs := ts\<rparr>, w))
      | (Panic m, ts) \<Rightarrow> (Panic m, (s\<lparr>trs := ts\<rparr>, w))
      | (Ok t, ts) \<Rightarrow>
          (let s = s\<lparr>trs := ts\<rparr>;
               cmd = (case body of None \<Rightarrow> zeroConnectCommand | Some c \<Rightarrow> c)
           in case writeCommandMessage rt s 3 0 ''connect'' 1 (NetConnectionConnect cmd) w of
                (res, w) \<Rightarrow> (res, (s, w))))"

definition Connect_result :: "'u runtime \<Rightarrow> transaction \<Rightarrow> (amf_body, amf_body) client_result outcome" where
  "Connect_result rt t =
     bindr (NewAMF (tr_encoding t)) (\<lambda>_.
     bindr (map_outcome_err (\<lambda>e. Wrap e ''Failed to decode result'')
              (fst (DecodeBodyConnectResult (rt_lib rt) (rt_ms rt) (tr_body t)))) (\<lambda>result.
       Ok (if tr_commandName t = ''_error'' then Rejected 1 result else Accepted result)))"

definition CreateStream_send ::
  "'u runtime \<Rightarrow> u32 \<Rightarrow> Stream \<times> 'u world \<Rightarrow> unit outcome \<times> (Stream \<times> 'u world)" where
  "CreateStream_send rt chunk_size sw =
     (case sw of (s, w) \<Rightarrow>
      let change = (chunk_size > 0 \<and> chunk_size \<noteq> chunkSize (selfState (w_out w)));
          p = (if change then
                 WriteSetChunkSize rt s chunk_size
                   (w\<lparr>w_out := (w_out w)\<lparr>selfState := (selfState (w_out w))\<lparr>chunkSize := chunk_size\<rparr>\<rparr>\<rparr>)
               else (Ok (), w))
      in bindo p (\<lambda>_ w.
        case transactions_Create 2 (trs s) of
          (Err e, ts) \<Rightarrow> (Err e, (s\<lparr>trs := ts\<rparr>, w))
        | (Panic m, ts) \<Rightarrow> (Panic m, (s\<lparr>trs := ts\<rparr>, w))
        | (Ok t, ts) \<Rightarrow>
            (let s = s\<lparr>trs := ts\<rparr> in
             case writeCommandMessage rt s 3 0 ''createStream'' 2 NetConnectionCreateStream w of
               (res, w) \<Rightarrow> (res, (s, w)))) (\<lambda>w. (s, w)))"

definition CreateStream_result :: "'u runtime \<Rightarrow> transaction \<Rightarrow> (u32, u32) client_result outcome" where
  "CreateStream_result rt t =
     bindr (NewAMF (tr_encoding t)) (\<lambda>_.
     bindr (map_outcome_err (\<lambda>e. Wrap e ''Failed to decode result'')
              (fst (DecodeBodyCreateStreamResult (rt_lib rt) (rt_ms rt) (tr_body t)))) (\<lambda>result.
       (case result of
          NetConnectionCreateStreamResult sid \<Rightarrow>
            Ok (if tr_commandName t = ''_error'' then Rejected 2 sid else Accepted sid)
        | _ \<Rightarrow> Panic ''interface conversion'')))"

definition Stream_DeleteStream :: "'u runtime \<Rightarrow> Stream \<Rightarrow> u32 \<Rightarrow> 'u callback" where
  "Stream_DeleteStream rt s target = writeCommandMessage rt s 3 0 ''deleteStream'' 0 (NetStreamDeleteStream target)"

definition Stream_Publish :: "'u runtime \<Rightarrow> Stream \<Rightarrow> (string \<times> string) option \<Rightarrow> 'u callback" where
  "Stream_Publish rt s body =
     (let (name, ty) = (case body of None \<Rightarrow> ([], []) | Some p \<Rightarrow> p)
      in writeCommandMessage rt s 3 0 ''publish'' 0 (NetStreamPublish name ty))"

section \<open>What a write changes\<close>

text \<open>A write adds at most its own message to the history and touches nothing of the application.\<close>

lemma Stream_Write_frame [frame]:
  "w_usr (snd (Stream_Write rt sid csid ts m w)) = w_usr w"
  "w_http (snd (Stream_Write rt sid csid ts m w)) = w_http w"
  by (simp_all add: Stream_Write_def split: prod.splits outcome.splits)

lemma Stream_Write_log:
  "Stream_Write rt sid csid ts m w = (res, w') \<Longrightarrow>
   w_log w' = w_log w @ (if is_Ok res then [(sid, csid, ts, m)] else [])"
  by (auto simp: Stream_Write_def split: prod.splits outcome.splits)

lemma writeCommandMessage_log:
  assumes "writeCommandMessage rt s csid ts name tid body w = (res, w')"
  obtains (wrote) bs where "res = Ok ()" "EncodeBodyAnyValues (rt_lib rt) (Some body) [] = (Ok (), bs)"
      "w_log w' = w_log w @ [(streamID s, csid, ts, CommandMessage name tid (encTy s) bs)]"
  | (failed) "res \<noteq> Ok ()" "w_log w' = w_log w"
proof -
  have "(\<exists>bs. res = Ok () \<and> EncodeBodyAnyValues (rt_lib rt) (Some body) [] = (Ok (), bs) \<and>
      w_log w' = w_log w @ [(streamID s, csid, ts, CommandMessage name tid (encTy s) bs)]) \<or>
    (res \<noteq> Ok () \<and> w_log w' = w_log w)"
    using assms unfolding writeCommandMessage_def
    by (cases "NewAMF (encTy s)"; cases res)
      (auto split: prod.splits outcome.splits dest!: Stream_Write_log)
  with that show thesis by blast
qed

lemma writeCommandMessage_frame [frame]:
  "w_usr (snd (writeCommandMessage rt s csid ts name tid body w)) = w_usr w"
  "w_http (snd (writeCommandMessage rt s csid ts name tid body w)) = w_http w"
  by (cases "NewAMF (encTy s)"; auto simp: writeCommandMessage_def frame split: prod.splits outcome.splits)+

end
