(* ===== verification/Http.thy ===== *)
theory Http
  imports Prelude
begin

text \<open>
  What the HTTP handlers of the servers write: the same \<open>Response\<close> with its \<open>SendJson\<close> stands in
  server_relay_demo/main.go, cchls, hlsnew and their integrated versions. The status that reaches the
  client is the one of the first header or body; a body is a list of the pieces written.
\<close>

datatype body_part = TextBody string | JsonBody int "string option"

record Response =
  resp_status :: "int option"
  resp_body :: "body_part list"

definition WriteHeader :: "int \<Rightarrow> Response \<Rightarrow> Response" where
  "WriteHeader st w = (case resp_status w of None \<Rightarrow> w\<lparr>resp_status := Some st\<rparr> | Some _ \<Rightarrow> w)"

definition Write_body :: "body_part \<Rightarrow> Response \<Rightarrow> Response" where
  "Write_body b w = (WriteHeader 200 w)\<lparr>resp_body := resp_body w @ [b]\<rparr>"

definition SendJson :: "int \<Rightarrow> string option \<Rightarrow> Response \<Rightarrow> Response" where
  "SendJson st d w = Write_body (JsonBody st d) (WriteHeader st w)"

text \<open>A deferred \<open>SendJson\<close> adds its JSON to what was written, but comes too late to set the status.\<close>

lemma SendJson_late: "resp_status w = Some st' \<Longrightarrow>
  SendJson st d w = \<lparr>resp_status = Some st', resp_body = resp_body w @ [JsonBody st d]\<rparr>"
  by (simp add: SendJson_def Write_body_def WriteHeader_def)

end
