(* ===== verification/Relay.thy ===== *)
theory Relay
  imports StreamIO Http
begin

text \<open>
  example/server_relay_demo: a publisher's media is relayed to the players of its room. The pubsubs,
  publishers and subscribers are shared by reference between the service, the connections and each
  other, so the state holds them in stores and refers to them by their index. The operations are those of
  pubsub.go, relay_service.go, handler.go, callback.go and of the key service in main.go.

  The FLV library and \<open>conn.Write\<close> of the players' connections are the argument \<open>relay_env\<close>.
\<close>

section \<open>Data\<close>

text \<open>
  A media tag: what go-flv decodes of the header of its data, and the bytes that follow. Script data
  is decoded whole. Nothing reads the type field of a tag.
\<close>

datatype ('a, 'v, 's) tag_data = AudioData 'a "byte list" | VideoData 'v "byte list" | ScriptData 's

record ('a, 'v, 's) FlvTag =
  tagTimestamp :: u32
  tagData :: "('a, 'v, 's) tag_data"

text \<open>What is handed to \<open>conn.Write\<close>: which connection, chunk stream, timestamp and message.\<close>

type_synonym relay_write = "nat \<times> int \<times> u32 \<times> ChunkMessage"

text \<open>\<open>conn_Write\<close> is the error \<open>conn.Write\<close> returns, given everything written before.\<close>

record ('a, 'v, 's) relay_env =
  DecodeAudioData :: "byte list \<Rightarrow> ('a \<times> byte list) outcome"
  DecodeVideoData :: "byte list \<Rightarrow> ('v \<times> byte list) outcome"
  DecodeScriptData :: "byte list \<Rightarrow> 's outcome"
  EncodeAudioData :: "'a \<Rightarrow> byte list \<Rightarrow> byte list outcome"
  EncodeVideoData :: "'v \<Rightarrow> byte list \<Rightarrow> byte list outcome"
  EncodeScriptData :: "'s \<Rightarrow> byte list outcome"
  isSequenceHeader :: "'v \<Rightarrow> bool"
  isKeyFrame :: "'v \<Rightarrow> bool"
  env_amf :: amf0_lib
  conn_Write :: "relay_write list \<Rightarrow> relay_write \<Rightarrow> go_err option"

record Sub =
  initialized :: bool
  sub_closed :: bool
  lastTimestamp :: u32
  eventCallback :: "(nat \<times> u32) option"

record ('a, 'v, 's) Pub =
  pub_pb :: nat
  avcSeqHeader :: "('a, 'v, 's) FlvTag option"
  lastKeyFrame :: "('a, 'v, 's) FlvTag option"

record Pubsub =
  pb_name :: string
  pb_pub :: "nat option"
  pb_subs :: "nat list"

text \<open>The fields of a connection's \<open>Handler\<close> that change.\<close>

record RelayHandler =
  hd_pub :: "nat option"
  hd_sub :: "nat option"

record ('a, 'v, 's) relay =
  r_streams :: "(string \<times> nat) list"
  r_cache :: "(string \<times> string) list"
  r_pubsubs :: "Pubsub list"
  r_pubs :: "('a, 'v, 's) Pub list"
  r_subs :: "Sub list"
  r_handlers :: "nat \<Rightarrow> RelayHandler"
  r_sent :: "relay_write list"

definition NewRelayService :: "('a, 'v, 's) relay" where
  "NewRelayService = \<lparr>r_streams = [], r_cache = [], r_pubsubs = [], r_pubs = [], r_subs = [],
     r_handlers = (\<lambda>_. \<lparr>hd_pub = None, hd_sub = None\<rparr>), r_sent = []\<rparr>"

type_synonym ('a, 'v, 's, 'r) relay_op = "('a, 'v, 's) relay \<Rightarrow> 'r outcome \<times> ('a, 'v, 's) relay"

section \<open>The service\<close>

definition NewPubsub :: "string \<Rightarrow> ('a, 'v, 's, nat) relay_op" where
  "NewPubsub key r =
     (case map_of (r_streams r) key of
        Some _ \<Rightarrow> (Err (Errorf ''Already published: %s'' [ArgStr key]), r)
      | None \<Rightarrow>
          let a = length (r_pubsubs r) in
          (Ok a, r\<lparr>r_pubsubs := r_pubsubs r @ [\<lparr>pb_name = key, pb_pub = None, pb_subs = []\<rparr>],
                   r_streams := set_key key a (r_streams r)\<rparr>))"

definition GetPubsub :: "string \<Rightarrow> ('a, 'v, 's) relay \<Rightarrow> nat outcome" where
  "GetPubsub key r =
     (case map_of (r_streams r) key of
        Some a \<Rightarrow> Ok a
      | None \<Rightarrow> Err (Errorf ''Not published: %s'' [ArgStr key]))"

definition RemovePubsub :: "string \<Rightarrow> ('a, 'v, 's, unit) relay_op" where
  "RemovePubsub key r =
     (case map_of (r_streams r) key of
        None \<Rightarrow> (Err (Errorf ''Not published: %s'' [ArgStr key]), r)
      | Some _ \<Rightarrow> (Ok (), r\<lparr>r_streams := del_key key (r_streams r)\<rparr>))"

text \<open>main.go: \<open>Cache\<close>, the room keys.\<close>

definition Cache_Set :: "string \<Rightarrow> string \<Rightarrow> ('a, 'v, 's) relay \<Rightarrow> ('a, 'v, 's) relay" where
  "Cache_Set key v r = r\<lparr>r_cache := set_key key v (r_cache r)\<rparr>"

definition Cache_Get :: "string \<Rightarrow> ('a, 'v, 's) relay \<Rightarrow> string \<times> bool" where
  "Cache_Get key r = (case map_of (r_cache r) key of Some v \<Rightarrow> (v, True) | None \<Rightarrow> ([], False))"

section \<open>Subscribers\<close>

definition Sub_Close :: "nat \<Rightarrow> ('a, 'v, 's) relay \<Rightarrow> ('a, 'v, 's) relay" where
  "Sub_Close i r =
     (if sub_closed (r_subs r ! i) then r
      else r\<lparr>r_subs := (r_subs r)[i := (r_subs r ! i)\<lparr>sub_closed := True\<rparr>]\<rparr>)"

text \<open>
  callback.go: \<open>onEventCallback\<close>, in two parts: the message made of a tag, and its writing. The script data
  goes through \<open>NetStreamSetDataFrame\<close>, as its payload.
\<close>

definition event_message :: "('a, 'v, 's) relay_env \<Rightarrow> ('a, 'v, 's) FlvTag \<Rightarrow> (int \<times> message) outcome" where
  "event_message E flv =
     (case tagData flv of
        AudioData d bs \<Rightarrow> bindr (EncodeAudioData E d bs) (\<lambda>buf. Ok (5, AudioMessage buf))
      | VideoData d bs \<Rightarrow> bindr (EncodeVideoData E d bs) (\<lambda>buf. Ok (6, VideoMessage buf))
      | ScriptData d \<Rightarrow>
          bindr (EncodeScriptData E d) (\<lambda>buf.
          (case EncodeBodyAnyValues (env_amf E) (Some (NetStreamSetDataFrame buf ANil)) [] of
             (Ok _, body) \<Rightarrow> Ok (8, DataMessage ''@setDataFrame'' EncodingTypeAMF0 body)
           | (Err e, _) \<Rightarrow> Err e
           | (Panic m, _) \<Rightarrow> Panic m)))"

definition onEventCallback :: "('a, 'v, 's) relay_env \<Rightarrow> nat \<Rightarrow> u32 \<Rightarrow> ('a, 'v, 's) FlvTag \<Rightarrow> ('a, 'v, 's, unit) relay_op" where
  "onEventCallback E conn strm flv r =
     (case event_message E flv of
        Err e \<Rightarrow> (Err e, r)
      | Panic m \<Rightarrow> (Panic m, r)
      | Ok (csid, msg) \<Rightarrow>
          let w = (conn, csid, tagTimestamp flv, \<lparr>StreamID = strm, Message = msg\<rparr>) in
          ((case conn_Write E (r_sent r) w of None \<Rightarrow> Ok () | Some e \<Rightarrow> Err e), r\<lparr>r_sent := r_sent r @ [w]\<rparr>))"

text \<open>
  \<open>flv\<close> is the clone that \<open>cloneView\<close> made for this call, so the change of its timestamp is not seen by others.
\<close>

definition onEvent :: "('a, 'v, 's) relay_env \<Rightarrow> nat \<Rightarrow> ('a, 'v, 's) FlvTag \<Rightarrow> ('a, 'v, 's, unit) relay_op" where
  "onEvent E i flv r =
     (let s = r_subs r ! i in
      if sub_closed s then (Ok (), r)
      else
        let base = (if tagTimestamp flv \<noteq> 0 \<and> lastTimestamp s = 0 then tagTimestamp flv else lastTimestamp s);
            r = r\<lparr>r_subs := (r_subs r)[i := s\<lparr>lastTimestamp := base\<rparr>]\<rparr>;
            flv = flv\<lparr>tagTimestamp := tagTimestamp flv - base\<rparr> in
        (case eventCallback s of
           None \<Rightarrow> (Panic ''invalid memory address or nil pointer dereference'', r)
         | Some (conn, strm) \<Rightarrow> onEventCallback E conn strm flv r))"

section \<open>Publishers\<close>

text \<open>A loop over the subscribers that drops the errors of its calls.\<close>

fun each_sub :: "(nat \<Rightarrow> 'st \<Rightarrow> unit outcome \<times> 'st) \<Rightarrow> nat list \<Rightarrow> 'st \<Rightarrow> unit outcome \<times> 'st" where
  "each_sub f [] r = (Ok (), r)"
| "each_sub f (i # is) r =
     (case f i r of
        (Panic m, r) \<Rightarrow> (Panic m, r)
      | (_, r) \<Rightarrow> each_sub f is r)"

text \<open>The two catch-up events are only sent when there is something to send.\<close>

definition dropped :: "('st \<Rightarrow> unit outcome \<times> 'st) \<Rightarrow> 'st \<Rightarrow> unit outcome \<times> 'st" where
  "dropped f r = (case f r of (Err _, r) \<Rightarrow> (Ok (), r) | p \<Rightarrow> p)"

definition opt_event :: "('a, 'v, 's) relay_env \<Rightarrow> nat \<Rightarrow> ('a, 'v, 's) FlvTag option \<Rightarrow> ('a, 'v, 's, unit) relay_op" where
  "opt_event E i flv r = (case flv of None \<Rightarrow> (Ok (), r) | Some flv \<Rightarrow> dropped (onEvent E i flv) r)"

definition video_event :: "('a, 'v, 's) relay_env \<Rightarrow> nat \<Rightarrow> ('a, 'v, 's) FlvTag \<Rightarrow> nat \<Rightarrow> ('a, 'v, 's, unit) relay_op" where
  "video_event E p flv i r =
     (if \<not> initialized (r_subs r ! i) then
        andthen (opt_event E i (avcSeqHeader (r_pubs r ! p)) r) (\<lambda>_ r.
        andthen (opt_event E i (lastKeyFrame (r_pubs r ! p)) r) (\<lambda>_ r.
          (Ok (), r\<lparr>r_subs := (r_subs r)[i := (r_subs r ! i)\<lparr>initialized := True\<rparr>]\<rparr>)))
      else onEvent E i flv r)"

definition remember :: "('a, 'v, 's) relay_env \<Rightarrow> ('a, 'v, 's) FlvTag \<Rightarrow> ('a, 'v, 's) Pub \<Rightarrow> ('a, 'v, 's) Pub" where
  "remember E flv pub =
     (case tagData flv of
        VideoData d _ \<Rightarrow>
          let pub = (if isSequenceHeader E d then pub\<lparr>avcSeqHeader := Some flv\<rparr> else pub) in
          (if isKeyFrame E d then pub\<lparr>lastKeyFrame := Some flv\<rparr> else pub)
      | _ \<Rightarrow> pub)"

definition Publish_tag :: "('a, 'v, 's) relay_env \<Rightarrow> nat option \<Rightarrow> ('a, 'v, 's) FlvTag \<Rightarrow> ('a, 'v, 's, unit) relay_op" where
  "Publish_tag E pub flv r =
     (case pub of
        None \<Rightarrow> (Panic ''invalid memory address or nil pointer dereference'', r)
      | Some p \<Rightarrow>
          let subs = pb_subs (r_pubsubs r ! pub_pb (r_pubs r ! p)) in
          (case tagData flv of
             VideoData d _ \<Rightarrow>
               each_sub (video_event E p flv) subs (r\<lparr>r_pubs := (r_pubs r)[p := remember E flv (r_pubs r ! p)]\<rparr>)
           | _ \<Rightarrow> each_sub (\<lambda>i. onEvent E i flv) subs r))"

definition Deregister :: "nat \<Rightarrow> ('a, 'v, 's, unit) relay_op" where
  "Deregister a r =
     RemovePubsub (pb_name (r_pubsubs r ! a)) (fold Sub_Close (pb_subs (r_pubsubs r ! a)) r)"

definition Pub_Close :: "nat \<Rightarrow> ('a, 'v, 's, unit) relay_op" where
  "Pub_Close p r = Deregister (pub_pb (r_pubs r ! p)) r"

definition Pubsub_Pub :: "nat \<Rightarrow> ('a, 'v, 's) relay \<Rightarrow> nat \<times> ('a, 'v, 's) relay" where
  "Pubsub_Pub a r =
     (let p = length (r_pubs r) in
      (p, r\<lparr>r_pubs := r_pubs r @ [\<lparr>pub_pb = a, avcSeqHeader = None, lastKeyFrame = None\<rparr>],
            r_pubsubs := (r_pubsubs r)[a := (r_pubsubs r ! a)\<lparr>pb_pub := Some p\<rparr>]\<rparr>))"

definition Pubsub_Sub :: "nat \<Rightarrow> ('a, 'v, 's) relay \<Rightarrow> nat \<times> ('a, 'v, 's) relay" where
  "Pubsub_Sub a r =
     (let i = length (r_subs r) in
      (i, r\<lparr>r_subs := r_subs r @ [\<lparr>initialized = False, sub_closed = False, lastTimestamp = 0, eventCallback = None\<rparr>],
            r_pubsubs := (r_pubsubs r)[a := (r_pubsubs r ! a)\<lparr>pb_subs := pb_subs (r_pubsubs r ! a) @ [i]\<rparr>]\<rparr>))"

section \<open>The handler of a connection\<close>

definition set_handler :: "nat \<Rightarrow> RelayHandler \<Rightarrow> ('a, 'v, 's) relay \<Rightarrow> ('a, 'v, 's) relay" where
  "set_handler h hnd r = r\<lparr>r_handlers := (r_handlers r)(h := hnd)\<rparr>"

definition relay_OnPublish :: "nat \<Rightarrow> string \<Rightarrow> ('a, 'v, 's, unit) relay_op" where
  "relay_OnPublish h publishingName r =
     (if hd_sub (r_handlers r h) \<noteq> None then (Err (Errorf ''Cannot publish to this stream'' []), r)
      else if publishingName = [] then (Err (Errorf ''PublishingName is empty'' []), r)
      else (case NewPubsub publishingName r of
              (Ok a, r) \<Rightarrow>
                (case Pubsub_Pub a r of (p, r) \<Rightarrow> (Ok (), set_handler h ((r_handlers r h)\<lparr>hd_pub := Some p\<rparr>) r))
            | (Err e, r) \<Rightarrow> (Err (Wrap e ''Failed to create pubsub''), r)
            | (Panic m, r) \<Rightarrow> (Panic m, r)))"

definition relay_OnPlay :: "nat \<Rightarrow> u32 \<Rightarrow> string \<Rightarrow> ('a, 'v, 's, unit) relay_op" where
  "relay_OnPlay h strm streamName r =
     (if hd_sub (r_handlers r h) \<noteq> None then (Err (Errorf ''Cannot play on this stream'' []), r)
      else
        let key = fst (Cache_Get streamName r) in
        (case GetPubsub key r of
           Err e \<Rightarrow> (Err (Wrap e ''Failed to get pubsub''), r)
         | Panic m \<Rightarrow> (Panic m, r)
         | Ok a \<Rightarrow>
             (case Pubsub_Sub a r of (i, r) \<Rightarrow>
                (Ok (), set_handler h ((r_handlers r h)\<lparr>hd_sub := Some i\<rparr>)
                   (r\<lparr>r_subs := (r_subs r)[i := (r_subs r ! i)\<lparr>eventCallback := Some (h, strm)\<rparr>]\<rparr>)))))"

text \<open>A script that does not decode is ignored; audio and video that do not decode are errors.\<close>

definition relay_OnSetDataFrame :: "('a, 'v, 's) relay_env \<Rightarrow> nat \<Rightarrow> u32 \<Rightarrow> byte list \<Rightarrow> ('a, 'v, 's, unit) relay_op" where
  "relay_OnSetDataFrame E h ts payload r =
     (case DecodeScriptData E payload of
        Ok script \<Rightarrow>
          dropped (Publish_tag E (hd_pub (r_handlers r h)) \<lparr>tagTimestamp = ts, tagData = ScriptData script\<rparr>) r
      | Err _ \<Rightarrow> (Ok (), r)
      | Panic m \<Rightarrow> (Panic m, r))"

definition relay_OnAudio :: "('a, 'v, 's) relay_env \<Rightarrow> nat \<Rightarrow> u32 \<Rightarrow> byte list \<Rightarrow> ('a, 'v, 's, unit) relay_op" where
  "relay_OnAudio E h ts payload r =
     (case DecodeAudioData E payload of
        Ok (d, bs) \<Rightarrow>
          dropped (Publish_tag E (hd_pub (r_handlers r h)) \<lparr>tagTimestamp = ts, tagData = AudioData d bs\<rparr>) r
      | Err e \<Rightarrow> (Err e, r)
      | Panic m \<Rightarrow> (Panic m, r))"

definition relay_OnVideo :: "('a, 'v, 's) relay_env \<Rightarrow> nat \<Rightarrow> u32 \<Rightarrow> byte list \<Rightarrow> ('a, 'v, 's, unit) relay_op" where
  "relay_OnVideo E h ts payload r =
     (case DecodeVideoData E payload of
        Ok (d, bs) \<Rightarrow>
          dropped (Publish_tag E (hd_pub (r_handlers r h)) \<lparr>tagTimestamp = ts, tagData = VideoData d bs\<rparr>) r
      | Err e \<Rightarrow> (Err e, r)
      | Panic m \<Rightarrow> (Panic m, r))"

definition relay_OnClose :: "nat \<Rightarrow> ('a, 'v, 's, unit) relay_op" where
  "relay_OnClose h r =
     (let r = (case hd_pub (r_handlers r h) of None \<Rightarrow> r | Some p \<Rightarrow> snd (Pub_Close p r));
          r = (case hd_sub (r_handlers r h) of None \<Rightarrow> r | Some i \<Rightarrow> Sub_Close i r)
      in (Ok (), r))"

text \<open>The handler that main.go gives each connection, over the default one.\<close>

definition on_relay :: "('a, 'v, 's, unit) relay_op \<Rightarrow> ('a, 'v, 's) relay callback" where
  "on_relay f w = (case f (w_usr w) of (res, r) \<Rightarrow> (res, w\<lparr>w_usr := r\<rparr>))"

definition relayHandler :: "('a, 'v, 's) relay_env \<Rightarrow> nat \<Rightarrow> ('a, 'v, 's) relay Handler" where
  "relayHandler E h = DefaultHandler\<lparr>
     OnPublish := \<lambda>sid ts name ty. on_relay (relay_OnPublish h name),
     OnPlay := \<lambda>sid ts name start. on_relay (relay_OnPlay h sid name),
     OnSetDataFrame := \<lambda>ts payload. on_relay (relay_OnSetDataFrame E h ts payload),
     OnAudio := \<lambda>ts payload. on_relay (relay_OnAudio E h ts payload),
     OnVideo := \<lambda>ts payload. on_relay (relay_OnVideo E h ts payload),
     OnClose := on_relay (relay_OnClose h)\<rparr>"

section \<open>The key service\<close>

text \<open>
  main.go: \<open>rand_Intn\<close> gives the random numbers in order.
\<close>

definition letterRunes :: string where
  "letterRunes = ''0123456789ABCDEFGHIJKLMNOPQRSTUVWXYZ''"

definition RandStr :: "(nat \<Rightarrow> nat) \<Rightarrow> nat \<Rightarrow> string" where
  "RandStr rand_Intn n = map (\<lambda>i. letterRunes ! rand_Intn i) [0..<n]"

text \<open>
  \<open>form_ok\<close> is that the form parses, \<open>channel\<close> the query's channel; the deferred \<open>SendJson\<close> comes last. The result holds
  the response and the URLs it fetched, whose answers are dropped.
\<close>

definition handler ::
  "(nat \<Rightarrow> nat) \<Rightarrow> bool \<Rightarrow> string \<Rightarrow> ('a, 'v, 's) relay \<Rightarrow> (Response \<times> string list) \<times> ('a, 'v, 's) relay" where
  "handler rand_Intn form_ok channel r =
     (let w = \<lparr>resp_status = None, resp_body = []\<rparr>; usage = Some ''url: /data?channel=<ROOM_NAME>'' in
      if \<not> form_ok then ((SendJson 400 usage w, []), r)
      else if channel = [] then ((SendJson 400 usage w, []), r)
      else
        let key = RandStr rand_Intn 48 in
        ((SendJson 200 (Some key) (Write_body (TextBody (''Response for channel='' @ channel)) w),
          [''http://localhost:7001/data?channel='' @ channel]),
         Cache_Set channel key r))"

end
