(* ===== verification/RelayInv.thy ===== *)
theory RelayInv
  imports Relay
begin

text \<open>
  The relay's state under any interleaving of its connections' callbacks and requests for keys: the
  references in it are valid, a room has one publisher at a time, a connection has one subscription,
  and a closed subscription is never written to again. The rooms are another table of the
  \<open>keyed_table\<close> interface.
\<close>

interpretation rooms: keyed_table NewPubsub RemovePubsub GetPubsub "\<lambda>r. map_of (r_streams r)" "\<lambda>_. True"
  by unfold_locales
    (auto simp: NewPubsub_def RemovePubsub_def GetPubsub_def Let_def split: option.splits)

section \<open>What happens to a relay\<close>

datatype relay_event =
    EvPublish nat string
  | EvPlay nat u32 string
  | EvScript nat u32 "byte list"
  | EvAudio nat u32 "byte list"
  | EvVideo nat u32 "byte list"
  | EvClose nat
  | EvKey "nat \<Rightarrow> nat" bool string

fun relay_do :: "('a, 'v, 's) relay_env \<Rightarrow> relay_event \<Rightarrow> ('a, 'v, 's, unit) relay_op" where
  "relay_do E (EvPublish h name) r = relay_OnPublish h name r"
| "relay_do E (EvPlay h strm name) r = relay_OnPlay h strm name r"
| "relay_do E (EvScript h ts payload) r = relay_OnSetDataFrame E h ts payload r"
| "relay_do E (EvAudio h ts payload) r = relay_OnAudio E h ts payload r"
| "relay_do E (EvVideo h ts payload) r = relay_OnVideo E h ts payload r"
| "relay_do E (EvClose h) r = relay_OnClose h r"
| "relay_do E (EvKey rnd form_ok channel) r = (Ok (), snd (handler rnd form_ok channel r))"

inductive relay_reach :: "('a, 'v, 's) relay_env \<Rightarrow> ('a, 'v, 's) relay \<Rightarrow> bool" for E where
  fresh: "relay_reach E NewRelayService"
| event: "relay_reach E r \<Longrightarrow> relay_reach E (snd (relay_do E ev r))"

section \<open>Publishing to one subscriber\<close>

text \<open>
  What one subscriber does with one tag, on its own: its new state and what is written to its
  connection. The publisher's part is the two tags it keeps.
\<close>

definition written :: "('a, 'v, 's) relay_env \<Rightarrow> (nat \<times> u32) option \<Rightarrow> ('a, 'v, 's) FlvTag \<Rightarrow> relay_write list" where
  "written E cb flv =
     (case (cb, event_message E flv) of
        (Some (c, strm), Ok (csid, msg)) \<Rightarrow> [(c, csid, tagTimestamp flv, \<lparr>StreamID = strm, Message = msg\<rparr>)]
      | _ \<Rightarrow> [])"

definition base_for :: "u32 \<Rightarrow> ('a, 'v, 's) FlvTag \<Rightarrow> u32" where
  "base_for base flv = (if tagTimestamp flv \<noteq> 0 \<and> base = 0 then tagTimestamp flv else base)"

definition rebase :: "u32 \<Rightarrow> ('a, 'v, 's) FlvTag \<Rightarrow> ('a, 'v, 's) FlvTag" where
  "rebase base flv = flv\<lparr>tagTimestamp := tagTimestamp flv - base_for base flv\<rparr>"

definition feed1 :: "('a, 'v, 's) relay_env \<Rightarrow> ('a, 'v, 's) FlvTag \<Rightarrow> Sub \<Rightarrow> Sub \<times> relay_write list" where
  "feed1 E flv s =
     (if sub_closed s then (s, [])
      else (s\<lparr>lastTimestamp := base_for (lastTimestamp s) flv\<rparr>, written E (eventCallback s) (rebase (lastTimestamp s) flv)))"

fun feeds :: "('a, 'v, 's) relay_env \<Rightarrow> ('a, 'v, 's) FlvTag list \<Rightarrow> Sub \<Rightarrow> Sub \<times> relay_write list" where
  "feeds E [] s = (s, [])"
| "feeds E (flv # flvs) s =
     (case feed1 E flv s of (s, ws) \<Rightarrow> case feeds E flvs s of (s, ws') \<Rightarrow> (s, ws @ ws'))"

definition is_video :: "('a, 'v, 's) FlvTag \<Rightarrow> bool" where
  "is_video flv \<longleftrightarrow> (case tagData flv of VideoData _ _ \<Rightarrow> True | _ \<Rightarrow> False)"

definition kept :: "('a, 'v, 's) Pub \<Rightarrow> ('a, 'v, 's) FlvTag list" where
  "kept pub = (case avcSeqHeader pub of None \<Rightarrow> [] | Some t \<Rightarrow> [t]) @ (case lastKeyFrame pub of None \<Rightarrow> [] | Some t \<Rightarrow> [t])"

definition feed :: "('a, 'v, 's) relay_env \<Rightarrow> ('a, 'v, 's) Pub \<Rightarrow> ('a, 'v, 's) FlvTag \<Rightarrow> Sub \<Rightarrow> Sub \<times> relay_write list" where
  "feed E pub flv s =
     (if is_video flv \<and> \<not> initialized s then
        (case feeds E (kept pub) s of (s, ws) \<Rightarrow> (s\<lparr>initialized := True\<rparr>, ws))
      else feed1 E flv s)"

text \<open>The library does not panic when it encodes what it decoded.\<close>

definition encodes :: "('a, 'v, 's) relay_env \<Rightarrow> bool" where
  "encodes E \<longleftrightarrow> (\<forall>flv m. event_message E flv \<noteq> Panic m)"

definition fed :: "(Sub \<Rightarrow> Sub \<times> relay_write list) \<Rightarrow> nat \<Rightarrow> ('a, 'v, 's) relay \<Rightarrow> ('a, 'v, 's) relay" where
  "fed f i r = r\<lparr>r_subs := (r_subs r)[i := fst (f (r_subs r ! i))], r_sent := r_sent r @ snd (f (r_subs r ! i))\<rparr>"

lemma fed_sel [simp]:
  "r_streams (fed f i r) = r_streams r" "r_cache (fed f i r) = r_cache r" "r_pubsubs (fed f i r) = r_pubsubs r"
  "r_pubs (fed f i r) = r_pubs r" "r_handlers (fed f i r) = r_handlers r"
  "length (r_subs (fed f i r)) = length (r_subs r)"
  by (simp_all add: fed_def)

lemma feed1_keeps [simp]:
  "eventCallback (fst (feed1 E flv s)) = eventCallback s" "sub_closed (fst (feed1 E flv s)) = sub_closed s"
  "initialized (fst (feed1 E flv s)) = initialized s"
  by (simp_all add: feed1_def)

lemma feeds_keeps [simp]:
  "eventCallback (fst (feeds E flvs s)) = eventCallback s" "sub_closed (fst (feeds E flvs s)) = sub_closed s"
  "initialized (fst (feeds E flvs s)) = initialized s"
  by (induction flvs arbitrary: s) (simp_all add: case_prod_beta)

lemma feed_keeps [simp]:
  "eventCallback (fst (feed E pub flv s)) = eventCallback s" "sub_closed (fst (feed E pub flv s)) = sub_closed s"
  by (simp_all add: feed_def case_prod_beta)

lemma onEvent_fed:
  assumes "encodes E" "eventCallback (r_subs r ! i) \<noteq> None"
  shows "\<exists>res. onEvent E i flv r = (res, fed (feed1 E flv) i r) \<and> (\<forall>m. res \<noteq> Panic m)"
proof (cases "sub_closed (r_subs r ! i)")
  case True
  then show ?thesis by (simp add: onEvent_def fed_def feed1_def)
next
  case False
  obtain c strm where cb: "eventCallback (r_subs r ! i) = Some (c, strm)" using assms(2) by auto
  let ?flv = "rebase (lastTimestamp (r_subs r ! i)) flv"
  have "onEvent E i flv r = onEventCallback E c strm ?flv
      (r\<lparr>r_subs := (r_subs r)[i := (r_subs r ! i)\<lparr>lastTimestamp := base_for (lastTimestamp (r_subs r ! i)) flv\<rparr>]\<rparr>)"
    using False by (simp add: onEvent_def cb rebase_def base_for_def Let_def)
  moreover have "event_message E ?flv \<noteq> Panic m" for m using assms(1) by (simp add: encodes_def)
  ultimately show ?thesis using False cb
    by (cases "event_message E ?flv")
      (auto simp: onEventCallback_def fed_def feed1_def written_def Let_def split: option.split)
qed

lemma fed_fed:
  assumes "i < length (r_subs r)"
  shows "fed g i (fed f i r) = fed (\<lambda>s. (fst (g (fst (f s))), snd (f s) @ snd (g (fst (f s))))) i r"
  using assms by (simp add: fed_def)

lemma opt_event_fed:
  assumes "encodes E" "i < length (r_subs r)" "eventCallback (r_subs r ! i) \<noteq> None"
  shows "opt_event E i flv r = (Ok (), fed (feeds E (case flv of None \<Rightarrow> [] | Some t \<Rightarrow> [t])) i r)"
proof (cases flv)
  case None
  then show ?thesis by (simp add: opt_event_def fed_def)
next
  case (Some t)
  obtain res where r: "onEvent E i t r = (res, fed (feed1 E t) i r)" "\<forall>m. res \<noteq> Panic m"
    using onEvent_fed [OF assms(1,3)] by blast
  moreover have "feeds E [t] = feed1 E t" by (simp add: fun_eq_iff case_prod_beta)
  ultimately show ?thesis using Some by (cases res) (simp_all add: opt_event_def dropped_def)
qed

lemma feeds_append:
  "feeds E (xs @ ys) s = (fst (feeds E ys (fst (feeds E xs s))), snd (feeds E xs s) @ snd (feeds E ys (fst (feeds E xs s))))"
  by (induction xs arbitrary: s) (simp_all add: case_prod_beta)

lemma fed_callback [simp]:
  "eventCallback (fst (f (r_subs r ! i))) = eventCallback (r_subs r ! i) \<Longrightarrow>
   eventCallback (r_subs (fed f i r) ! j) = eventCallback (r_subs r ! j)"
  by (cases "j = i \<and> i < length (r_subs r)") (auto simp: fed_def nth_list_update list_update_beyond)

lemma video_event_fed:
  assumes "encodes E" "i < length (r_subs r)" "eventCallback (r_subs r ! i) \<noteq> None" "is_video flv"
  shows "\<exists>res. video_event E p flv i r = (res, fed (feed E (r_pubs r ! p) flv) i r) \<and> (\<forall>m. res \<noteq> Panic m)"
proof (cases "initialized (r_subs r ! i)")
  case True
  then have "fed (feed1 E flv) i r = fed (feed E (r_pubs r ! p) flv) i r" by (simp add: fed_def feed_def)
  with True onEvent_fed [OF assms(1,3), of flv] show ?thesis by (simp add: video_event_def)
next
  case False
  let ?pub = "r_pubs r ! p"
  let ?f = "feeds E (case avcSeqHeader ?pub of None \<Rightarrow> [] | Some t \<Rightarrow> [t])"
  let ?g = "feeds E (case lastKeyFrame ?pub of None \<Rightarrow> [] | Some t \<Rightarrow> [t])"
  have fg: "fed ?g i (fed ?f i r) = fed (feeds E (kept ?pub)) i r"
    by (simp add: fed_fed assms(2) fed_def kept_def feeds_append)
  have "video_event E p flv i r =
      (let r = fed ?g i (fed ?f i r) in (Ok (), r\<lparr>r_subs := (r_subs r)[i := (r_subs r ! i)\<lparr>initialized := True\<rparr>]\<rparr>))"
    using False assms by (simp add: video_event_def opt_event_fed Let_def)
  also have "\<dots> = (Ok (), fed (feed E ?pub flv) i r)"
    unfolding fg using False assms(2,4) by (simp add: Let_def fed_def feed_def case_prod_beta)
  finally show ?thesis by simp
qed

text \<open>The loop over distinct subscribers.\<close>

lemma each_sub_fed:
  assumes "\<And>i r. i \<in> set is \<Longrightarrow> Q r \<Longrightarrow> \<exists>res. step i r = (res, fed f i r) \<and> (\<forall>m. res \<noteq> Panic m)"
    and "\<And>i r. i \<in> set is \<Longrightarrow> Q r \<Longrightarrow> Q (fed f i r)" and "Q r"
  shows "each_sub step is r = (Ok (), fold (fed f) is r)"
  using assms
proof (induction "is" arbitrary: r)
  case (Cons i "is")
  from Cons.prems(1) [of i r] Cons.prems(3) obtain res where
    "step i r = (res, fed f i r)" "\<forall>m. res \<noteq> Panic m" by auto
  moreover have "each_sub step is (fed f i r) = (Ok (), fold (fed f) is (fed f i r))"
    by (rule Cons.IH) (use Cons.prems in auto)
  ultimately show ?case by (cases res) simp_all
qed simp

lemma fold_fed_sel [simp]:
  "r_streams (fold (fed f) is r) = r_streams r" "r_cache (fold (fed f) is r) = r_cache r"
  "r_pubsubs (fold (fed f) is r) = r_pubsubs r" "r_pubs (fold (fed f) is r) = r_pubs r"
  "r_handlers (fold (fed f) is r) = r_handlers r" "length (r_subs (fold (fed f) is r)) = length (r_subs r)"
  by (induction "is" arbitrary: r) simp_all

lemma fold_fed:
  assumes "distinct is" "\<forall>i \<in> set is. i < length (r_subs r)"
  shows "(\<forall>j. r_subs (fold (fed f) is r) ! j = (if j \<in> set is then fst (f (r_subs r ! j)) else r_subs r ! j)) \<and>
    r_sent (fold (fed f) is r) = r_sent r @ concat (map (\<lambda>i. snd (f (r_subs r ! i))) is)"
  using assms
proof (induction "is" arbitrary: r)
  case (Cons i "is")
  have at: "r_subs (fed f i r) ! k = (if k = i then fst (f (r_subs r ! i)) else r_subs r ! k)" for k
    using Cons.prems by (simp add: fed_def)
  note IH = Cons.IH [of "fed f i r"]
  have "map (\<lambda>k. snd (f (r_subs (fed f i r) ! k))) is = map (\<lambda>k. snd (f (r_subs r ! k))) is"
    using Cons.prems by (auto simp: at)
  moreover have "r_sent (fed f i r) = r_sent r @ snd (f (r_subs r ! i))" by (simp add: fed_def)
  ultimately have "r_sent (fold (fed f) (i # is) r) = r_sent r @ concat (map (\<lambda>i. snd (f (r_subs r ! i))) (i # is))"
    using IH Cons.prems by (simp only: fold.simps o_def) simp
  moreover have "r_subs (fold (fed f) (i # is) r) ! j =
      (if j \<in> set (i # is) then fst (f (r_subs r ! j)) else r_subs r ! j)" for j
    using IH Cons.prems by (auto simp: at)
  ultimately show ?case by blast
qed simp

lemmas fold_fed_subs = fold_fed [THEN conjunct1, THEN spec]
lemmas fold_fed_sent = fold_fed [THEN conjunct2]

section \<open>The references of a relay\<close>

text \<open>
  A published name leads to a pubsub of that name, publishers and subscribers lead somewhere, and the
  subscription a connection is written to is the one its handler has.
\<close>

definition relay_ok :: "('a, 'v, 's) relay \<Rightarrow> bool" where
  "relay_ok r \<longleftrightarrow>
     (\<forall>k a. map_of (r_streams r) k = Some a \<longrightarrow> a < length (r_pubsubs r) \<and> pb_name (r_pubsubs r ! a) = k \<and> k \<noteq> []) \<and>
     (\<forall>p < length (r_pubs r). pub_pb (r_pubs r ! p) < length (r_pubsubs r)) \<and>
     (\<forall>a < length (r_pubsubs r). distinct (pb_subs (r_pubsubs r ! a)) \<and> (\<forall>i \<in> set (pb_subs (r_pubsubs r ! a)). i < length (r_subs r))) \<and>
     (\<forall>i < length (r_subs r). \<exists>h strm. eventCallback (r_subs r ! i) = Some (h, strm) \<and> hd_sub (r_handlers r h) = Some i) \<and>
     (\<forall>h. (\<forall>p. hd_pub (r_handlers r h) = Some p \<longrightarrow> p < length (r_pubs r)) \<and>
          (\<forall>i. hd_sub (r_handlers r h) = Some i \<longrightarrow> i < length (r_subs r) \<and> (\<exists>strm. eventCallback (r_subs r ! i) = Some (h, strm))))"

text \<open>An operation that does no more than feed, close or forget keeps it.\<close>

lemma relay_ok_cong:
  assumes "relay_ok r" "map_of (r_streams r') \<subseteq>\<^sub>m map_of (r_streams r)" "r_pubsubs r' = r_pubsubs r" "r_handlers r' = r_handlers r"
    and "length (r_pubs r') = length (r_pubs r)" "\<And>p. pub_pb (r_pubs r' ! p) = pub_pb (r_pubs r ! p)"
    and "length (r_subs r') = length (r_subs r)" "\<And>i. eventCallback (r_subs r' ! i) = eventCallback (r_subs r ! i)"
  shows "relay_ok r'"
proof -
  have "map_of (r_streams r) k = Some a" if "map_of (r_streams r') k = Some a" for k a
    using assms(2) that by (auto simp: map_le_def dom_def)
  then show ?thesis using assms(1) unfolding relay_ok_def assms(3-8) by blast
qed

end
