(* ===== verification/RelayProps.thy ===== *)
theory RelayProps
  imports RelayInv
begin

text \<open>Properties of the relay: what its subscribers receive, who may publish, and what stays behind.\<close>

section \<open>Publishing feeds every subscriber on its own\<close>

definition pub_subs :: "nat \<Rightarrow> ('a, 'v, 's) relay \<Rightarrow> nat list" where
  "pub_subs p r = pb_subs (r_pubsubs r ! pub_pb (r_pubs r ! p))"

lemma remember_pb [simp]: "pub_pb (remember E flv pub) = pub_pb pub"
  by (simp add: remember_def Let_def split: tag_data.split)

lemma remember_other: "\<not> is_video flv \<Longrightarrow> remember E flv pub = pub"
  by (auto simp: remember_def is_video_def split: tag_data.splits)

lemma relay_ok_subs:
  assumes "relay_ok r" "p < length (r_pubs r)"
  shows "distinct (pub_subs p r)" "i \<in> set (pub_subs p r) \<Longrightarrow> i < length (r_subs r)"
  using assms unfolding relay_ok_def pub_subs_def by blast+

lemma relay_ok_callback: "relay_ok r \<Longrightarrow> i < length (r_subs r) \<Longrightarrow> eventCallback (r_subs r ! i) \<noteq> None"
  unfolding relay_ok_def by (metis option.distinct(1))

lemma Publish_fed:
  fixes flv :: "('a, 'v, 's) FlvTag"
  assumes "relay_ok (r :: ('a, 'v, 's) relay)" "encodes E" "p < length (r_pubs r)"
  defines "pub \<equiv> remember E flv (r_pubs r ! p)"
  shows "Publish_tag E (Some p) flv r =
    (Ok (), fold (fed (feed E pub flv)) (pub_subs p r) (r\<lparr>r_pubs := (r_pubs r)[p := pub]\<rparr>))"
proof -
  let ?subs = "pub_subs p r"
  let ?r = "r\<lparr>r_pubs := (r_pubs r)[p := pub]\<rparr>"
  let ?Q = "\<lambda>r2 :: ('a, 'v, 's) relay. r_pubs r2 ! p = pub \<and> length (r_subs r2) = length (r_subs r) \<and>
     (\<forall>i < length (r_subs r). eventCallback (r_subs r2 ! i) \<noteq> None)"
  have Q: "?Q ?r" using assms relay_ok_callback [OF assms(1)] by simp
  have step: "?Q (fed (feed E pub flv) i r2)" if "?Q r2" for i r2 using that by simp
  have loop: "each_sub step ?subs ?r = (Ok (), fold (fed (feed E pub flv)) ?subs ?r)"
    if st: "\<And>i r2. i < length (r_subs r2) \<Longrightarrow> ?Q r2 \<Longrightarrow> eventCallback (r_subs r2 ! i) \<noteq> None \<Longrightarrow>
      \<exists>res. step i r2 = (res, fed (feed E pub flv) i r2) \<and> (\<forall>m. res \<noteq> Panic m)" for step :: "nat \<Rightarrow> ('a, 'v, 's, unit) relay_op"
    by (rule each_sub_fed [where Q = ?Q])
      (use st step Q relay_ok_subs(2) [OF assms(1,3)] in \<open>auto simp del: fed_callback\<close>)
  show ?thesis
  proof (cases "is_video flv")
    case True
    then have "Publish_tag E (Some p) flv r = each_sub (video_event E p flv) ?subs ?r"
      by (auto simp: Publish_tag_def is_video_def pub_subs_def pub_def split: tag_data.splits)
    moreover have "each_sub (video_event E p flv) ?subs ?r = (Ok (), fold (fed (feed E pub flv)) ?subs ?r)"
    proof (rule loop)
      fix i r2 assume "i < length (r_subs r2)" "?Q r2" "eventCallback (r_subs r2 ! i) \<noteq> None"
      then show "\<exists>res. video_event E p flv i r2 = (res, fed (feed E pub flv) i r2) \<and> (\<forall>m. res \<noteq> Panic m)"
        using video_event_fed [OF assms(2) _ _ True, of i r2 p] by simp
    qed
    ultimately show ?thesis by simp
  next
    case False
    then have "pub = r_pubs r ! p" by (simp add: pub_def remember_other)
    then have "?r = r" by simp
    have f: "feed E pub flv = feed1 E flv" using False by (simp add: feed_def fun_eq_iff)
    have "Publish_tag E (Some p) flv r = each_sub (\<lambda>i. onEvent E i flv) ?subs r"
      using False by (auto simp: Publish_tag_def is_video_def pub_subs_def split: tag_data.splits)
    also have "\<dots> = each_sub (\<lambda>i. onEvent E i flv) ?subs ?r" by (simp only: \<open>?r = r\<close>)
    also have "\<dots> = (Ok (), fold (fed (feed E pub flv)) ?subs ?r)"
      by (rule loop) (use onEvent_fed [OF assms(2)] f in auto)
    finally show ?thesis .
  qed
qed

section \<open>The references stay valid\<close>

lemma fold_fed_callback:
  "eventCallback (r_subs (fold (fed (feed E pub flv)) is r) ! j) = eventCallback (r_subs r ! j)"
  by (induction "is" arbitrary: r) simp_all

lemma Publish_ok:
  assumes "relay_ok r" "encodes E" "p < length (r_pubs r)"
  shows "relay_ok (snd (Publish_tag E (Some p) flv r))"
  unfolding Publish_fed [OF assms]
  by (rule relay_ok_cong [OF assms(1)]) (use assms(3) in \<open>auto simp: fold_fed_callback nth_list_update\<close>)

lemma Sub_Close_keeps [simp]:
  "r_streams (Sub_Close i r) = r_streams r" "r_pubsubs (Sub_Close i r) = r_pubsubs r" "r_pubs (Sub_Close i r) = r_pubs r"
  "r_handlers (Sub_Close i r) = r_handlers r" "r_sent (Sub_Close i r) = r_sent r" "length (r_subs (Sub_Close i r)) = length (r_subs r)"
  "eventCallback (r_subs (Sub_Close i r) ! j) = eventCallback (r_subs r ! j)"
  by (simp_all add: Sub_Close_def) (cases "j = i \<and> i < length (r_subs r)", auto simp: nth_list_update list_update_beyond)

lemma closing_keeps [simp]:
  "r_streams (fold Sub_Close is r) = r_streams r" "r_pubsubs (fold Sub_Close is r) = r_pubsubs r"
  "r_pubs (fold Sub_Close is r) = r_pubs r" "r_handlers (fold Sub_Close is r) = r_handlers r"
  "r_sent (fold Sub_Close is r) = r_sent r" "length (r_subs (fold Sub_Close is r)) = length (r_subs r)"
  "eventCallback (r_subs (fold Sub_Close is r) ! j) = eventCallback (r_subs r ! j)"
  by (induction "is" arbitrary: r) simp_all

lemma Pub_Close_keeps:
  "snd (Pub_Close p r) = (fold Sub_Close (pub_subs p r) r)\<lparr>r_streams := del_key (pb_name (r_pubsubs r ! pub_pb (r_pubs r ! p))) (r_streams r)\<rparr>"
proof -
  have "del_key k t = t" if "map_of t k = None" for k and t :: "(string \<times> nat) list"
    using that by (auto simp: del_key_def map_of_eq_None_iff intro!: filter_True)
  then show ?thesis
    by (auto simp: Pub_Close_def Deregister_def RemovePubsub_def pub_subs_def split: option.split)
qed

lemma OnClose_ok: "relay_ok r \<Longrightarrow> relay_ok (snd (relay_OnClose h r))"
  by (rule relay_ok_cong, assumption)
    (auto simp: relay_OnClose_def Pub_Close_keeps Let_def map_le_def split: option.splits)

lemma OnPublish_ok: "relay_ok r \<Longrightarrow> relay_ok (snd (relay_OnPublish h name r))"
  unfolding relay_OnPublish_def NewPubsub_def Pubsub_Pub_def set_handler_def relay_ok_def
  by (auto simp: Let_def nth_append less_Suc_eq split: option.splits) (metis option.distinct(1))+

lemma OnPlay_ok: "relay_ok r \<Longrightarrow> relay_ok (snd (relay_OnPlay h strm name r))"
  unfolding relay_OnPlay_def GetPubsub_def Pubsub_Sub_def set_handler_def relay_ok_def
  by (auto simp: Let_def nth_append nth_list_update less_Suc_eq split: option.splits) (metis option.distinct(1) less_irrefl)+

lemma snd_dropped [simp]: "snd (dropped f r) = snd (f r)"
  by (simp add: dropped_def split: prod.split outcome.split)

lemma Cache_keeps [simp]: "relay_ok (Cache_Set k v r) = relay_ok r"
  by (simp add: relay_ok_def Cache_Set_def)

lemma relay_ok_pub: "relay_ok r \<Longrightarrow> hd_pub (r_handlers r h) = Some p \<Longrightarrow> p < length (r_pubs r)"
  by (simp add: relay_ok_def)

lemma media_ok:
  "relay_ok r \<Longrightarrow> encodes E \<Longrightarrow> relay_ok (snd (Publish_tag E (hd_pub (r_handlers r h)) flv r))"
  by (cases "hd_pub (r_handlers r h)") (auto simp: Publish_ok relay_ok_pub, simp add: Publish_tag_def)

lemma relay_do_ok: "relay_ok r \<Longrightarrow> encodes E \<Longrightarrow> relay_ok (snd (relay_do E ev r))"
  by (cases ev)
    (auto simp: OnPublish_ok OnPlay_ok OnClose_ok media_ok relay_OnSetDataFrame_def relay_OnAudio_def relay_OnVideo_def
      handler_def Let_def split: outcome.split)

lemma relay_reach_ok: "relay_reach E r \<Longrightarrow> encodes E \<Longrightarrow> relay_ok r"
proof (induction rule: relay_reach.induct)
  case fresh
  show ?case by (simp add: relay_ok_def NewRelayService_def)
qed (rule relay_do_ok)


section \<open>What one subscriber receives\<close>

fun feed_all :: "('a, 'v, 's) relay_env \<Rightarrow> ('a, 'v, 's) Pub \<Rightarrow> ('a, 'v, 's) FlvTag list \<Rightarrow> Sub \<Rightarrow> Sub \<times> relay_write list" where
  "feed_all E pub [] s = (s, [])"
| "feed_all E pub (flv # flvs) s =
     (case feed E (remember E flv pub) flv s of (s, ws) \<Rightarrow>
      case feed_all E (remember E flv pub) flvs s of (s, ws') \<Rightarrow> (s, ws @ ws'))"

definition publish_all :: "('a, 'v, 's) relay_env \<Rightarrow> nat \<Rightarrow> ('a, 'v, 's) FlvTag list \<Rightarrow> ('a, 'v, 's) relay \<Rightarrow> ('a, 'v, 's) relay" where
  "publish_all E p flvs r = fold (\<lambda>flv r. snd (Publish_tag E (Some p) flv r)) flvs r"

definition sent_to :: "nat \<Rightarrow> ('a, 'v, 's) relay \<Rightarrow> relay_write list" where
  "sent_to h r = filter (\<lambda>w. fst w = h) (r_sent r)"

lemma written_owner: "w \<in> set (written E (Some (h, strm)) flv) \<Longrightarrow> fst w = h"
  by (auto simp: written_def split: outcome.splits)

lemma feed1_owner: "eventCallback s = Some (h, strm) \<Longrightarrow> w \<in> set (snd (feed1 E flv s)) \<Longrightarrow> fst w = h"
  by (auto simp: feed1_def dest: written_owner split: if_splits)

lemma feeds_owner: "eventCallback s = Some (h, strm) \<Longrightarrow> w \<in> set (snd (feeds E flvs s)) \<Longrightarrow> fst w = h"
proof (induction flvs arbitrary: s)
  case (Cons flv flvs)
  then show ?case using Cons.IH [of "fst (feed1 E flv s)"] feed1_owner [of s h strm w E flv] by (auto simp: case_prod_beta)
qed simp

lemma feed_owner: "eventCallback s = Some (h, strm) \<Longrightarrow> w \<in> set (snd (feed E pub flv s)) \<Longrightarrow> fst w = h"
  by (auto simp: feed_def case_prod_beta dest: feed1_owner feeds_owner split: if_splits)

lemma filter_concat_one:
  assumes "distinct is" "i \<in> set is" "\<And>k. k \<in> set is \<Longrightarrow> k \<noteq> i \<Longrightarrow> filter P (g k) = []"
  shows "filter P (concat (map g is)) = filter P (g i)"
proof -
  have none: "filter P (concat (map g js)) = []" if "set js \<subseteq> set is - {i}" for js
    using that assms(3) by (induction js) auto
  obtain xs ys where xy: "is = xs @ i # ys" using split_list [OF assms(2)] by blast
  with assms(1) have "set xs \<subseteq> set is - {i}" "set ys \<subseteq> set is - {i}" by auto
  from none [OF this(1)] none [OF this(2)] xy show ?thesis by simp
qed

text \<open>Two subscriptions are those of two connections.\<close>

lemma feed_other:
  assumes "relay_ok r" "k < length (r_subs r)" "i < length (r_subs r)" "k \<noteq> i" "eventCallback (r_subs r ! i) = Some (h, strm)"
  shows "filter (\<lambda>w. fst w = h) (snd (feed E pub flv (r_subs r ! k))) = []"
proof -
  obtain h2 strm2 where cb: "eventCallback (r_subs r ! k) = Some (h2, strm2)" "hd_sub (r_handlers r h2) = Some k"
    using assms(1,2) unfolding relay_ok_def by metis
  have "hd_sub (r_handlers r h) = Some i"
    using assms(1,3,5) unfolding relay_ok_def by (metis option.inject prod.inject)
  with cb assms(4) have "h2 \<noteq> h" by auto
  with feed_owner [OF cb(1)] show ?thesis unfolding filter_empty_conv by metis
qed

lemma Publish_one:
  fixes flv :: "('a, 'v, 's) FlvTag"
  assumes "relay_ok r" "encodes E" "p < length (r_pubs r)" "i \<in> set (pub_subs p r)"
    and "eventCallback (r_subs r ! i) = Some (h, strm)"
  defines "r' \<equiv> snd (Publish_tag E (Some p) flv r)" and "pub \<equiv> remember E flv (r_pubs r ! p)"
  shows "r_subs r' ! i = fst (feed E pub flv (r_subs r ! i))"
    "sent_to h r' = sent_to h r @ snd (feed E pub flv (r_subs r ! i))"
    "r_pubs r' ! p = pub" "length (r_pubs r') = length (r_pubs r)" "pub_subs p r' = pub_subs p r"
proof -
  let ?subs = "pub_subs p r" and ?r = "r\<lparr>r_pubs := (r_pubs r)[p := pub]\<rparr>"
  have r': "r' = fold (fed (feed E pub flv)) ?subs ?r"
    using Publish_fed [OF assms(1-3), of flv] by (simp add: r'_def pub_def)
  note subs = relay_ok_subs [OF assms(1,3)]
  have bnd: "\<forall>i \<in> set ?subs. i < length (r_subs ?r)" using subs(2) by simp
  show "r_subs r' ! i = fst (feed E pub flv (r_subs r ! i))"
    using fold_fed_subs [OF subs(1) bnd] assms(4) by (simp add: r')
  show "r_pubs r' ! p = pub" "length (r_pubs r') = length (r_pubs r)" using assms(3) by (simp_all add: r')
  show "pub_subs p r' = pub_subs p r" using assms(3) by (simp add: r' pub_subs_def pub_def)
  have "filter (\<lambda>w. fst w = h) (snd (feed E pub flv (r_subs r ! k))) = []" if "k \<in> set ?subs" "k \<noteq> i" for k
    using feed_other [OF assms(1) subs(2) [OF that(1)] subs(2) [OF assms(4)] that(2) assms(5)] .
  from filter_concat_one [OF subs(1) assms(4) this]
  have "filter (\<lambda>w. fst w = h) (concat (map (\<lambda>k. snd (feed E pub flv (r_subs r ! k))) ?subs)) =
      filter (\<lambda>w. fst w = h) (snd (feed E pub flv (r_subs r ! i)))" by simp
  also have "\<dots> = snd (feed E pub flv (r_subs r ! i))"
    using feed_owner [OF assms(5)] unfolding filter_id_conv by blast
  finally show "sent_to h r' = sent_to h r @ snd (feed E pub flv (r_subs r ! i))"
    using fold_fed_sent [OF subs(1) bnd] by (simp add: r' sent_to_def)
qed

lemma publish_all_one:
  assumes "relay_ok r" "encodes E" "p < length (r_pubs r)" "i \<in> set (pub_subs p r)"
    and "eventCallback (r_subs r ! i) = Some (h, strm)"
  shows "r_subs (publish_all E p flvs r) ! i = fst (feed_all E (r_pubs r ! p) flvs (r_subs r ! i)) \<and>
    sent_to h (publish_all E p flvs r) = sent_to h r @ snd (feed_all E (r_pubs r ! p) flvs (r_subs r ! i))"
  using assms
proof (induction flvs arbitrary: r)
  case Nil
  then show ?case by (simp add: publish_all_def)
next
  case (Cons flv flvs)
  let ?r = "snd (Publish_tag E (Some p) flv r)"
  note one = Publish_one [OF Cons.prems, of flv]
  have "relay_ok ?r" using Publish_ok Cons.prems by blast
  moreover have "eventCallback (r_subs ?r ! i) = Some (h, strm)" using one(1) Cons.prems by simp
  moreover have "publish_all E p (flv # flvs) r = publish_all E p flvs ?r" by (simp add: publish_all_def)
  ultimately show ?case using Cons.IH [of ?r] Cons.prems one by (simp add: case_prod_beta)
qed

text \<open>A run of tags with the base of the first timestamp that is not zero taken off.\<close>

fun rebased :: "u32 \<Rightarrow> ('a, 'v, 's) FlvTag list \<Rightarrow> ('a, 'v, 's) FlvTag list" where
  "rebased base [] = []"
| "rebased base (flv # flvs) = rebase base flv # rebased (base_for base flv) flvs"

lemma feeds_written:
  "\<not> sub_closed s \<Longrightarrow> snd (feeds E flvs s) = concat (map (written E (eventCallback s)) (rebased (lastTimestamp s) flvs))"
  by (induction flvs arbitrary: s) (simp_all add: case_prod_beta feed1_def)

lemma feed_all_plain:
  assumes "initialized s \<or> list_all (\<lambda>flv. \<not> is_video flv) flvs"
  shows "feed_all E pub flvs s = feeds E flvs s"
  using assms
proof (induction flvs arbitrary: pub s)
  case (Cons flv flvs)
  then have "feed E (remember E flv pub) flv s = feed1 E flv s" by (auto simp: feed_def)
  moreover have "initialized (fst (feed1 E flv s)) \<or> list_all (\<lambda>flv. \<not> is_video flv) flvs" using Cons.prems by auto
  ultimately show ?case by (simp add: case_prod_beta Cons.IH)
qed simp

lemma feeds_init: "snd (feeds E flvs (s\<lparr>initialized := True\<rparr>)) = snd (feeds E flvs s)"
proof (induction flvs arbitrary: s)
  case (Cons flv flvs)
  have "feed1 E flv (s\<lparr>initialized := True\<rparr>) = ((fst (feed1 E flv s))\<lparr>initialized := True\<rparr>, snd (feed1 E flv s))"
    by (simp add: feed1_def)
  with Cons show ?case by (simp add: case_prod_beta)
qed simp

lemma feed_all_append:
  "snd (feed_all E pub (xs @ ys) s) = snd (feed_all E pub xs s) @
     snd (feed_all E (fold (remember E) xs pub) ys (fst (feed_all E pub xs s)))"
  by (induction xs arbitrary: pub s) (simp_all add: case_prod_beta)

lemma fold_remember_other: "list_all (\<lambda>flv. \<not> is_video flv) xs \<Longrightarrow> fold (remember E) xs pub = pub"
  by (induction xs) (simp_all add: remember_other)

lemma feed_all_fresh:
  assumes "\<not> initialized s" "\<not> sub_closed s" "list_all (\<lambda>flv. \<not> is_video flv) before" "is_video v"
  shows "snd (feed_all E pub (before @ v # after) s) = concat (map (written E (eventCallback s))
    (rebased (lastTimestamp s) (before @ kept (remember E v pub) @ after)))"
proof -
  let ?s1 = "fst (feeds E before s)"
  let ?s2 = "fst (feeds E (kept (remember E v pub)) ?s1)"
  have "snd (feed_all E pub (v # after) ?s1) = snd (feeds E (kept (remember E v pub)) ?s1) @ snd (feeds E after ?s2)"
    using assms(1,4) by (simp add: feed_def case_prod_beta feed_all_plain feeds_init)
  then have "snd (feed_all E pub (before @ v # after) s) = snd (feeds E (before @ kept (remember E v pub) @ after) s)"
    using assms(3) by (simp add: feed_all_append feed_all_plain fold_remember_other feeds_append)
  then show ?thesis using assms(2) by (simp add: feeds_written)
qed

text \<open>
  C11. A player that joins a room receives, in order and on its own stream: the audio and script tags
  published before the next video tag; then, in place of that video tag, the last AVC sequence
  header and the last key frame as they are after it; then every tag. The timestamps have the first one
  that is not zero taken off. What other players of the room do makes no difference.
\<close>

theorem subscriber_stream:
  assumes "relay_reach E r" "encodes E" "p < length (r_pubs r)" "i \<in> set (pub_subs p r)"
    and "r_subs r ! i = \<lparr>initialized = False, sub_closed = False, lastTimestamp = 0, eventCallback = Some (h, strm)\<rparr>"
    and "list_all (\<lambda>flv. \<not> is_video flv) before" "is_video v"
  shows "sent_to h (publish_all E p (before @ v # after) r) =
     sent_to h r @ concat (map (written E (Some (h, strm)))
       (rebased 0 (before @ kept (remember E v (r_pubs r ! p)) @ after)))"
  using publish_all_one [OF relay_reach_ok [OF assms(1,2)] assms(2-4), of h strm "before @ v # after"]
    feed_all_fresh [OF _ _ assms(6,7), of "r_subs r ! i"] by (simp add: assms(5))

section \<open>A sample room\<close>

text \<open>A library whose encodings carry the bytes as they are, with the frame type of a video tag in front.\<close>

definition plainFlv :: "(unit, bool, nat) relay_env" where
  "plainFlv = \<lparr>DecodeAudioData = (\<lambda>bs. Ok ((), bs)),
     DecodeVideoData = (\<lambda>bs. case bs of [] \<Rightarrow> Err EOF | b # bs \<Rightarrow> Ok (b = 1, bs)),
     DecodeScriptData = (\<lambda>bs. Ok (length bs)), EncodeAudioData = (\<lambda>_ bs. Ok bs),
     EncodeVideoData = (\<lambda>key bs. Ok ((if key then 1 else 2) # bs)), EncodeScriptData = (\<lambda>n. Ok (replicate n 0)),
     isSequenceHeader = (\<lambda>_. False), isKeyFrame = id, env_amf = sampleAmf, conn_Write = (\<lambda>_ _. None)\<rparr>"

definition roomKey :: string where
  "roomKey = RandStr (\<lambda>_. 0) 48"

definition sampleRoom :: "(unit, bool, nat) relay" where
  "sampleRoom = \<lparr>r_streams = [(roomKey, 0)], r_cache = [(''room'', roomKey)],
     r_pubsubs = [\<lparr>pb_name = roomKey, pb_pub = Some 0, pb_subs = [0]\<rparr>],
     r_pubs = [\<lparr>pub_pb = 0, avcSeqHeader = None, lastKeyFrame = Some \<lparr>tagTimestamp = 1000, tagData = VideoData True [9]\<rparr>\<rparr>],
     r_subs = [\<lparr>initialized = False, sub_closed = False, lastTimestamp = 0, eventCallback = Some (2, 5)\<rparr>],
     r_handlers = (\<lambda>_. \<lparr>hd_pub = None, hd_sub = None\<rparr>)(1 := \<lparr>hd_pub = Some 0, hd_sub = None\<rparr>, 2 := \<lparr>hd_pub = None, hd_sub = Some 0\<rparr>),
     r_sent = []\<rparr>"

lemma roomKey: "roomKey \<noteq> []"
  by (simp add: roomKey_def RandStr_def)

text \<open>A key is asked for, a publisher opens the room and sends a key frame, a player joins.\<close>

lemma sampleRoom_reach: "relay_reach plainFlv sampleRoom"
proof -
  let ?do = "\<lambda>ev r. snd (relay_do plainFlv ev r)"
  have eq: "sampleRoom = ?do (EvPlay 2 5 ''room'') (?do (EvVideo 1 1000 [1, 9])
      (?do (EvPublish 1 roomKey) (?do (EvKey (\<lambda>_. 0) True ''room'') NewRelayService)))"
    using roomKey
    by (simp add: sampleRoom_def NewRelayService_def handler_def Cache_Set_def roomKey_def [symmetric] relay_OnPublish_def NewPubsub_def
        Pubsub_Pub_def set_handler_def relay_OnVideo_def plainFlv_def Publish_tag_def dropped_def remember_def
        relay_OnPlay_def Cache_Get_def GetPubsub_def Pubsub_Sub_def Let_def)
  show ?thesis unfolding eq by (intro relay_reach.intros)
qed

lemma plainFlv_encodes: "encodes plainFlv"
  by (simp add: encodes_def plainFlv_def event_message_def EncodeBodyAnyValues_def
      amf_write_str [OF sampleAmf_string] amf_write_nil [OF sampleAmf_nil] split: tag_data.split)

theorem subscriber_stream_witness:
  "sent_to 2 (publish_all plainFlv 0
      [\<lparr>tagTimestamp = 2000, tagData = AudioData () [7]\<rparr>, \<lparr>tagTimestamp = 2010, tagData = VideoData False [8]\<rparr>,
       \<lparr>tagTimestamp = 2020, tagData = AudioData () [6]\<rparr>] sampleRoom) =
    [(2, 5, 0, \<lparr>StreamID = 5, Message = AudioMessage [7]\<rparr>),
     (2, 6, 4294966296, \<lparr>StreamID = 5, Message = VideoMessage [1, 9]\<rparr>),
     (2, 5, 20, \<lparr>StreamID = 5, Message = AudioMessage [6]\<rparr>)]"
  using subscriber_stream [OF sampleRoom_reach plainFlv_encodes, of 0 0 2 5
      "[\<lparr>tagTimestamp = 2000, tagData = AudioData () [7]\<rparr>]" "\<lparr>tagTimestamp = 2010, tagData = VideoData False [8]\<rparr>"
      "[\<lparr>tagTimestamp = 2020, tagData = AudioData () [6]\<rparr>]"]
  by (simp add: sampleRoom_def pub_subs_def is_video_def remember_def plainFlv_def kept_def sent_to_def written_def
      event_message_def rebase_def base_for_def)

text \<open>
  C37. A player that hears audio before it sees video gets the last key frame with a timestamp that wrapped
  around: the key frame is older than the audio its timestamps count from, and what is sent is the difference
  modulo two to the thirty-second.
\<close>

theorem late_keyframe_wraps:
  assumes "relay_reach E r" "encodes E" "p < length (r_pubs r)" "i \<in> set (pub_subs p r)"
    and "r_subs r ! i = \<lparr>initialized = False, sub_closed = False, lastTimestamp = 0, eventCallback = Some (h, strm)\<rparr>"
    and "kept (remember E v (r_pubs r ! p)) = [key]" "is_video v" "\<not> is_video audio"
    and "tagTimestamp key < tagTimestamp audio"
  shows "sent_to h (publish_all E p [audio, v] r) = sent_to h r @
      written E (Some (h, strm)) (audio\<lparr>tagTimestamp := 0\<rparr>) @
      written E (Some (h, strm)) (key\<lparr>tagTimestamp := tagTimestamp key - tagTimestamp audio\<rparr>) \<and>
    unat (tagTimestamp key - tagTimestamp audio) = 2 ^ 32 - (unat (tagTimestamp audio) - unat (tagTimestamp key))"
proof
  have "tagTimestamp audio \<noteq> 0" using assms(9) by auto
  then have "rebased 0 [audio, key] = [audio\<lparr>tagTimestamp := 0\<rparr>, key\<lparr>tagTimestamp := tagTimestamp key - tagTimestamp audio\<rparr>]"
    by (simp add: rebase_def base_for_def)
  with publish_all_one [OF relay_reach_ok [OF assms(1,2)] assms(2-4), of h strm "[audio, v]"]
    feed_all_fresh [of "r_subs r ! i" "[audio]" v E "r_pubs r ! p" "[]"] assms(5-8)
  show "sent_to h (publish_all E p [audio, v] r) = sent_to h r @
      written E (Some (h, strm)) (audio\<lparr>tagTimestamp := 0\<rparr>) @
      written E (Some (h, strm)) (key\<lparr>tagTimestamp := tagTimestamp key - tagTimestamp audio\<rparr>)" by simp
  show "unat (tagTimestamp key - tagTimestamp audio) = 2 ^ 32 - (unat (tagTimestamp audio) - unat (tagTimestamp key))"
    using assms(9) by (simp add: unat_sub_if_size word_size word_less_nat_alt)
qed

theorem late_keyframe_wraps_witness:
  "sent_to 2 (publish_all plainFlv 0 [\<lparr>tagTimestamp = 2000, tagData = AudioData () [7]\<rparr>,
      \<lparr>tagTimestamp = 2010, tagData = VideoData False [8]\<rparr>] sampleRoom) =
    written plainFlv (Some (2, 5)) \<lparr>tagTimestamp = 0, tagData = AudioData () [7]\<rparr> @
    written plainFlv (Some (2, 5)) \<lparr>tagTimestamp = 4294966296, tagData = VideoData True [9]\<rparr>"
  using late_keyframe_wraps [OF sampleRoom_reach plainFlv_encodes, of 0 0 2 5 "\<lparr>tagTimestamp = 2010, tagData = VideoData False [8]\<rparr>"
      "\<lparr>tagTimestamp = 1000, tagData = VideoData True [9]\<rparr>" "\<lparr>tagTimestamp = 2000, tagData = AudioData () [7]\<rparr>"]
  by (simp add: sampleRoom_def pub_subs_def is_video_def remember_def plainFlv_def kept_def sent_to_def written_def event_message_def)


section \<open>Rooms\<close>

lemma registered:
  assumes "relay_OnPublish h name r = (Ok (), r1)"
  shows "map_of (r_streams r1) name = Some (length (r_pubsubs r))" "hd_pub (r_handlers r1 h) = Some (length (r_pubs r))"
    "map_of (r_streams r) name = None" "map_of (r_streams r1) = (map_of (r_streams r))(name \<mapsto> length (r_pubsubs r))"
    "map_of (r_streams (snd (relay_OnClose h r1))) = map_of (r_streams r)"
proof -
  from assms show n: "map_of (r_streams r) name = None"
    by (auto simp: relay_OnPublish_def NewPubsub_def split: if_splits option.splits)
  from assms have "name \<noteq> []" "hd_sub (r_handlers r h) = None" and r1: "r1 = snd (relay_OnPublish h name r)"
    by (auto simp: relay_OnPublish_def split: if_splits)
  with n have at: "map_of (r_streams r1) = (map_of (r_streams r))(name \<mapsto> length (r_pubsubs r))"
      "hd_pub (r_handlers r1 h) = Some (length (r_pubs r))" "hd_sub (r_handlers r1 h) = None"
      "pub_pb (r_pubs r1 ! length (r_pubs r)) = length (r_pubsubs r)" "pb_name (r_pubsubs r1 ! length (r_pubsubs r)) = name"
    by (auto simp: relay_OnPublish_def NewPubsub_def Pubsub_Pub_def set_handler_def Let_def nth_append)
  then show "map_of (r_streams r1) = (map_of (r_streams r))(name \<mapsto> length (r_pubsubs r))"
      "map_of (r_streams r1) name = Some (length (r_pubsubs r))" "hd_pub (r_handlers r1 h) = Some (length (r_pubs r))"
    by simp_all
  show "map_of (r_streams (snd (relay_OnClose h r1))) = map_of (r_streams r)"
    using n at by (auto simp: relay_OnClose_def Pub_Close_keeps)
qed

text \<open>
  C17. While a connection publishes a name nobody else can publish it, and every player with the room's key and no
  subscription of its own can join. When the publisher's connection closes, the name is free again and no other name
  is affected.
\<close>

theorem one_publisher:
  assumes "relay_OnPublish h name r = (Ok (), r1)"
  shows "(\<forall>h2. \<exists>e. relay_OnPublish h2 name r1 = (Err e, r1)) \<and>
    (\<forall>h2 strm room. hd_sub (r_handlers r1 h2) = None \<longrightarrow> Cache_Get room r1 = (name, True) \<longrightarrow>
      fst (relay_OnPlay h2 strm room r1) = Ok ()) \<and>
    map_of (r_streams (snd (relay_OnClose h r1))) = map_of (r_streams r)"
proof -
  note reg = registered [OF assms]
  have "\<exists>e. relay_OnPublish h2 name r1 = (Err e, r1)" for h2
    using rooms.create_dup [of r1 name] reg(1) by (auto simp: relay_OnPublish_def)
  moreover have "fst (relay_OnPlay h2 strm room r1) = Ok ()"
    if "hd_sub (r_handlers r1 h2) = None" "Cache_Get room r1 = (name, True)" for h2 strm room
    using that rooms.at_Ok [OF reg(1)] by (simp add: relay_OnPlay_def Pubsub_Sub_def Let_def)
  ultimately show ?thesis using reg(5) by blast
qed

theorem one_publisher_witness:
  "\<exists>r1 e. relay_OnPublish 3 ''other'' sampleRoom = (Ok (), r1) \<and> relay_OnPublish 1 ''other'' r1 = (Err e, r1) \<and>
    map_of (r_streams (snd (relay_OnClose 3 r1))) = [roomKey \<mapsto> 0]"
proof -
  have "roomKey \<noteq> ''other''" by (rule notI, drule arg_cong [where f = length]) (simp add: roomKey_def RandStr_def)
  then have s: "map_of (r_streams sampleRoom) ''other'' = None" "hd_sub (r_handlers sampleRoom 3) = None"
    by (simp_all add: sampleRoom_def)
  then obtain r1 where "relay_OnPublish 3 ''other'' sampleRoom = (Ok (), r1)"
    by (simp add: relay_OnPublish_def NewPubsub_def Pubsub_Pub_def Let_def)
  with one_publisher [OF this] show ?thesis by (auto simp: sampleRoom_def fun_eq_iff)
qed

text \<open>
  A connection that publishes two names leaves the first one behind when it closes: the name stays taken, and
  nobody can publish it any more.
\<close>

lemma second_publish_leaks:
  assumes "relay_OnPublish h a r = (Ok (), r1)" "relay_OnPublish h b r1 = (Ok (), r2)"
  shows "(let r3 = snd (relay_OnClose h r2) in
    map_of (r_streams r3) a \<noteq> None \<and> (\<forall>h2. \<exists>e. relay_OnPublish h2 a r3 = (Err e, r3)))"
proof -
  have at: "map_of (r_streams r1) a \<noteq> None" using registered(1) [OF assms(1)] by simp
  have "map_of (r_streams (snd (relay_OnClose h r2))) = map_of (r_streams r1)" using registered(5) [OF assms(2)] .
  with at have t: "map_of (r_streams (snd (relay_OnClose h r2))) a \<noteq> None" by simp
  with rooms.create_dup [OF this] show ?thesis by (auto simp: Let_def relay_OnPublish_def)
qed

lemma second_publish_leaks_witness:
  "\<exists>r1 r2. relay_OnPublish 3 ''a'' NewRelayService = (Ok (), r1) \<and> relay_OnPublish 3 ''b'' r1 = (Ok (), r2) \<and>
    map_of (r_streams (snd (relay_OnClose 3 r2))) ''a'' \<noteq> None"
proof -
  let ?pub = "\<lambda>name r. snd (relay_OnPublish 3 name r)"
  have "relay_OnPublish 3 ''a'' NewRelayService = (Ok (), ?pub ''a'' NewRelayService)"
      "relay_OnPublish 3 ''b'' (?pub ''a'' NewRelayService) = (Ok (), ?pub ''b'' (?pub ''a'' NewRelayService))"
    by (simp_all add: relay_OnPublish_def NewPubsub_def Pubsub_Pub_def set_handler_def NewRelayService_def Let_def)
  with second_publish_leaks [OF this] show ?thesis by (auto simp: Let_def)
qed

section \<open>Closed subscriptions\<close>

definition silenced :: "nat \<Rightarrow> nat \<Rightarrow> ('a, 'v, 's) relay \<Rightarrow> bool" where
  "silenced h i r \<longleftrightarrow> relay_ok r \<and> i < length (r_subs r) \<and> sub_closed (r_subs r ! i) \<and>
     (\<exists>strm. eventCallback (r_subs r ! i) = Some (h, strm))"

lemma feeds_closed: "sub_closed s \<Longrightarrow> feeds E flvs s = (s, [])"
  by (induction flvs) (simp_all add: feed1_def)

lemma feed_closed: "sub_closed s \<Longrightarrow> snd (feed E pub flv s) = []"
  by (simp add: feed_def feeds_closed feed1_def)

lemma silenced_publish:
  assumes "silenced h i r" "encodes E" "p < length (r_pubs r)"
  shows "silenced h i (snd (Publish_tag E (Some p) flv r)) \<and> sent_to h (snd (Publish_tag E (Some p) flv r)) = sent_to h r"
proof -
  let ?pub = "remember E flv (r_pubs r ! p)"
  let ?r = "r\<lparr>r_pubs := (r_pubs r)[p := ?pub]\<rparr>"
  from assms(1) obtain strm where s: "relay_ok r" "i < length (r_subs r)" "sub_closed (r_subs r ! i)"
      "eventCallback (r_subs r ! i) = Some (h, strm)" by (auto simp: silenced_def)
  note subs = relay_ok_subs [OF s(1) assms(3)]
  have bnd: "\<forall>i \<in> set (pub_subs p r). i < length (r_subs ?r)" using subs(2) by simp
  have "filter (\<lambda>w. fst w = h) (snd (feed E ?pub flv (r_subs r ! k))) = []" if "k \<in> set (pub_subs p r)" for k
    using feed_other [OF s(1) subs(2) [OF that] s(2) _ s(4)] feed_closed [OF s(3), of E ?pub flv] by (cases "k = i") simp_all
  then have "filter (\<lambda>w. fst w = h) (concat (map (\<lambda>k. snd (feed E ?pub flv (r_subs r ! k))) (pub_subs p r))) = []"
    by (auto simp: filter_empty_conv)
  then have "sent_to h (snd (Publish_tag E (Some p) flv r)) = sent_to h r"
    unfolding Publish_fed [OF s(1) assms(2,3)] using fold_fed_sent [OF subs(1) bnd] by (simp add: sent_to_def)
  moreover have "silenced h i (snd (Publish_tag E (Some p) flv r))"
    using Publish_ok [OF s(1) assms(2,3)] s fold_fed_subs [OF subs(1) bnd]
    by (simp add: silenced_def Publish_fed [OF s(1) assms(2,3)])
  ultimately show ?thesis by blast
qed

lemma silenced_media:
  assumes "silenced h i r" "encodes E"
  shows "silenced h i (snd (Publish_tag E (hd_pub (r_handlers r h2)) flv r)) \<and>
    sent_to h (snd (Publish_tag E (hd_pub (r_handlers r h2)) flv r)) = sent_to h r"
proof (cases "hd_pub (r_handlers r h2)")
  case (Some p)
  then show ?thesis using silenced_publish [OF assms] relay_ok_pub [of r h2 p] assms(1) by (simp add: silenced_def)
qed (use assms in \<open>simp add: Publish_tag_def\<close>)

lemma closing_closed: "sub_closed (r_subs r ! j) \<Longrightarrow> sub_closed (r_subs (Sub_Close i r) ! j)"
  by (cases "j = i \<and> i < length (r_subs r)") (auto simp: Sub_Close_def nth_list_update list_update_beyond)

lemma closings_closed: "sub_closed (r_subs r ! j) \<Longrightarrow> sub_closed (r_subs (fold Sub_Close is r) ! j)"
  by (induction "is" arbitrary: r) (simp_all add: closing_closed)

lemma silenced_step:
  assumes "silenced h i r" "encodes E"
  shows "silenced h i (snd (relay_do E ev r)) \<and> sent_to h (snd (relay_do E ev r)) = sent_to h r"
proof (cases ev)
  case (EvPublish h2 name)
  then show ?thesis using assms(1) OnPublish_ok [of r h2 name]
    by (auto simp: silenced_def sent_to_def relay_OnPublish_def NewPubsub_def Pubsub_Pub_def set_handler_def Let_def split: option.splits)
next
  case (EvPlay h2 strm name)
  then show ?thesis using assms(1) OnPlay_ok [of r h2 strm name]
    by (auto simp: silenced_def sent_to_def relay_OnPlay_def GetPubsub_def Pubsub_Sub_def set_handler_def Let_def nth_append
        split: option.splits)
next
  case (EvClose h2)
  then show ?thesis using assms(1) OnClose_ok [of r h2]
    by (auto simp: silenced_def sent_to_def relay_OnClose_def Pub_Close_keeps Let_def closing_closed closings_closed split: option.splits)
next
  case (EvKey rnd form_ok channel)
  then show ?thesis using assms(1) by (auto simp: silenced_def sent_to_def handler_def Let_def Cache_Set_def relay_ok_def)
qed (use assms silenced_media [OF assms] in
  \<open>auto simp: relay_OnSetDataFrame_def relay_OnAudio_def relay_OnVideo_def split: outcome.split\<close>)

text \<open>
  C13. When a publisher's connection closes, every subscription of its room is closed. From then on, whatever the
  connections of the relay do, nothing is written to those players, and the same holds for a player whose own connection closed.
\<close>

theorem closed_room_is_silent:
  assumes "relay_reach E r" "encodes E" "i < length (r_subs r)" "eventCallback (r_subs r ! i) = Some (h, strm)"
    and "(\<exists>p. hd_pub (r_handlers r h2) = Some p \<and> i \<in> set (pub_subs p r)) \<or> h2 = h"
  defines "r' \<equiv> snd (relay_OnClose h2 r)"
  shows "sub_closed (r_subs r' ! i) \<and> sent_to h (fold (\<lambda>ev r. snd (relay_do E ev r)) evs r') = sent_to h r"
proof -
  note ok = relay_reach_ok [OF assms(1,2)]
  have close1: "i < length (r_subs r) \<Longrightarrow> sub_closed (r_subs (Sub_Close i r) ! i)" for r :: "('a, 'b, 'c) relay"
    by (simp add: Sub_Close_def)
  have closes: "i \<in> set is \<Longrightarrow> i < length (r_subs r) \<Longrightarrow> sub_closed (r_subs (fold Sub_Close is r) ! i)" for "is" and r :: "('a, 'b, 'c) relay"
    by (induction "is" arbitrary: r) (auto simp: close1 closings_closed)
  have sub: "hd_sub (r_handlers r h) = Some i"
    using ok assms(3,4) unfolding relay_ok_def by (metis option.inject prod.inject)
  have closed: "sub_closed (r_subs r' ! i)"
    using assms(5)
  proof
    assume "\<exists>p. hd_pub (r_handlers r h2) = Some p \<and> i \<in> set (pub_subs p r)"
    then show ?thesis using assms(3) by (auto simp: r'_def relay_OnClose_def Pub_Close_keeps Let_def closes closing_closed split: option.split)
  next
    assume "h2 = h"
    then show ?thesis using assms(3) sub by (auto simp: r'_def relay_OnClose_def Pub_Close_keeps Let_def close1 split: option.split)
  qed
  have "silenced h i r'"
    using closed assms(3,4) OnClose_ok [OF ok, of h2]
    by (auto simp: r'_def silenced_def relay_OnClose_def Pub_Close_keeps Let_def split: option.split)
  then have "sent_to h (fold (\<lambda>ev r. snd (relay_do E ev r)) evs r') = sent_to h r'"
    by (induction evs arbitrary: r') (simp_all add: silenced_step [OF _ assms(2)])
  moreover have "sent_to h r' = sent_to h r"
    by (auto simp: r'_def sent_to_def relay_OnClose_def Pub_Close_keeps Let_def split: option.split)
  ultimately show ?thesis using closed by simp
qed

theorem closed_room_is_silent_witness:
  "sent_to 2 (fold (\<lambda>ev r. snd (relay_do plainFlv ev r)) [EvAudio 1 7 [3], EvPublish 4 ''x'', EvPlay 2 9 ''room'']
      (snd (relay_OnClose 1 sampleRoom))) = []"
  using closed_room_is_silent [OF sampleRoom_reach plainFlv_encodes, of 0 2 5 1 "[EvAudio 1 7 [3], EvPublish 4 ''x'', EvPlay 2 9 ''room'']"]
  by (simp add: sampleRoom_def pub_subs_def sent_to_def)

text \<open>
  The metadata of a stream never reaches its players: what is written for a script tag is the same whatever the
  script holds.
\<close>

lemma metadata_lost:
  assumes "EncodeScriptData E d = Ok bs" "EncodeScriptData E d2 = Ok bs2"
  shows "event_message E \<lparr>tagTimestamp = ts, tagData = ScriptData d\<rparr> = event_message E \<lparr>tagTimestamp = ts2, tagData = ScriptData d2\<rparr>"
  using assms by (simp add: event_message_def EncodeBodyAnyValues_def)

end
