(* ===== verification/StreamHandler.thy ===== *)
theory StreamHandler
  imports StreamIO ChunkReader
begin

text \<open>
  stream_handler.go and the six handlers of a stream's states (server_control_*.go, server_data_*.go,
  client_control_not_connected_handler.go): what a message on a stream does to the connection. A
  handler reaches the peer's control state, the table of streams and the world. Its deferred error
  replies run when its result is an error.
\<close>

section \<open>The connection\<close>

record 'u Conn =
  conn_in :: chunk_in
  conn_streams :: streams
  conn_w :: "'u world"
  ignoredMessages :: u32
  isClosed :: bool

type_synonym 'u conn_op = "'u Conn \<Rightarrow> unit outcome \<times> 'u Conn"

definition on_world :: "'u callback \<Rightarrow> 'u conn_op" where
  "on_world f c = (case f (conn_w c) of (res, w) \<Rightarrow> (res, c\<lparr>conn_w := w\<rparr>))"

definition on_streams :: "(streams \<Rightarrow> 'a outcome \<times> streams) \<Rightarrow> 'u Conn \<Rightarrow> 'a outcome \<times> 'u Conn" where
  "on_streams f c = (case f (conn_streams c) of (res, ss) \<Rightarrow> (res, c\<lparr>conn_streams := ss\<rparr>))"

definition pass_through :: "'u conn_op" where
  "pass_through c = (Err ErrPassThroughMsg, c)"

section \<open>ChangeState\<close>

fun stream_ChangeState :: "streamState \<Rightarrow> Stream \<Rightarrow> unit outcome \<times> Stream" where
  "stream_ChangeState streamStateUnknown s = (Ok (), s)"
| "stream_ChangeState streamStateClientConnected s = (Panic ''Unexpected'', s)"
| "stream_ChangeState st s = (Ok (), s\<lparr>sh_handler := Some st, sh_state := st\<rparr>)"

definition ChangeState :: "u32 \<Rightarrow> streamState \<Rightarrow> 'u conn_op" where
  "ChangeState sid st c =
     (case map_of (strm_map (conn_streams c)) sid of
        None \<Rightarrow> (Ok (), c)
      | Some s \<Rightarrow> (case stream_ChangeState st s of
          (res, s') \<Rightarrow> (res, c\<lparr>conn_streams := putStream sid s' (conn_streams c)\<rparr>)))"

section \<open>Deferred replies\<close>

definition deferred_reply :: "'u conn_op \<Rightarrow> 'u conn_op \<Rightarrow> 'u conn_op" where
  "deferred_reply reply body c =
     (case body c of
        (Err e, c) \<Rightarrow>
          (case reply c of
             (Ok _, c) \<Rightarrow> (Err e, c)
           | (Err e1, c) \<Rightarrow> (Err (Wrap e ''Failed to reply response''), c)
           | (Panic m, c) \<Rightarrow> (Panic m, c))
      | (res, c) \<Rightarrow> (res, c))"

section \<open>server_control_not_connected_handler.go\<close>

definition connect_result :: "'u runtime \<Rightarrow> string \<Rightarrow> string \<Rightarrow> string
    \<Rightarrow> NetConnectionConnectResultProperties \<times> NetConnectionConnectResultInformation" where
  "connect_result rt level code desc =
     (let preset = (case RPreset (rt_cfg rt) of None \<Rightarrow> defaultResponsePreset | Some p \<Rightarrow> p)
      in (ServerConnectResultProperties preset,
          \<lparr>Level = level, Code = code, Description = desc, Data = ServerConnectResultData preset\<rparr>))"

definition newConnectSuccessResult :: "'u runtime
    \<Rightarrow> NetConnectionConnectResultProperties \<times> NetConnectionConnectResultInformation" where
  "newConnectSuccessResult rt =
     connect_result rt ''status'' NetConnectionConnectCodeSuccess ''Connection succeeded.''"

definition newConnectErrorResult :: "'u runtime
    \<Rightarrow> NetConnectionConnectResultProperties \<times> NetConnectionConnectResultInformation" where
  "newConnectErrorResult rt =
     connect_result rt ''error'' NetConnectionConnectCodeFailed ''Connection failed.''"

definition ReplyConnect_with ::
  "'u runtime \<Rightarrow> Stream \<Rightarrow> int \<Rightarrow> u32 \<Rightarrow> NetConnectionConnectResultProperties \<times> NetConnectionConnectResultInformation
     \<Rightarrow> 'u callback" where
  "ReplyConnect_with rt s csid ts r = ReplyConnect rt s csid ts (fst r) (snd r)"

definition serverControlNotConnected_connect ::
  "'u runtime \<Rightarrow> Stream \<Rightarrow> int \<Rightarrow> u32 \<Rightarrow> NetConnectionConnectCommand \<Rightarrow> 'u conn_op" where
  "serverControlNotConnected_connect rt s csid ts cmd c =
     andthen (on_world (OnConnect (userHandler rt) ts cmd) c) (\<lambda>_ c.
     let self = selfState (w_out (conn_w c)) in
     andthen (on_world (WriteWinAckSize rt s ctrlMsgChunkStreamID ts (ackWindowSize self)) c) (\<lambda>_ c.
     let self = selfState (w_out (conn_w c)) in
     andthen (on_world (WriteSetPeerBandwidth rt s ctrlMsgChunkStreamID ts
        (bandwidthWindowSize self) (bandwidthLimitType self)) c) (\<lambda>_ c.
     andthen (on_world (WriteUserCtrl rt s ctrlMsgChunkStreamID ts (UserCtrlEventStreamBegin (streamID s))) c) (\<lambda>_ c.
     andthen (on_world (ReplyConnect_with rt s csid ts (newConnectSuccessResult rt)) c) (\<lambda>_ c.
       ChangeState (streamID s) streamStateServerConnected c)))))"

definition serverControlNotConnected_onCommand ::
  "'u runtime \<Rightarrow> Stream \<Rightarrow> int \<Rightarrow> u32 \<Rightarrow> i64 \<Rightarrow> amf_body \<Rightarrow> 'u conn_op" where
  "serverControlNotConnected_onCommand rt s csid ts tid body =
     (case body of
        NetConnectionConnect cmd \<Rightarrow>
          deferred_reply (on_world (ReplyConnect_with rt s csid ts (newConnectErrorResult rt)))
            (serverControlNotConnected_connect rt s csid ts cmd)
      | _ \<Rightarrow> pass_through)"

definition serverControlNotConnected_onMessage :: "message \<Rightarrow> 'u conn_op" where
  "serverControlNotConnected_onMessage msg = pass_through"

definition serverControlNotConnected_onData :: "amf_body \<Rightarrow> 'u conn_op" where
  "serverControlNotConnected_onData body = pass_through"

section \<open>server_control_connected_handler.go\<close>

definition newCreateStreamSuccessResult :: "u32 \<Rightarrow> u32 option" where
  "newCreateStreamSuccessResult sid = Some sid"

definition newCreateStreamErrorResult :: "u32 option" where
  "newCreateStreamErrorResult = None"

lemmas createStream_results [simp] = newCreateStreamSuccessResult_def newCreateStreamErrorResult_def

definition serverControlConnected_createStream :: "'u runtime \<Rightarrow> Stream \<Rightarrow> int \<Rightarrow> u32 \<Rightarrow> i64 \<Rightarrow> 'u conn_op" where
  "serverControlConnected_createStream rt s csid ts tid c =
     andthen (on_world (OnCreateStream (userHandler rt) ts) c) (\<lambda>_ c.
     (case on_streams CreateIfAvailable c of
        (Panic m, c) \<Rightarrow> (Panic m, c)
      | (Err e, c) \<Rightarrow>
          (case on_world (ReplyCreateStream rt s csid ts tid newCreateStreamErrorResult) c of
             (Err e1, c) \<Rightarrow> (Err (Wrap e ''Failed to reply response''), c)
           | (res, c) \<Rightarrow> (res, c))
      | (Ok new, c) \<Rightarrow>
          andthen (ChangeState (streamID new) streamStateServerInactive c) (\<lambda>_ c.
          (case on_world (ReplyCreateStream rt s csid ts tid (newCreateStreamSuccessResult (streamID new))) c of
             (Err e, c) \<Rightarrow> (Err e, snd (on_streams (streams_Delete (streamID new)) c))
           | (res, c) \<Rightarrow> (res, c)))))"

definition serverControlConnected_onCommand ::
  "'u runtime \<Rightarrow> Stream \<Rightarrow> int \<Rightarrow> u32 \<Rightarrow> i64 \<Rightarrow> amf_body \<Rightarrow> 'u conn_op" where
  "serverControlConnected_onCommand rt s csid ts tid body =
     (case body of
        NetConnectionCreateStream \<Rightarrow>
          deferred_reply (on_world (ReplyCreateStream rt s csid ts tid newCreateStreamErrorResult))
            (serverControlConnected_createStream rt s csid ts tid)
      | NetStreamDeleteStream target \<Rightarrow> (\<lambda>c.
          andthen (on_world (OnDeleteStream (userHandler rt) ts target) c) (\<lambda>_ c.
            on_streams (streams_Delete target) c))
      | NetConnectionReleaseStream name \<Rightarrow> on_world (OnReleaseStream (userHandler rt) ts name)
      | NetStreamFCPublish name \<Rightarrow> on_world (OnFCPublish (userHandler rt) ts name)
      | NetStreamFCUnpublish name \<Rightarrow> on_world (OnFCUnpublish (userHandler rt) ts name)
      | _ \<Rightarrow> pass_through)"

definition serverControlConnected_onMessage :: "message \<Rightarrow> 'u conn_op" where
  "serverControlConnected_onMessage msg = pass_through"

definition serverControlConnected_onData :: "amf_body \<Rightarrow> 'u conn_op" where
  "serverControlConnected_onData body = pass_through"

section \<open>server_data_inactive_handler.go\<close>

definition newOnStatus :: "string \<Rightarrow> string \<Rightarrow> amf_body" where
  "newOnStatus code desc =
     NetStreamOnStatus
       (if code \<in> {NetStreamOnStatusCodeConnectFailed, NetStreamOnStatusCodePlayFailed,
                   NetStreamOnStatusCodePublishBadName, NetStreamOnStatusCodePublishFailed}
        then NetStreamOnStatusLevelError else NetStreamOnStatusLevelStatus) code desc"

text \<open>\<open>go myApi ()\<close>: the request is fired from a goroutine of its own, its result is dropped.\<close>

definition myApi :: "'u callback" where
  "myApi w = (Ok (), w\<lparr>w_http := w_http w @ [''http://localhost:7001/data?channel='' @ ''$tart'']\<rparr>)"

definition inactive_accept ::
  "'u runtime \<Rightarrow> Stream \<Rightarrow> int \<Rightarrow> u32 \<Rightarrow> 'u callback \<Rightarrow> amf_body \<Rightarrow> amf_body \<Rightarrow> 'u conn_op \<Rightarrow> 'u conn_op" where
  "inactive_accept rt s csid ts callback failed succeeded changed c =
     (case on_world callback c of
        (Panic m, c) \<Rightarrow> (Panic m, c)
      | (Err e, c) \<Rightarrow>
          (case on_world (NotifyStatus rt s csid ts failed) c of
             (Ok _, c) \<Rightarrow> (Err e, c)
           | (Err e1, c) \<Rightarrow> (Err (Wrap e ''Failed to reply response''), c)
           | (Panic m, c) \<Rightarrow> (Panic m, c))
      | (Ok _, c) \<Rightarrow> andthen (on_world (NotifyStatus rt s csid ts succeeded) c) (\<lambda>_ c. changed c))"

definition serverDataInactive_onCommand ::
  "'u runtime \<Rightarrow> Stream \<Rightarrow> int \<Rightarrow> u32 \<Rightarrow> amf_body \<Rightarrow> 'u conn_op" where
  "serverDataInactive_onCommand rt s csid ts body =
     (case body of
        NetStreamPublish name ty \<Rightarrow>
          inactive_accept rt s csid ts (OnPublish (userHandler rt) (streamID s) ts name ty)
            (newOnStatus NetStreamOnStatusCodePublishFailed ''Publish failed.'')
            (newOnStatus NetStreamOnStatusCodePublishStart ''Publish succeeded.'')
            (\<lambda>c. andthen (ChangeState (streamID s) streamStateServerPublish c) (\<lambda>_ c. on_world myApi c))
      | NetStreamPlay name start \<Rightarrow>
          inactive_accept rt s csid ts (OnPlay (userHandler rt) (streamID s) ts name start)
            (newOnStatus NetStreamOnStatusCodePlayFailed ''Play failed.'')
            (newOnStatus NetStreamOnStatusCodePlayStart ''Play succeeded.'')
            (ChangeState (streamID s) streamStateServerPlay)
      | _ \<Rightarrow> pass_through)"

definition serverDataInactive_onMessage :: "message \<Rightarrow> 'u conn_op" where
  "serverDataInactive_onMessage msg = pass_through"

definition serverDataInactive_onData :: "amf_body \<Rightarrow> 'u conn_op" where
  "serverDataInactive_onData body = pass_through"

section \<open>server_data_publish_handler.go\<close>

definition serverDataPublish_onMessage :: "'u runtime \<Rightarrow> u32 \<Rightarrow> message \<Rightarrow> 'u conn_op" where
  "serverDataPublish_onMessage rt ts msg =
     (case msg of
        AudioMessage payload \<Rightarrow> on_world (OnAudio (userHandler rt) ts payload)
      | VideoMessage payload \<Rightarrow> on_world (OnVideo (userHandler rt) ts payload)
      | _ \<Rightarrow> pass_through)"

definition serverDataPublish_onData :: "'u runtime \<Rightarrow> u32 \<Rightarrow> amf_body \<Rightarrow> 'u conn_op" where
  "serverDataPublish_onData rt ts body =
     (case body of
        NetStreamSetDataFrame payload amfData \<Rightarrow> on_world (OnSetDataFrame (userHandler rt) ts payload)
      | _ \<Rightarrow> pass_through)"

definition serverDataPublish_onCommand :: "amf_body \<Rightarrow> 'u conn_op" where
  "serverDataPublish_onCommand body = pass_through"

section \<open>server_data_play_handler.go\<close>

definition serverDataPlay_onMessage :: "message \<Rightarrow> 'u conn_op" where
  "serverDataPlay_onMessage msg = pass_through"

definition serverDataPlay_onData :: "amf_body \<Rightarrow> 'u conn_op" where
  "serverDataPlay_onData body = pass_through"

definition serverDataPlay_onCommand :: "amf_body \<Rightarrow> 'u conn_op" where
  "serverDataPlay_onCommand body = pass_through"

section \<open>client_control_not_connected_handler.go\<close>

definition clientControlNotConnected_onMessage :: "message \<Rightarrow> 'u conn_op" where
  "clientControlNotConnected_onMessage msg = pass_through"

definition clientControlNotConnected_onData :: "amf_body \<Rightarrow> 'u conn_op" where
  "clientControlNotConnected_onData body = pass_through"

definition clientControlNotConnected_onCommand :: "amf_body \<Rightarrow> 'u conn_op" where
  "clientControlNotConnected_onCommand body =
     (case body of NetConnectionConnectResult props info \<Rightarrow> (\<lambda>c. (Ok (), c)) | _ \<Rightarrow> pass_through)"

lemmas small_handlers [simp] =
  serverControlNotConnected_onMessage_def serverControlNotConnected_onData_def
  serverControlConnected_onMessage_def serverControlConnected_onData_def
  serverDataInactive_onMessage_def serverDataInactive_onData_def
  serverDataPublish_onMessage_def serverDataPublish_onData_def serverDataPublish_onCommand_def
  serverDataPlay_onMessage_def serverDataPlay_onData_def serverDataPlay_onCommand_def
  clientControlNotConnected_onMessage_def clientControlNotConnected_onData_def

section \<open>The handlers by state\<close>

text \<open>
  state_handler.go: the methods of whichever handler is installed. A call on the nil interface of a stream without
  handler panics; no handler is ever installed for the two states \<open>ChangeState\<close> has none for.
\<close>

definition nil_handler :: "'u conn_op" where
  "nil_handler c = (Panic ''invalid memory address or nil pointer dereference'', c)"

definition stateHandler_onMessage ::
  "'u runtime \<Rightarrow> streamState option \<Rightarrow> u32 \<Rightarrow> message \<Rightarrow> 'u conn_op" where
  "stateHandler_onMessage rt st ts msg =
     (case st of
        None \<Rightarrow> nil_handler
      | Some streamStateServerNotConnected \<Rightarrow> serverControlNotConnected_onMessage msg
      | Some streamStateServerConnected \<Rightarrow> serverControlConnected_onMessage msg
      | Some streamStateServerInactive \<Rightarrow> serverDataInactive_onMessage msg
      | Some streamStateServerPublish \<Rightarrow> serverDataPublish_onMessage rt ts msg
      | Some streamStateServerPlay \<Rightarrow> serverDataPlay_onMessage msg
      | Some streamStateClientNotConnected \<Rightarrow> clientControlNotConnected_onMessage msg
      | Some _ \<Rightarrow> nil_handler)"

definition stateHandler_onData ::
  "'u runtime \<Rightarrow> streamState option \<Rightarrow> u32 \<Rightarrow> amf_body \<Rightarrow> 'u conn_op" where
  "stateHandler_onData rt st ts body =
     (case st of
        None \<Rightarrow> nil_handler
      | Some streamStateServerNotConnected \<Rightarrow> serverControlNotConnected_onData body
      | Some streamStateServerConnected \<Rightarrow> serverControlConnected_onData body
      | Some streamStateServerInactive \<Rightarrow> serverDataInactive_onData body
      | Some streamStateServerPublish \<Rightarrow> serverDataPublish_onData rt ts body
      | Some streamStateServerPlay \<Rightarrow> serverDataPlay_onData body
      | Some streamStateClientNotConnected \<Rightarrow> clientControlNotConnected_onData body
      | Some _ \<Rightarrow> nil_handler)"

definition stateHandler_onCommand ::
  "'u runtime \<Rightarrow> Stream \<Rightarrow> int \<Rightarrow> u32 \<Rightarrow> i64 \<Rightarrow> amf_body \<Rightarrow> 'u conn_op" where
  "stateHandler_onCommand rt s csid ts tid body =
     (case sh_handler s of
        None \<Rightarrow> nil_handler
      | Some streamStateServerNotConnected \<Rightarrow> serverControlNotConnected_onCommand rt s csid ts tid body
      | Some streamStateServerConnected \<Rightarrow> serverControlConnected_onCommand rt s csid ts tid body
      | Some streamStateServerInactive \<Rightarrow> serverDataInactive_onCommand rt s csid ts body
      | Some streamStateServerPublish \<Rightarrow> serverDataPublish_onCommand body
      | Some streamStateServerPlay \<Rightarrow> serverDataPlay_onCommand body
      | Some streamStateClientNotConnected \<Rightarrow> clientControlNotConnected_onCommand body
      | Some _ \<Rightarrow> nil_handler)"

section \<open>Handle\<close>

text \<open>A message the handler does not know goes to the user's handler for such messages.\<close>

definition or_unknown :: "'u callback \<Rightarrow> unit outcome \<times> 'u Conn \<Rightarrow> unit outcome \<times> 'u Conn" where
  "or_unknown f p =
     (case p of (Err e, c) \<Rightarrow> if e = ErrPassThroughMsg then on_world f c else (Err e, c) | (res, c) \<Rightarrow> (res, c))"

definition handleData :: "'u runtime \<Rightarrow> Stream \<Rightarrow> u32 \<Rightarrow> string \<Rightarrow> byte \<Rightarrow> byte list \<Rightarrow> 'u conn_op" where
  "handleData rt s ts name enc body c =
     andthen (NewAMF enc, c) (\<lambda>_ c.
     (case DataBodyDecoderFor (rt_lib rt) (rt_ms rt) name body of
        (Err e, _) \<Rightarrow> (Err e, c)
      | (Panic m, _) \<Rightarrow> (Panic m, c)
      | (Ok v, rest) \<Rightarrow>
          or_unknown (OnUnknownDataMessage (userHandler rt) ts (DataMessage name enc rest))
            (stateHandler_onData rt (sh_handler s) ts v c)))"

text \<open>
  A reply answers its transaction in place and then removes it. \<open>t.Reply\<close> writes through the pointer
  the table holds, and the caller of \<open>Create\<close> sees the same transaction.
\<close>

definition handleReply ::
  "Stream \<Rightarrow> string \<Rightarrow> i64 \<Rightarrow> byte \<Rightarrow> byte list \<Rightarrow> 'u Conn \<Rightarrow> unit outcome \<times> 'u Conn \<times> transaction option" where
  "handleReply s name tid enc body c =
     (case transactions_At tid (trs s) of
        Err e \<Rightarrow> (Err (Wrap e ''Got response to the unexpected transaction''), c, None)
      | Panic m \<Rightarrow> (Panic m, c, None)
      | Ok t \<Rightarrow>
          (case Reply name enc body t of
             (Panic m, t') \<Rightarrow> (Panic m, c, Some t')
           | (Err e, t') \<Rightarrow> (Err e, c, Some t')
           | (Ok _, t') \<Rightarrow>
               (case transactions_Delete tid (trs s) of
                  (Err e, ts) \<Rightarrow> (Err (Wrap e ''Unexpected behavior: transaction is not found''), c, Some t')
                | (Panic m, ts) \<Rightarrow> (Panic m, c, Some t')
                | (Ok _, ts) \<Rightarrow>
                    (Ok (), c\<lparr>conn_streams := putStream (streamID s) (s\<lparr>trs := ts\<rparr>) (conn_streams c)\<rparr>, Some t'))))"

definition handleCommand ::
  "'u runtime \<Rightarrow> Stream \<Rightarrow> int \<Rightarrow> u32 \<Rightarrow> string \<Rightarrow> i64 \<Rightarrow> byte \<Rightarrow> byte list \<Rightarrow> 'u conn_op" where
  "handleCommand rt s csid ts name tid enc body c =
     (if name = ''_result'' \<or> name = ''_error'' then
        (case handleReply s name tid enc body c of (res, c, _) \<Rightarrow> (res, c))
      else
        andthen (NewAMF enc, c) (\<lambda>_ c.
        (case CmdBodyDecoderFor (rt_lib rt) (rt_ms rt) name tid body of
           (Err e, _) \<Rightarrow> (Err e, c)
         | (Panic m, _) \<Rightarrow> (Panic m, c)
         | (Ok v, rest) \<Rightarrow>
             or_unknown (OnUnknownCommandMessage (userHandler rt) ts (CommandMessage name tid enc rest))
               (stateHandler_onCommand rt s csid ts tid v c))))"

definition on_peerState ::
  "(StreamControlState \<Rightarrow> unit outcome \<times> StreamControlState) \<Rightarrow> 'u conn_op" where
  "on_peerState f c =
     (case f (peerState (conn_in c)) of (res, ps) \<Rightarrow> (res, c\<lparr>conn_in := (conn_in c)\<lparr>peerState := ps\<rparr>\<rparr>))"

definition Handle :: "'u runtime \<Rightarrow> Stream \<Rightarrow> int \<Rightarrow> u32 \<Rightarrow> message \<Rightarrow> 'u conn_op" where
  "Handle rt s csid ts msg c =
     (case msg of
        DataMessage name enc body \<Rightarrow> handleData rt s ts name enc body c
      | CommandMessage name tid enc body \<Rightarrow> handleCommand rt s csid ts name tid enc body c
      | SetChunkSize n \<Rightarrow> on_peerState (\<lambda>ps. SetChunkSize_state ps n) c
      | WinAckSize n \<Rightarrow> on_peerState (\<lambda>ps. SetAckWindowSize ps n) c
      | _ \<Rightarrow> or_unknown (OnUnknownMessage (userHandler rt) ts msg)
               (stateHandler_onMessage rt (sh_handler s) ts msg c))"

end
