(* ===== verification/HandlerInv.thy ===== *)
theory HandlerInv
  imports StreamHandler
begin

text \<open>
  Invariants of a connection under its handlers. The locale lists what a handler can do, one law for
  each kind of step: reading and writing, the peer's control messages, answering a transaction,
  deleting a stream, and each callback with the change of state that its success brings. A property
  that obeys the laws is kept by every message.
\<close>

section \<open>Steps that only write\<close>

text \<open>The requests the server fires are all the same one: it does not say which stream was published.\<close>

definition start_url :: string where
  "start_url = ''http://localhost:7001/data?channel='' @ ''$tart''"

definition fired :: "string list \<Rightarrow> string list \<Rightarrow> bool" where
  "fired us us' \<longleftrightarrow> (\<exists>n. us' = us @ replicate n start_url)"

lemma fired_refl [simp]: "fired us us"
  by (auto simp: fired_def intro: exI [of _ 0])

lemma fired_trans: "fired us us' \<Longrightarrow> fired us' us'' \<Longrightarrow> fired us us''"
  by (auto simp: fired_def) (metis replicate_add)

lemma fired_myApi: "fired (w_http w) (w_http (snd (myApi w)))"
  by (auto simp: fired_def myApi_def start_url_def intro!: exI [of _ 1])

definition io_step :: "'u Conn \<Rightarrow> 'u Conn \<Rightarrow> bool" where
  "io_step c c' \<longleftrightarrow> w_usr (conn_w c') = w_usr (conn_w c) \<and> conn_in c' = conn_in c \<and>
     conn_streams c' = conn_streams c \<and> ignoredMessages c' = ignoredMessages c \<and> isClosed c' = isClosed c \<and>
     fired (w_http (conn_w c)) (w_http (conn_w c'))"

lemma io_refl [intro, simp]: "io_step c c"
  by (simp add: io_step_def)

lemma io_trans: "io_step c c' \<Longrightarrow> io_step c' c'' \<Longrightarrow> io_step c c''"
  by (auto simp: io_step_def intro: fired_trans)

lemma io_on_world:
  "(\<And>w. w_usr (snd (f w)) = w_usr w) \<Longrightarrow> (\<And>w. fired (w_http w) (w_http (snd (f w)))) \<Longrightarrow> io_step c (snd (on_world f c))"
  by (simp add: io_step_def on_world_def split_def)

lemma io_streams: "io_step c c' \<Longrightarrow> conn_streams c' = conn_streams c"
  by (auto simp: io_step_def)

lemma Reply_frame [frame]:
  "w_usr (snd (ReplyConnect rt s csid ts p i w)) = w_usr w"
  "w_usr (snd (ReplyConnect_with rt s csid ts r w)) = w_usr w"
  "w_usr (snd (ReplyCreateStream rt s csid ts tid new w)) = w_usr w"
  "w_usr (snd (NotifyStatus rt s csid ts b w)) = w_usr w"
  "w_usr (snd (WriteWinAckSize rt s csid ts n w)) = w_usr w"
  "w_usr (snd (WriteSetPeerBandwidth rt s csid ts n limit w)) = w_usr w"
  "w_usr (snd (WriteUserCtrl rt s csid ts ev w)) = w_usr w"
  "w_usr (snd (myApi w)) = w_usr w"
  "w_http (snd (ReplyConnect_with rt s csid ts r w)) = w_http w"
  "w_http (snd (ReplyCreateStream rt s csid ts tid new w)) = w_http w"
  "w_http (snd (NotifyStatus rt s csid ts b w)) = w_http w"
  "w_http (snd (WriteWinAckSize rt s csid ts n w)) = w_http w"
  "w_http (snd (WriteSetPeerBandwidth rt s csid ts n limit w)) = w_http w"
  "w_http (snd (WriteUserCtrl rt s csid ts ev w)) = w_http w"
  by (simp_all add: ReplyConnect_def ReplyConnect_with_def ReplyCreateStream_def NotifyStatus_def
      WriteWinAckSize_def WriteSetPeerBandwidth_def WriteUserCtrl_def myApi_def frame Let_def split: option.split)

lemma io_writes [intro, simp]:
  "io_step c (snd (on_world (ReplyConnect_with rt s csid ts r) c))"
  "io_step c (snd (on_world (ReplyCreateStream rt s csid ts tid new) c))"
  "io_step c (snd (on_world (NotifyStatus rt s csid ts b) c))"
  "io_step c (snd (on_world (WriteWinAckSize rt s csid ts n) c))"
  "io_step c (snd (on_world (WriteSetPeerBandwidth rt s csid ts n limit) c))"
  "io_step c (snd (on_world (WriteUserCtrl rt s csid ts ev) c))"
  "io_step c (snd (on_world myApi c))"
  by (rule io_on_world; simp add: frame fired_myApi)+

lemma io_written: "on_world (Stream_Write rt sid csid ts m) c = (res, c') \<Longrightarrow> io_step c c'"
  using io_on_world [of "Stream_Write rt sid csid ts m" c] by (simp add: frame)

lemma io_command: "on_world (writeCommandMessage rt s csid ts name tid body) c = (res, c') \<Longrightarrow> io_step c c'"
  using io_on_world [of "writeCommandMessage rt s csid ts name tid body" c] by (simp add: frame)

text \<open>What a sequence of writes that ends in a change leaves: the writes alone, or the change after them.\<close>

definition wrote_then :: "'u conn_op \<Rightarrow> 'u Conn \<Rightarrow> 'u Conn \<Rightarrow> bool" where
  "wrote_then f c c' \<longleftrightarrow> (\<exists>c2. io_step c c2 \<and> (c' = c2 \<or> c' = snd (f c2)))"

lemma wrote_then_andthen:
  assumes "io_step c (snd (on_world f c1))" "\<And>c2. io_step c c2 \<Longrightarrow> wrote_then g c (snd (k () c2))"
  shows "wrote_then g c (snd (andthen (on_world f c1) k))"
proof (rule snd_bindo_keeps [where P = "wrote_then g c"])
  fix x s
  assume "on_world f c1 = (Ok x, s)"
  with assms(1) have "io_step c s" by simp
  from assms(2) [OF this] show "wrote_then g c (snd (k x s))" by simp
next
  show "wrote_then g c (id (snd (on_world f c1)))" using assms(1) by (auto simp: wrote_then_def)
qed

lemma wrote_then_end: "io_step c c2 \<Longrightarrow> wrote_then g c (snd (g c2))"
  by (auto simp: wrote_then_def)

lemma connect_shape:
  assumes "on_world (OnConnect (userHandler rt) ts cmd) c = (res, c1)"
  shows "if res = Ok ()
    then wrote_then (ChangeState (streamID s) streamStateServerConnected) c1
      (snd (serverControlNotConnected_connect rt s csid ts cmd c))
    else serverControlNotConnected_connect rt s csid ts cmd c = (res, c1)"
proof (cases res)
  case (Ok u)
  have u: "u = ()" by simp
  show ?thesis
    unfolding serverControlNotConnected_connect_def assms Ok u bindo.simps Let_def simp_thms if_True
    by (intro wrote_then_andthen wrote_then_end; (rule io_writes | (erule io_trans, rule io_writes))?)
qed (use assms in \<open>simp_all add: serverControlNotConnected_connect_def\<close>)

lemma deferred_shape:
  assumes "\<And>c. io_step c (snd (reply c))"
  shows "\<exists>c2. io_step (snd (body c)) c2 \<and> snd (deferred_reply reply body c) = c2"
  using assms by (auto simp: deferred_reply_def split: prod.split outcome.split) (metis snd_conv)+

text \<open>Creating the first free stream is creating one stream, or nothing.\<close>

lemma create_first_cases:
  "create_first fuel i ss = (res, ss') \<Longrightarrow>
   (\<exists>s sid. res = Ok s \<and> streams_Create sid ss = (Ok s, ss')) \<or> (\<exists>e. res = Err e \<and> ss' = ss)"
proof (induction fuel arbitrary: i)
  case (Suc fuel)
  obtain o1 s1 where c: "streams_Create (word_of_int i) ss = (o1, s1)" by fastforce
  show ?case
  proof (cases o1)
    case (Err e)
    then have "s1 = ss" using strms.create_Err [of "word_of_int i" ss e s1] c by simp
    with Suc c Err show ?thesis by simp
  next
    case (Panic m)
    then show ?thesis using strms.create_total [of "word_of_int i" ss m s1] c by simp
  qed (use Suc.prems c in auto)
qed auto

lemma CreateIfAvailable_cases:
  assumes "CreateIfAvailable ss = (res, ss')"
  obtains (made) s sid where "res = Ok s" "streams_Create sid ss = (Ok s, ss')"
  | (full) e where "res = Err e" "ss' = ss"
  using create_first_cases [OF assms [unfolded CreateIfAvailable_def]] by blast


section \<open>The laws\<close>

abbreviation stream_at :: "'u Conn \<Rightarrow> u32 \<Rightarrow> Stream option" where
  "stream_at c sid \<equiv> map_of (strm_map (conn_streams c)) sid"

text \<open>Deleting is asked of a control stream that is connected.\<close>

definition has_connected :: "'u Conn \<Rightarrow> bool" where
  "has_connected c \<longleftrightarrow> (\<exists>sid s. stream_at c sid = Some s \<and> sh_handler s = Some streamStateServerConnected)"

lemma has_connectedI: "stream_at c sid = Some s \<Longrightarrow> sh_handler s = Some streamStateServerConnected \<Longrightarrow> has_connected c"
  by (auto simp: has_connected_def)

lemma on_world_streams: "on_world f c = (res, c') \<Longrightarrow> conn_streams c' = conn_streams c"
  by (auto simp: on_world_def split: prod.splits)

lemma ChangeState_other: "sid' \<noteq> sid \<Longrightarrow> stream_at (snd (ChangeState sid st c)) sid' = stream_at c sid'"
  by (simp add: ChangeState_def putStream_def split: option.split prod.split)

lemma created_other:
  assumes "streams_Create n ss = (Ok new, ss')" "map_of (strm_map ss) sid = Some s"
  shows "streamID new \<noteq> sid" "map_of (strm_map ss') sid = Some s"
  using assms by (auto simp: streams_Create_def newStream_def split: option.splits if_splits)

locale handler_inv =
  fixes rt :: "'u runtime" and P :: "'u Conn \<Rightarrow> bool"
  assumes P_io: "P c \<Longrightarrow> io_step c c' \<Longrightarrow> P c'"
    and P_peer: "P c \<Longrightarrow> P (c\<lparr>conn_in := (conn_in c)\<lparr>peerState := ps\<rparr>\<rparr>)"
    and P_reply: "P c \<Longrightarrow> stream_at c sid = Some s \<Longrightarrow>
      P (c\<lparr>conn_streams := putStream (streamID s) (s\<lparr>trs := tt\<rparr>) (conn_streams c)\<rparr>)"
    and P_delete: "P c \<Longrightarrow> has_connected c \<Longrightarrow> P (snd (on_streams (streams_Delete t) c))"
    and P_unknown: "P c \<Longrightarrow> P (snd (on_world (OnUnknownMessage (userHandler rt) ts m) c))"
      "P c \<Longrightarrow> P (snd (on_world (OnUnknownCommandMessage (userHandler rt) ts m) c))"
      "P c \<Longrightarrow> P (snd (on_world (OnUnknownDataMessage (userHandler rt) ts m) c))"
    and P_connect: "P c \<Longrightarrow> stream_at c sid = Some s \<Longrightarrow> sh_handler s = Some streamStateServerNotConnected \<Longrightarrow>
      on_world (OnConnect (userHandler rt) ts cmd) c = (res, c1) \<Longrightarrow>
      P c1 \<and> (res = Ok () \<longrightarrow> io_step c1 c2 \<longrightarrow> P (snd (ChangeState (streamID s) streamStateServerConnected c2)))"
    and P_create: "P c \<Longrightarrow> stream_at c sid = Some s \<Longrightarrow> sh_handler s = Some streamStateServerConnected \<Longrightarrow>
      on_world (OnCreateStream (userHandler rt) ts) c = (res, c1) \<Longrightarrow>
      P c1 \<and> (res = Ok () \<longrightarrow> on_streams CreateIfAvailable c1 = (Ok new, c2) \<longrightarrow>
        P (snd (ChangeState (streamID new) streamStateServerInactive c2)))"
    and P_connected: "P c \<Longrightarrow> stream_at c sid = Some s \<Longrightarrow> sh_handler s = Some streamStateServerConnected \<Longrightarrow>
      P (snd (on_world (OnDeleteStream (userHandler rt) ts target) c)) \<and>
      P (snd (on_world (OnReleaseStream (userHandler rt) ts name) c)) \<and>
      P (snd (on_world (OnFCPublish (userHandler rt) ts name) c)) \<and>
      P (snd (on_world (OnFCUnpublish (userHandler rt) ts name) c))"
    and P_publish: "P c \<Longrightarrow> stream_at c sid = Some s \<Longrightarrow> sh_handler s = Some streamStateServerInactive \<Longrightarrow>
      on_world (OnPublish (userHandler rt) (streamID s) ts name ty) c = (res, c1) \<Longrightarrow>
      P c1 \<and> (res = Ok () \<longrightarrow> io_step c1 c2 \<longrightarrow> P (snd (ChangeState (streamID s) streamStateServerPublish c2)))"
    and P_play: "P c \<Longrightarrow> stream_at c sid = Some s \<Longrightarrow> sh_handler s = Some streamStateServerInactive \<Longrightarrow>
      on_world (OnPlay (userHandler rt) (streamID s) ts name start) c = (res, c1) \<Longrightarrow>
      P c1 \<and> (res = Ok () \<longrightarrow> io_step c1 c2 \<longrightarrow> P (snd (ChangeState (streamID s) streamStateServerPlay c2)))"
    and P_data: "P c \<Longrightarrow> stream_at c sid = Some s \<Longrightarrow> sh_handler s = Some streamStateServerPublish \<Longrightarrow>
      P (snd (on_world (OnAudio (userHandler rt) ts payload) c)) \<and>
      P (snd (on_world (OnVideo (userHandler rt) ts payload) c)) \<and>
      P (snd (on_world (OnSetDataFrame (userHandler rt) ts payload) c))"
begin

lemma wrote_then_P:
  assumes "wrote_then f c1 c'" "P c1" "\<And>c2. io_step c1 c2 \<Longrightarrow> P (snd (f c2))"
  shows "P c'"
  using assms P_io unfolding wrote_then_def by metis

lemma deferred_P: "(\<And>c. io_step c (snd (reply c))) \<Longrightarrow> P (snd (body c)) \<Longrightarrow> P (snd (deferred_reply reply body c))"
  using deferred_shape [of reply body c] P_io by metis

lemma connect_P:
  assumes "P c" "stream_at c sid = Some s" "sh_handler s = Some streamStateServerNotConnected"
  shows "P (snd (serverControlNotConnected_onCommand rt s csid ts tid body c))"
proof (cases body)
  case (NetConnectionConnect cmd)
  obtain res c1 where cb: "on_world (OnConnect (userHandler rt) ts cmd) c = (res, c1)" by fastforce
  note law = P_connect [OF assms cb] and shape = connect_shape [OF cb, of s csid]
  have "P (snd (serverControlNotConnected_connect rt s csid ts cmd c))"
  proof (cases "res = Ok ()")
    case True
    with shape law show ?thesis by (auto intro: wrote_then_P)
  next
    case False
    with shape law show ?thesis by simp
  qed
  with NetConnectionConnect show ?thesis
    by (simp add: serverControlNotConnected_onCommand_def deferred_P)
qed (simp_all add: serverControlNotConnected_onCommand_def pass_through_def assms(1))

lemma create_P:
  assumes "P c" "stream_at c sid = Some s" "sh_handler s = Some streamStateServerConnected"
  shows "P (snd (serverControlConnected_createStream rt s csid ts tid c))"
proof -
  obtain res c1 where cb: "on_world (OnCreateStream (userHandler rt) ts) c = (res, c1)" by fastforce
  have P1: "P c1" using P_create [OF assms cb] by blast
  show ?thesis
  proof (cases res)
    case (Ok u)
    obtain o2 ss where cr: "CreateIfAvailable (conn_streams c1) = (o2, ss)" by fastforce
    then have oc: "on_streams CreateIfAvailable c1 = (o2, c1\<lparr>conn_streams := ss\<rparr>)" by (simp add: on_streams_def)
    from cr show ?thesis
    proof (cases rule: CreateIfAvailable_cases)
      case (full e)
      then have oc': "on_streams CreateIfAvailable c1 = (Err e, c1)" using oc by simp
      obtain o3 c3 where rp: "on_world (ReplyCreateStream rt s csid ts tid None) c1 = (o3, c3)" by fastforce
      have "P c3" using P_io [OF P1 io_writes(2)] rp by (metis snd_conv)
      then show ?thesis using cb Ok oc' rp
        by (cases o3) (simp_all add: serverControlConnected_createStream_def)
    next
      case (made new n)
      let ?c2 = "c1\<lparr>conn_streams := ss\<rparr>"
      have P3: "P (snd (ChangeState (streamID new) streamStateServerInactive ?c2))"
        using P_create [OF assms cb, of new ?c2] Ok oc made by simp
      obtain o3 c3 where ch: "ChangeState (streamID new) streamStateServerInactive ?c2 = (o3, c3)" by fastforce
      obtain o4 c4 where rp: "on_world (ReplyCreateStream rt s csid ts tid (Some (streamID new))) c3 = (o4, c4)" by fastforce
      have "P c4" using P_io [OF _ io_writes(2), of c3] P3 ch rp by (metis snd_conv)
      moreover have "stream_at c4 sid = Some s"
        using assms(2) created_other [OF made(2), of sid s] ChangeState_other [of sid "streamID new" streamStateServerInactive ?c2]
          on_world_streams [OF cb] on_world_streams [OF rp] ch by simp
      ultimately have "P (snd (on_streams (streams_Delete (streamID new)) c4))"
        using P_delete has_connectedI assms(3) by blast
      then show ?thesis using cb Ok oc made P3 ch rp \<open>P c4\<close>
        by (cases o3; cases o4) (simp_all add: serverControlConnected_createStream_def)
    qed
  qed (use cb P1 in \<open>simp_all add: serverControlConnected_createStream_def\<close>)
qed

lemma connected_P:
  assumes "P c" "stream_at c sid = Some s" "sh_handler s = Some streamStateServerConnected"
  shows "P (snd (serverControlConnected_onCommand rt s csid ts tid body c))"
proof (cases body)
  case NetConnectionCreateStream
  with create_P [OF assms] show ?thesis by (simp add: serverControlConnected_onCommand_def deferred_P)
next
  case (NetStreamDeleteStream target)
  obtain o1 c1 where cb: "on_world (OnDeleteStream (userHandler rt) ts target) c = (o1, c1)" by fastforce
  with P_connected [OF assms] have "P c1" by (metis snd_conv)
  moreover have "has_connected c1" using assms on_world_streams [OF cb] by (auto intro: has_connectedI)
  ultimately show ?thesis using P_delete NetStreamDeleteStream cb
    by (cases o1) (simp_all add: serverControlConnected_onCommand_def)
qed (use P_connected [OF assms] assms(1) in \<open>simp_all add: serverControlConnected_onCommand_def pass_through_def\<close>)

lemma accept_P:
  assumes "on_world cb c = (res, c1)" "P c1" "\<And>c2. res = Ok () \<Longrightarrow> io_step c1 c2 \<Longrightarrow> P (snd (changed c2))"
  shows "P (snd (inactive_accept rt s csid ts cb failed succeeded changed c))"
proof (cases res)
  case (Ok u)
  obtain o2 c2 where n: "on_world (NotifyStatus rt s csid ts succeeded) c1 = (o2, c2)" by fastforce
  then have io: "io_step c1 c2" by (metis io_writes(3) snd_conv)
  with P_io [OF assms(2)] assms(3) [of c2] Ok n assms(1) show ?thesis
    by (cases o2) (simp_all add: inactive_accept_def)
next
  case (Err e)
  obtain o2 c2 where n: "on_world (NotifyStatus rt s csid ts failed) c1 = (o2, c2)" by fastforce
  then have io: "io_step c1 c2" by (metis io_writes(3) snd_conv)
  with P_io [OF assms(2)] Err n assms(1) show ?thesis
    by (cases o2) (simp_all add: inactive_accept_def)
qed (use assms in \<open>simp add: inactive_accept_def\<close>)

lemma inactive_P:
  assumes "P c" "stream_at c sid = Some s" "sh_handler s = Some streamStateServerInactive"
  shows "P (snd (serverDataInactive_onCommand rt s csid ts body c))"
proof (cases body)
  case (NetStreamPublish name ty)
  obtain res c1 where cb: "on_world (OnPublish (userHandler rt) (streamID s) ts name ty) c = (res, c1)" by fastforce
  note law = P_publish [OF assms cb]
  have changed: "P (snd (andthen (ChangeState (streamID s) streamStateServerPublish c2) (\<lambda>_ c. on_world myApi c)))"
    if "res = Ok ()" "io_step c1 c2" for c2
  proof (rule snd_bindo_keeps)
    show "P (id (snd (ChangeState (streamID s) streamStateServerPublish c2)))" using law that by simp
    fix x s'
    assume "ChangeState (streamID s) streamStateServerPublish c2 = (Ok x, s')"
    with law that have "P s'" by (metis snd_conv)
    then show "P (snd (on_world myApi s'))" using P_io io_writes(7) by blast
  qed
  show ?thesis unfolding serverDataInactive_onCommand_def NetStreamPublish amf_body.case
    using accept_P [OF cb, where changed = "\<lambda>c. andthen (ChangeState (streamID s) streamStateServerPublish c) (\<lambda>_ c. on_world myApi c)"]
      law changed by blast
next
  case (NetStreamPlay name start)
  obtain res c1 where cb: "on_world (OnPlay (userHandler rt) (streamID s) ts name start) c = (res, c1)" by fastforce
  note law = P_play [OF assms cb]
  show ?thesis unfolding serverDataInactive_onCommand_def NetStreamPlay amf_body.case
    using accept_P [OF cb, where changed = "ChangeState (streamID s) streamStateServerPlay"] law by blast
qed (simp_all add: serverDataInactive_onCommand_def pass_through_def assms(1))

lemma onCommand_P:
  assumes "P c" "stream_at c sid = Some s"
  shows "P (snd (stateHandler_onCommand rt s csid ts tid body c))"
proof (cases "sh_handler s")
  case (Some st)
  then show ?thesis
    using assms connect_P [OF assms] connected_P [OF assms] inactive_P [OF assms]
    by (cases st) (simp_all add: stateHandler_onCommand_def clientControlNotConnected_onCommand_def pass_through_def nil_handler_def
        split: amf_body.split)
qed (simp add: stateHandler_onCommand_def nil_handler_def assms(1))

lemma onData_P:
  assumes "P c" "stream_at c sid = Some s"
  shows "P (snd (stateHandler_onData rt (sh_handler s) ts body c))"
  using assms P_data [OF assms]
  by (auto simp: stateHandler_onData_def nil_handler_def pass_through_def
      split: option.split streamState.split amf_body.split)

lemma onMessage_P:
  assumes "P c" "stream_at c sid = Some s"
  shows "P (snd (stateHandler_onMessage rt (sh_handler s) ts msg c))"
  using assms P_data [OF assms]
  by (auto simp: stateHandler_onMessage_def nil_handler_def pass_through_def
      split: option.split streamState.split message.split)

lemma or_unknown_P:
  assumes "P (snd p)" "\<And>c. P c \<Longrightarrow> P (snd (on_world f c))"
  shows "P (snd (or_unknown f p))"
  using assms by (cases p; cases "fst p") (auto simp: or_unknown_def)

lemma handleData_P:
  assumes "P c" "stream_at c sid = Some s"
  shows "P (snd (handleData rt s ts name enc body c))"
  using assms or_unknown_P [OF onData_P [OF assms], OF P_unknown(3)]
  by (cases "NewAMF enc") (auto simp: handleData_def split: prod.split outcome.split)

lemma handleReply_P:
  assumes "P c" "stream_at c sid = Some s"
  shows "P (fst (snd (handleReply s name tid enc body c)))"
  using assms P_reply [OF assms] by (auto simp: handleReply_def split: prod.split outcome.split)

lemma handleCommand_P:
  assumes "P c" "stream_at c sid = Some s"
  shows "P (snd (handleCommand rt s csid ts name tid enc body c))"
proof (cases "name = ''_result'' \<or> name = ''_error''")
  case True
  with handleReply_P [OF assms] show ?thesis
    unfolding handleCommand_def by (simp add: split_def)
next
  case False
  with assms or_unknown_P [OF onCommand_P [OF assms], OF P_unknown(2)] show ?thesis
    by (cases "NewAMF enc") (auto simp: handleCommand_def split: prod.split outcome.split)
qed

lemma on_peerState_P: "P c \<Longrightarrow> P (snd (on_peerState f c))"
  by (simp add: on_peerState_def P_peer split: prod.split)

text \<open>Every message on a stream keeps the invariant.\<close>

lemma Handle_P:
  assumes "P c" "stream_at c sid = Some s"
  shows "P (snd (Handle rt s csid ts msg c))"
  using handleData_P [OF assms] handleCommand_P [OF assms] on_peerState_P [OF assms(1)]
    or_unknown_P [OF onMessage_P [OF assms], OF P_unknown(1)]
  by (cases msg) (simp_all add: Handle_def)

end

end
