(* ===== verification/Handshake.thy ===== *)
theory Handshake
  imports GoIO
begin

text \<open>
  Package handshake: the three packets, their encoders and decoders, and the two sides of the
  handshake. A side reads and writes the connection directly, so its state is the transport it reads
  and the writer it fills. The two readings of the clock and the outcome of \<open>rand.Read\<close> are
  arguments. A Go array of \<open>n\<close> bytes is a list of length \<open>n\<close>.
\<close>

section \<open>The packets\<close>

type_synonym S0C0 = byte

record S1C1 =
  s1_Time :: u32
  s1_Version :: "byte list"
  s1_Random :: "byte list"

record S2C2 =
  s2_Time :: u32
  s2_Time2 :: u32
  s2_Random :: "byte list"

definition RTMPVersion :: S0C0 where
  "RTMPVersion = 3"

definition hsVersion :: "byte list" where
  "hsVersion = [0, 0, 0, 0]"

definition randomLen :: nat where
  "randomLen = 1528"

definition S1C1_ok :: "S1C1 \<Rightarrow> bool" where
  "S1C1_ok h \<longleftrightarrow> length (s1_Version h) = 4 \<and> length (s1_Random h) = randomLen"

definition S2C2_ok :: "S2C2 \<Rightarrow> bool" where
  "S2C2_ok h \<longleftrightarrow> length (s2_Random h) = randomLen"

section \<open>decoder.go\<close>

definition DecodeS0C0 :: "transport \<Rightarrow> S0C0 outcome \<times> transport" where
  "DecodeS0C0 r = andthen (transport_ReadAtLeast r 1 1) (\<lambda>buf r. (Ok (buf ! 0), r))"

definition DecodeS1C1 :: "transport \<Rightarrow> S1C1 outcome \<times> transport" where
  "DecodeS1C1 r =
     andthen (transport_ReadAtLeast r 4 4) (\<lambda>buf r.
     andthen (transport_ReadAtLeast r 4 4) (\<lambda>version r.
     andthen (transport_ReadAtLeast r randomLen randomLen) (\<lambda>random r.
       (Ok \<lparr>s1_Time = get_be buf, s1_Version = version, s1_Random = random\<rparr>, r))))"

definition DecodeS2C2 :: "transport \<Rightarrow> S2C2 outcome \<times> transport" where
  "DecodeS2C2 r =
     andthen (transport_ReadAtLeast r 4 4) (\<lambda>buf r.
     andthen (transport_ReadAtLeast r 4 4) (\<lambda>buf2 r.
     andthen (transport_ReadAtLeast r randomLen randomLen) (\<lambda>random r.
       (Ok \<lparr>s2_Time = get_be buf, s2_Time2 = get_be buf2, s2_Random = random\<rparr>, r))))"

section \<open>encoder.go\<close>

definition EncodeS0C0 :: "S0C0 \<Rightarrow> ChunkStreamerWriter \<Rightarrow> unit outcome \<times> ChunkStreamerWriter" where
  "EncodeS0C0 h w = ChunkStreamerWriter_Write w [h]"

definition EncodeS1C1 :: "S1C1 \<Rightarrow> ChunkStreamerWriter \<Rightarrow> unit outcome \<times> ChunkStreamerWriter" where
  "EncodeS1C1 h w =
     andthen (ChunkStreamerWriter_Write w (put_be 4 (s1_Time h))) (\<lambda>_ w.
     andthen (ChunkStreamerWriter_Write w (s1_Version h)) (\<lambda>_ w.
       ChunkStreamerWriter_Write w (s1_Random h)))"

definition EncodeS2C2 :: "S2C2 \<Rightarrow> ChunkStreamerWriter \<Rightarrow> unit outcome \<times> ChunkStreamerWriter" where
  "EncodeS2C2 h w =
     andthen (ChunkStreamerWriter_Write w (put_be 4 (s2_Time h))) (\<lambda>_ w.
     andthen (ChunkStreamerWriter_Write w (put_be 4 (s2_Time2 h))) (\<lambda>_ w.
       ChunkStreamerWriter_Write w (s2_Random h)))"

section \<open>handshake.go\<close>

record hs_conn =
  hs_r :: transport
  hs_w :: ChunkStreamerWriter

definition recv :: "(transport \<Rightarrow> 'h outcome \<times> transport) \<Rightarrow> hs_conn \<Rightarrow> 'h outcome \<times> hs_conn" where
  "recv dec c = (case dec (hs_r c) of (x, r) \<Rightarrow> (x, c\<lparr>hs_r := r\<rparr>))"

definition emit ::
  "('h \<Rightarrow> ChunkStreamerWriter \<Rightarrow> unit outcome \<times> ChunkStreamerWriter) \<Rightarrow> 'h \<Rightarrow> hs_conn \<Rightarrow> unit outcome \<times> hs_conn" where
  "emit enc h c = (case enc h (hs_w c) of (x, w) \<Rightarrow> (x, c\<lparr>hs_w := w\<rparr>))"

text \<open>What the environment gives a handshake: the milliseconds of its two clock readings and the random bytes.\<close>

record hs_env =
  now1 :: u32
  now2 :: u32
  rand_Read :: "byte list outcome"

definition echo_matches :: "bool \<Rightarrow> byte list \<Rightarrow> byte list \<Rightarrow> unit outcome" where
  "echo_matches SkipHandshakeVerification echoed own =
     (if SkipHandshakeVerification then Ok ()
      else if echoed \<noteq> own then Err (Errorf ''Random echo is not matched'' [])
      else Ok ())"

definition HandshakeWithClient :: "bool \<Rightarrow> hs_env \<Rightarrow> hs_conn \<Rightarrow> unit outcome \<times> hs_conn" where
  "HandshakeWithClient skip env c =
     andthen (recv DecodeS0C0 c) (\<lambda>c0 c.
     andthen (emit EncodeS0C0 RTMPVersion c) (\<lambda>_ c.
     andthen (rand_Read env, c) (\<lambda>random c.
     let s1 = \<lparr>s1_Time = now1 env, s1_Version = hsVersion, s1_Random = random\<rparr> in
     andthen (emit EncodeS1C1 s1 c) (\<lambda>_ c.
     andthen (recv DecodeS1C1 c) (\<lambda>c1 c.
     let s2 = \<lparr>s2_Time = s1_Time c1, s2_Time2 = now2 env, s2_Random = s1_Random c1\<rparr> in
     andthen (emit EncodeS2C2 s2 c) (\<lambda>_ c.
     andthen (recv DecodeS2C2 c) (\<lambda>c2 c.
       (echo_matches skip (s2_Random c2) (s1_Random s1), c))))))))"

text \<open>The client sends its own time back in C2, where the server echoes the client's in S2.\<close>

definition HandshakeWithServer :: "bool \<Rightarrow> hs_env \<Rightarrow> hs_conn \<Rightarrow> unit outcome \<times> hs_conn" where
  "HandshakeWithServer skip env c =
     andthen (map_prod (map_outcome_err (\<lambda>e. Wrap e ''Failed to encode c0'')) id (emit EncodeS0C0 RTMPVersion c)) (\<lambda>_ c.
     andthen (rand_Read env, c) (\<lambda>random c.
     let c1 = \<lparr>s1_Time = now1 env, s1_Version = hsVersion, s1_Random = random\<rparr> in
     andthen (map_prod (map_outcome_err (\<lambda>e. Wrap e ''Failed to encode c1'')) id (emit EncodeS1C1 c1 c)) (\<lambda>_ c.
     andthen (map_prod (map_outcome_err (\<lambda>e. Wrap e ''Failed to decode s0'')) id (recv DecodeS0C0 c)) (\<lambda>s0 c.
     andthen (map_prod (map_outcome_err (\<lambda>e. Wrap e ''Failed to decode s1'')) id (recv DecodeS1C1 c)) (\<lambda>s1 c.
     andthen (map_prod (map_outcome_err (\<lambda>e. Wrap e ''Failed to decode s2'')) id (recv DecodeS2C2 c)) (\<lambda>s2 c.
     let c2 = \<lparr>s2_Time = s1_Time c1, s2_Time2 = now2 env, s2_Random = s1_Random s1\<rparr> in
     andthen (map_prod (map_outcome_err (\<lambda>e. Wrap e ''Failed to encode c2'')) id (emit EncodeS2C2 c2 c)) (\<lambda>_ c.
       (echo_matches skip (s2_Random s2) (s1_Random c1), c))))))))"

section \<open>The contract of a packet's codec\<close>

locale wire_codec =
  fixes encode :: "'h \<Rightarrow> ChunkStreamerWriter \<Rightarrow> unit outcome \<times> ChunkStreamerWriter"
    and decode :: "transport \<Rightarrow> 'h outcome \<times> transport"
    and bytes_of :: "'h \<Rightarrow> byte list"
    and size_of :: nat
    and wf :: "'h \<Rightarrow> bool"
  assumes encode_open: "room w = None \<Longrightarrow> encode h w = (Ok (), w\<lparr>sent := sent w @ bytes_of h\<rparr>)"
    and encode_size: "wf h \<Longrightarrow> length (bytes_of h) = size_of"
    and decode_whole: "size_of \<le> length (transport_pending r) \<Longrightarrow>
      \<exists>h r'. decode r = (Ok h, r') \<and> wf h \<and> transport_pending r = bytes_of h @ transport_pending r'"
    and decode_short: "length (transport_pending r) < size_of \<Longrightarrow> \<exists>e r'. decode r = (Err e, r')"
    and bytes_inj: "wf h \<Longrightarrow> wf h' \<Longrightarrow> bytes_of h = bytes_of h' \<Longrightarrow> h = h'"
begin

lemma decode_cases:
  obtains (whole) h r' where "decode r = (Ok h, r')" "wf h" "transport_pending r = bytes_of h @ transport_pending r'"
      "size_of \<le> length (transport_pending r)"
  | (short) e r' where "decode r = (Err e, r')" "length (transport_pending r) < size_of"
  using decode_whole [of r] decode_short [of r] by (cases "size_of \<le> length (transport_pending r)") auto

lemma decode_bytes:
  assumes "transport_pending r = bytes_of h @ rest" "wf h"
  shows "\<exists>r'. decode r = (Ok h, r') \<and> transport_pending r' = rest"
proof (cases r rule: decode_cases)
  case (whole h' r')
  then have "bytes_of h' @ transport_pending r' = bytes_of h @ rest" "length (bytes_of h') = length (bytes_of h)"
    using assms encode_size by auto
  then have "bytes_of h' = bytes_of h" "transport_pending r' = rest" by auto
  with whole bytes_inj [of h' h] assms show ?thesis by auto
next
  case (short e r')
  with assms encode_size [of h] show ?thesis by simp
qed

lemma recv_bytes:
  assumes "transport_pending (hs_r c) = bytes_of h @ rest" "wf h"
  shows "\<exists>r'. recv decode c = (Ok h, c\<lparr>hs_r := r'\<rparr>) \<and> transport_pending r' = rest"
  using decode_bytes [OF assms] by (auto simp: recv_def)

lemma recv_short:
  "length (transport_pending (hs_r c)) < size_of \<Longrightarrow> \<exists>e r'. recv decode c = (Err e, c\<lparr>hs_r := r'\<rparr>)"
  using decode_short [of "hs_r c"] by (auto simp: recv_def)

lemma recv_whole:
  assumes "size_of \<le> length (transport_pending (hs_r c))"
  obtains h r' where "recv decode c = (Ok h, c\<lparr>hs_r := r'\<rparr>)" "wf h"
    "transport_pending (hs_r c) = bytes_of h @ transport_pending r'"
  using decode_whole [OF assms] by (auto simp: recv_def)

lemma emit_open: "room (hs_w c) = None \<Longrightarrow>
   emit encode h c = (Ok (), c\<lparr>hs_w := (hs_w c)\<lparr>sent := sent (hs_w c) @ bytes_of h\<rparr>\<rparr>)"
  using encode_open [of "hs_w c" h] by (simp add: emit_def)

end

definition S1C1_bytes :: "S1C1 \<Rightarrow> byte list" where
  "S1C1_bytes h = put_be 4 (s1_Time h) @ s1_Version h @ s1_Random h"

definition S2C2_bytes :: "S2C2 \<Rightarrow> byte list" where
  "S2C2_bytes h = put_be 4 (s2_Time h) @ put_be 4 (s2_Time2 h) @ s2_Random h"

definition packetLen :: nat where
  "packetLen = 1536"

text \<open>The two long packets are read in three parts.\<close>

lemma read_parts:
  fixes a b d :: nat
  assumes "a + b + d \<le> length (transport_pending r)"
  obtains x y z r1 r2 r3 where
    "transport_ReadAtLeast r a a = (Ok x, r1)" "transport_ReadAtLeast r1 b b = (Ok y, r2)"
    "transport_ReadAtLeast r2 d d = (Ok z, r3)" "length x = a" "length y = b" "length z = d"
    "transport_pending r = x @ y @ z @ transport_pending r3"
proof -
  let ?p = "transport_pending r"
  have "length (take a ?p) = a" using assms  by simp
  note len = append_take_drop_id [of a ?p, symmetric] this
  from transp.ral_exact [OF len] obtain r1 where r1: "transport_ReadAtLeast r a a = (Ok (take a ?p), r1)"
    "transport_pending r1 = drop a ?p" by blast
  let ?p1 = "transport_pending r1"
  have "length (take b ?p1) = b" using assms r1 by simp
  note len = append_take_drop_id [of b ?p1, symmetric] this
  from transp.ral_exact [OF len] obtain r2 where r2: "transport_ReadAtLeast r1 b b = (Ok (take b ?p1), r2)"
    "transport_pending r2 = drop b ?p1" by blast
  let ?p2 = "transport_pending r2"
  have "length (take d ?p2) = d" using assms r1 r2 by simp
  note len = append_take_drop_id [of d ?p2, symmetric] this
  from transp.ral_exact [OF len] obtain r3 where r3: "transport_ReadAtLeast r2 d d = (Ok (take d ?p2), r3)"
    "transport_pending r3 = drop d ?p2" by blast
  show thesis
  proof (rule that [OF r1(1) r2(1) r3(1)])
    show "transport_pending r = take a ?p @ take b ?p1 @ take d ?p2 @ transport_pending r3"
      by (simp only: r1(2) r2(2) r3(2) append_take_drop_id)
  qed (use assms r1(2) r2(2) in auto)
qed

lemma short_parts:
  assumes "length (transport_pending r) < a + b + d"
  shows "\<exists>e r'. andthen (transport_ReadAtLeast r a a) (\<lambda>x r. andthen (transport_ReadAtLeast r b b) (\<lambda>y r.
    andthen (transport_ReadAtLeast r d d) (\<lambda>z r. (f x y z, r)))) = (Err e, r')"
proof -
  have inv: "transport_ReadAtLeast r n n = (Ok bs, r') \<Longrightarrow>
      length (transport_pending r) = n + length (transport_pending r')" for r n bs r'
    using transp.ral_exact_inv [of r n bs r'] by (metis length_append)
  show ?thesis
  proof (cases "transport_ReadAtLeast r a a" rule: prod.exhaust)
    case (Pair o1 r1)
    show ?thesis
    proof (cases o1)
      case (Ok x)
      note A = inv [OF Pair [unfolded Ok]]
      obtain o2 r2 where B: "transport_ReadAtLeast r1 b b = (o2, r2)" by fastforce
      show ?thesis
      proof (cases o2)
        case (Ok y)
        note B' = inv [OF B [unfolded Ok]]
        have "length (transport_pending r2) < d" using A B' assms by simp
        from transp.ral_short [OF order_refl this] show ?thesis using Pair B \<open>o1 = Ok x\<close> Ok by auto
      next
        case (Panic m)
        then show ?thesis using transp.ral_never_panics B by blast
      qed (use Pair B Ok in auto)
    next
      case (Panic m)
      then show ?thesis using transp.ral_never_panics Pair by blast
    qed (use Pair in auto)
  qed
qed

interpretation s0c0: wire_codec EncodeS0C0 DecodeS0C0 "\<lambda>h. [h]" 1 "\<lambda>_. True"
proof (unfold_locales, goal_cases)
  case (3 r)
  let ?p = "transport_pending r"
  from 3 have "?p = [hd ?p] @ tl ?p" by (cases ?p) auto
  from transp.ral_exact [OF this] obtain r' where
    "transport_ReadAtLeast r 1 1 = (Ok [hd ?p], r')" "transport_pending r' = tl ?p" by auto
  with \<open>?p = [hd ?p] @ tl ?p\<close> show ?case by (auto simp: DecodeS0C0_def)
next
  case (4 r)
  from transp.ral_short [OF order_refl 4] show ?case by (auto simp: DecodeS0C0_def)
qed (auto simp: EncodeS0C0_def Write_open)

interpretation s1c1: wire_codec EncodeS1C1 DecodeS1C1 S1C1_bytes packetLen S1C1_ok
proof (unfold_locales, goal_cases)
  case (3 r)
  then have "4 + 4 + randomLen \<le> length (transport_pending r)" by (simp add: packetLen_def randomLen_def)
  then obtain x y z r1 r2 r3 where "transport_ReadAtLeast r 4 4 = (Ok x, r1)" "transport_ReadAtLeast r1 4 4 = (Ok y, r2)"
    "transport_ReadAtLeast r2 randomLen randomLen = (Ok z, r3)" "length x = 4" "length y = 4" "length z = randomLen"
    "transport_pending r = x @ y @ z @ transport_pending r3"
    by (rule read_parts)
  then show ?case
    using put_be_get_be [of x, where 'a = 32] by (auto simp: DecodeS1C1_def S1C1_bytes_def S1C1_ok_def)
next
  case (4 r)
  then have "length (transport_pending r) < 4 + 4 + randomLen" by (simp add: packetLen_def randomLen_def)
  from short_parts [OF this] show ?case by (simp add: DecodeS1C1_def)
next
  case (5 h h')
  then have "get_be (put_be 4 (s1_Time h)) = (get_be (put_be 4 (s1_Time h')) :: u32)"
    "s1_Version h = s1_Version h'" "s1_Random h = s1_Random h'" by (auto simp: S1C1_bytes_def S1C1_ok_def)
  then show ?case by (simp add: wire)
qed (auto simp: EncodeS1C1_def Write_open S1C1_bytes_def S1C1_ok_def packetLen_def randomLen_def)

interpretation s2c2: wire_codec EncodeS2C2 DecodeS2C2 S2C2_bytes packetLen S2C2_ok
proof (unfold_locales, goal_cases)
  case (3 r)
  then have "4 + 4 + randomLen \<le> length (transport_pending r)" by (simp add: packetLen_def randomLen_def)
  then obtain x y z r1 r2 r3 where "transport_ReadAtLeast r 4 4 = (Ok x, r1)" "transport_ReadAtLeast r1 4 4 = (Ok y, r2)"
    "transport_ReadAtLeast r2 randomLen randomLen = (Ok z, r3)" "length x = 4" "length y = 4" "length z = randomLen"
    "transport_pending r = x @ y @ z @ transport_pending r3"
    by (rule read_parts)
  then show ?case
    using put_be_get_be [of x, where 'a = 32] put_be_get_be [of y, where 'a = 32]
    by (auto simp: DecodeS2C2_def S2C2_bytes_def S2C2_ok_def)
next
  case (4 r)
  then have "length (transport_pending r) < 4 + 4 + randomLen" by (simp add: packetLen_def randomLen_def)
  from short_parts [OF this] show ?case by (simp add: DecodeS2C2_def)
next
  case (5 h h')
  then have "get_be (put_be 4 (s2_Time h)) = (get_be (put_be 4 (s2_Time h')) :: u32)"
    "get_be (put_be 4 (s2_Time2 h)) = (get_be (put_be 4 (s2_Time2 h')) :: u32)"
    "s2_Random h = s2_Random h'" by (auto simp: S2C2_bytes_def S2C2_ok_def)
  then show ?case by (simp add: wire)
qed (auto simp: EncodeS2C2_def Write_open S2C2_bytes_def S2C2_ok_def packetLen_def randomLen_def)


section \<open>What each side does with what has arrived\<close>

definition own_hello :: "hs_env \<Rightarrow> byte list \<Rightarrow> S1C1" where
  "own_hello env random = \<lparr>s1_Time = now1 env, s1_Version = hsVersion, s1_Random = random\<rparr>"

lemma own_hello_ok: "length random = randomLen \<Longrightarrow> S1C1_ok (own_hello env random)"
  by (simp add: own_hello_def S1C1_ok_def hsVersion_def)

lemmas hs_open = s0c0.emit_open s1c1.emit_open s2c2.emit_open

text \<open>The server, once the first packets are there, and once the answer is there.\<close>

lemma server_hello:
  assumes "room (hs_w c) = None" "rand_Read env = Ok random"
    and "transport_pending (hs_r c) = [v] @ S1C1_bytes c1 @ rest" "S1C1_ok c1"
  obtains r w where
    "HandshakeWithClient skip env c = andthen (recv DecodeS2C2 \<lparr>hs_r = r, hs_w = w\<rparr>)
       (\<lambda>c2 c. (echo_matches skip (s2_Random c2) random, c))"
    "transport_pending r = rest"
    "w = (hs_w c)\<lparr>sent := sent (hs_w c) @ [RTMPVersion] @ S1C1_bytes (own_hello env random) @
        S2C2_bytes \<lparr>s2_Time = s1_Time c1, s2_Time2 = now2 env, s2_Random = s1_Random c1\<rparr>\<rparr>"
proof -
  from s0c0.recv_bytes [OF assms(3) TrueI] obtain r1 where
    r1: "recv DecodeS0C0 c = (Ok v, c\<lparr>hs_r := r1\<rparr>)" "transport_pending r1 = S1C1_bytes c1 @ rest" by blast
  let ?w = "(hs_w c)\<lparr>sent := sent (hs_w c) @ [RTMPVersion] @ S1C1_bytes (own_hello env random)\<rparr>"
  from s1c1.recv_bytes [of "\<lparr>hs_r = r1, hs_w = ?w\<rparr>" c1 rest] r1(2) assms(4) obtain r2 where
    r2: "recv DecodeS1C1 \<lparr>hs_r = r1, hs_w = ?w\<rparr> = (Ok c1, \<lparr>hs_r = r2, hs_w = ?w\<rparr>)"
      "transport_pending r2 = rest" by auto
  have "HandshakeWithClient skip env c = andthen (recv DecodeS2C2 \<lparr>hs_r = r2, hs_w = ?w\<lparr>sent := sent ?w @
      S2C2_bytes \<lparr>s2_Time = s1_Time c1, s2_Time2 = now2 env, s2_Random = s1_Random c1\<rparr>\<rparr>\<rparr>)
      (\<lambda>c2 c. (echo_matches skip (s2_Random c2) random, c))"
    using r1 r2(1) assms(1,2) by (cases c) (simp add: HandshakeWithClient_def hs_open own_hello_def Let_def)
  from that [OF this r2(2)] show thesis by simp
qed

text \<open>With less than the first two packets the server cannot finish.\<close>

lemma server_stuck:
  assumes "rand_Read env = Ok random" "length (transport_pending (hs_r c)) < 1 + packetLen" "room (hs_w c) = None"
  shows "\<exists>e. fst (HandshakeWithClient skip env c) = Err e"
proof (cases "transport_pending (hs_r c)")
  case Nil
  with s0c0.recv_short [of c] show ?thesis by (auto simp: HandshakeWithClient_def)
next
  case (Cons v p)
  from s0c0.recv_bytes [of c v p] Cons obtain r1 where
    r1: "recv DecodeS0C0 c = (Ok v, c\<lparr>hs_r := r1\<rparr>)" "transport_pending r1 = p" by auto
  let ?c1 = "\<lparr>hs_r = r1, hs_w = (hs_w c)\<lparr>sent := sent (hs_w c) @ [RTMPVersion] @ S1C1_bytes (own_hello env random)\<rparr>\<rparr>"
  from s1c1.recv_short [of ?c1] r1(2) Cons assms(2) obtain e r2 where "recv DecodeS1C1 ?c1 = (Err e, ?c1\<lparr>hs_r := r2\<rparr>)"
    by auto
  with r1(1) assms(1,3) show ?thesis
    by (cases c) (simp add: HandshakeWithClient_def hs_open own_hello_def Let_def)
qed

text \<open>The client sends its first packets before it reads anything.\<close>

lemma client_hello:
  assumes "room (hs_w c) = None" "rand_Read env = Ok random"
  obtains w where
    "w = (hs_w c)\<lparr>sent := sent (hs_w c) @ [RTMPVersion] @ S1C1_bytes (own_hello env random)\<rparr>"
    "HandshakeWithServer skip env c =
     andthen (map_prod (map_outcome_err (\<lambda>e. Wrap e ''Failed to decode s0'')) id (recv DecodeS0C0 (c\<lparr>hs_w := w\<rparr>))) (\<lambda>s0 c.
     andthen (map_prod (map_outcome_err (\<lambda>e. Wrap e ''Failed to decode s1'')) id (recv DecodeS1C1 c)) (\<lambda>s1 c.
     andthen (map_prod (map_outcome_err (\<lambda>e. Wrap e ''Failed to decode s2'')) id (recv DecodeS2C2 c)) (\<lambda>s2 c.
     andthen (map_prod (map_outcome_err (\<lambda>e. Wrap e ''Failed to encode c2'')) id
       (emit EncodeS2C2 \<lparr>s2_Time = now1 env, s2_Time2 = now2 env, s2_Random = s1_Random s1\<rparr> c)) (\<lambda>_ c.
       (echo_matches skip (s2_Random s2) random, c)))))"
  using assms by (simp add: HandshakeWithServer_def hs_open own_hello_def Let_def)

lemma client_hello_only:
  assumes "room (hs_w c) = None" "rand_Read env = Ok random" "transport_pending (hs_r c) = []"
  shows "sent (hs_w (snd (HandshakeWithServer skip env c))) = sent (hs_w c) @ [RTMPVersion] @ S1C1_bytes (own_hello env random)"
proof -
  obtain w where w: "w = (hs_w c)\<lparr>sent := sent (hs_w c) @ [RTMPVersion] @ S1C1_bytes (own_hello env random)\<rparr>" by blast
  from s0c0.recv_short [of "c\<lparr>hs_w := w\<rparr>"] assms(3) obtain e r where
    "recv DecodeS0C0 (c\<lparr>hs_w := w\<rparr>) = (Err e, c\<lparr>hs_w := w, hs_r := r\<rparr>)" by auto
  with assms(1,2) show ?thesis by (simp add: HandshakeWithServer_def hs_open own_hello_def Let_def w)
qed

lemma client_answer:
  assumes "room (hs_w c) = None" "rand_Read env = Ok random"
    and "transport_pending (hs_r c) = [v] @ S1C1_bytes s1 @ S2C2_bytes s2 @ rest" "S1C1_ok s1" "S2C2_ok s2"
  obtains r where
    "HandshakeWithServer skip env c = (echo_matches skip (s2_Random s2) random, \<lparr>hs_r = r,
      hs_w = (hs_w c)\<lparr>sent := sent (hs_w c) @ [RTMPVersion] @ S1C1_bytes (own_hello env random) @
        S2C2_bytes \<lparr>s2_Time = now1 env, s2_Time2 = now2 env, s2_Random = s1_Random s1\<rparr>\<rparr>\<rparr>)"
    "transport_pending r = rest"
proof -
  from client_hello [OF assms(1,2)] obtain w where w:
    "w = (hs_w c)\<lparr>sent := sent (hs_w c) @ [RTMPVersion] @ S1C1_bytes (own_hello env random)\<rparr>" and
    run: "HandshakeWithServer skip env c =
     andthen (map_prod (map_outcome_err (\<lambda>e. Wrap e ''Failed to decode s0'')) id (recv DecodeS0C0 (c\<lparr>hs_w := w\<rparr>))) (\<lambda>s0 c.
     andthen (map_prod (map_outcome_err (\<lambda>e. Wrap e ''Failed to decode s1'')) id (recv DecodeS1C1 c)) (\<lambda>s1 c.
     andthen (map_prod (map_outcome_err (\<lambda>e. Wrap e ''Failed to decode s2'')) id (recv DecodeS2C2 c)) (\<lambda>s2 c.
     andthen (map_prod (map_outcome_err (\<lambda>e. Wrap e ''Failed to encode c2'')) id
       (emit EncodeS2C2 \<lparr>s2_Time = now1 env, s2_Time2 = now2 env, s2_Random = s1_Random s1\<rparr> c)) (\<lambda>_ c.
       (echo_matches skip (s2_Random s2) random, c)))))" by blast
  from s0c0.recv_bytes [of "c\<lparr>hs_w := w\<rparr>" v] assms(3) obtain r1 where
    r1: "recv DecodeS0C0 (c\<lparr>hs_w := w\<rparr>) = (Ok v, \<lparr>hs_r = r1, hs_w = w\<rparr>)"
      "transport_pending r1 = S1C1_bytes s1 @ S2C2_bytes s2 @ rest" by (cases c) auto
  from s1c1.recv_bytes [of "\<lparr>hs_r = r1, hs_w = w\<rparr>" s1] r1(2) assms(4) obtain r2 where
    r2: "recv DecodeS1C1 \<lparr>hs_r = r1, hs_w = w\<rparr> = (Ok s1, \<lparr>hs_r = r2, hs_w = w\<rparr>)"
      "transport_pending r2 = S2C2_bytes s2 @ rest" by auto
  from s2c2.recv_bytes [of "\<lparr>hs_r = r2, hs_w = w\<rparr>" s2] r2(2) assms(5) obtain r3 where
    r3: "recv DecodeS2C2 \<lparr>hs_r = r2, hs_w = w\<rparr> = (Ok s2, \<lparr>hs_r = r3, hs_w = w\<rparr>)"
      "transport_pending r3 = rest" by auto
  have "room w = None" using assms(1) w by simp
  with r1 r2 r3 show thesis by (intro that [OF _ r3(2)]) (simp add: run hs_open w)
qed

section \<open>Properties\<close>

text \<open>A connection that has just been opened, on a given transport.\<close>

definition hs_start :: "transport \<Rightarrow> hs_conn" where
  "hs_start r = \<lparr>hs_r = r, hs_w = \<lparr>sent = [], room = None, werr = EOF\<rparr>\<rparr>"

definition server_sends :: "bool \<Rightarrow> hs_env \<Rightarrow> transport \<Rightarrow> byte list" where
  "server_sends skip env r = sent (hs_w (snd (HandshakeWithClient skip env (hs_start r))))"

definition client_sends :: "bool \<Rightarrow> hs_env \<Rightarrow> transport \<Rightarrow> byte list" where
  "client_sends skip env r = sent (hs_w (snd (HandshakeWithServer skip env (hs_start r))))"

text \<open>
  C23. The server accepts a client exactly when the client sent three whole packets of which the last
  echoes the server's random bytes; with verification switched off the content does not matter. How
  the network cuts the bytes up makes no difference.
\<close>

theorem server_accepts_iff:
  assumes "rand_Read env = Ok random"
  shows "fst (HandshakeWithClient skip env (hs_start r)) = Ok () \<longleftrightarrow>
    (\<exists>v c1 c2 rest. transport_pending r = [v] @ S1C1_bytes c1 @ S2C2_bytes c2 @ rest \<and> S1C1_ok c1 \<and> S2C2_ok c2 \<and>
       (skip \<or> s2_Random c2 = random))"
proof -
  let ?c = "hs_start r"
  have room: "room (hs_w ?c) = None" and hr: "hs_r ?c = r" by (simp_all add: hs_start_def)
  show ?thesis
  proof (cases "1 + packetLen \<le> length (transport_pending r)")
    case True
    then obtain v p where p: "transport_pending r = [v] @ p" "packetLen \<le> length p"
      by (cases "transport_pending r") auto
    obtain c1 r1 where c1: "S1C1_ok c1" "p = S1C1_bytes c1 @ transport_pending r1"
      using s1c1.decode_whole [of "\<lparr>segs = [p], end_err = EOF\<rparr>"] p(2) by (auto simp: transport_pending_def)
    let ?rest = "transport_pending r1"
    have unique: "transport_pending r = [v'] @ S1C1_bytes c1' @ tail \<Longrightarrow> S1C1_ok c1' \<Longrightarrow> tail = ?rest" for v' c1' tail
      using p(1) c1 s1c1.encode_size [of c1] s1c1.encode_size [of c1'] by auto
    obtain r' w where run: "HandshakeWithClient skip env ?c = andthen (recv DecodeS2C2 \<lparr>hs_r = r', hs_w = w\<rparr>)
       (\<lambda>c2 c. (echo_matches skip (s2_Random c2) random, c))" "transport_pending r' = ?rest"
      using server_hello [OF room assms, of v c1 ?rest skip thesis] p(1) c1 hr by auto
    show ?thesis
    proof (cases "packetLen \<le> length ?rest")
      case True
      with s2c2.recv_whole [of "\<lparr>hs_r = r', hs_w = w\<rparr>"] run(2) obtain c2 r2 where c2:
        "recv DecodeS2C2 \<lparr>hs_r = r', hs_w = w\<rparr> = (Ok c2, \<lparr>hs_r = r2, hs_w = w\<rparr>)" "S2C2_ok c2"
        "?rest = S2C2_bytes c2 @ transport_pending r2" by auto
      have "fst (HandshakeWithClient skip env ?c) = Ok () \<longleftrightarrow> skip \<or> s2_Random c2 = random"
        by (simp add: run(1) c2(1) echo_matches_def)
      moreover have "c2' = c2" if "transport_pending r = [v'] @ S1C1_bytes c1' @ S2C2_bytes c2' @ tail"
        "S1C1_ok c1'" "S2C2_ok c2'" for v' c1' c2' tail
        using unique [OF that(1,2)] c2(2,3) that(3) s2c2.encode_size [of c2] s2c2.encode_size [of c2']
          s2c2.bytes_inj [of c2 c2'] by auto
      ultimately show ?thesis using p(1) c1 c2(2,3) by (metis append_assoc)
    next
      case False
      with s2c2.recv_short [of "\<lparr>hs_r = r', hs_w = w\<rparr>"] run(2) have "fst (HandshakeWithClient skip env ?c) \<noteq> Ok ()"
        by (auto simp: run(1))
      moreover have "\<not> S2C2_ok c2'" if "transport_pending r = [v'] @ S1C1_bytes c1' @ S2C2_bytes c2' @ tail"
        "S1C1_ok c1'" for v' c1' c2' tail
        using unique [OF that] False s2c2.encode_size [of c2'] by (metis le_add1 length_append)
      ultimately show ?thesis by blast
    qed
  next
    case False
    have "length (S1C1_bytes c1) = packetLen" if "S1C1_ok c1" for c1 using s1c1.encode_size that .
    then have no: "\<not> (\<exists>v c1 c2 rest. transport_pending r = [v] @ S1C1_bytes c1 @ S2C2_bytes c2 @ rest \<and> S1C1_ok c1)"
      using False by auto
    have "fst (HandshakeWithClient skip env ?c) \<noteq> Ok ()"
      using False server_stuck [OF assms, of ?c skip] room hr by auto
    with no show ?thesis by blast
  qed
qed


definition sampleEnv :: "byte \<Rightarrow> hs_env" where
  "sampleEnv b = \<lparr>now1 = 7, now2 = 9, rand_Read = Ok (replicate randomLen b)\<rparr>"

definition wire_of :: "byte list list \<Rightarrow> transport" where
  "wire_of bss = \<lparr>segs = bss, end_err = EOF\<rparr>"

text \<open>A client that sends back other bytes than the server's is refused, one that echoes them is accepted.\<close>

theorem server_accepts_iff_witness:
  "\<exists>c1. let hello = [[3], S1C1_bytes c1] in
     fst (HandshakeWithClient False (sampleEnv 5) (hs_start (wire_of (hello @ [S2C2_bytes \<lparr>s2_Time = 0, s2_Time2 = 0,
       s2_Random = replicate randomLen 5\<rparr>])))) = Ok () \<and>
     fst (HandshakeWithClient False (sampleEnv 5) (hs_start (wire_of (hello @ [S2C2_bytes \<lparr>s2_Time = 0, s2_Time2 = 0,
       s2_Random = replicate randomLen 6\<rparr>])))) \<noteq> Ok ()"
proof -
  let ?c1 = "own_hello (sampleEnv 1) (replicate randomLen 1)"
  let ?c2 = "\<lambda>b. \<lparr>s2_Time = 0, s2_Time2 = 0, s2_Random = replicate randomLen b\<rparr> :: S2C2"
  have rand: "rand_Read (sampleEnv 5) = Ok (replicate randomLen 5)" by (simp add: sampleEnv_def)
  have ok: "S1C1_ok ?c1" "\<And>b. S2C2_ok (?c2 b)" by (simp_all add: own_hello_ok S2C2_ok_def)
  have inj: "S2C2_bytes c2 @ rest = S2C2_bytes (?c2 6) \<Longrightarrow> S2C2_ok c2 \<Longrightarrow> s2_Random c2 = replicate randomLen 6" for c2 rest
    using s2c2.encode_size [of c2] s2c2.encode_size [of "?c2 6"] s2c2.bytes_inj [of c2 "?c2 6"] ok(2)
    by (metis S2C2.select_convs(3) append_eq_append_conv append.right_neutral)
  have "fst (HandshakeWithClient False (sampleEnv 5) (hs_start (wire_of [[3], S1C1_bytes ?c1, S2C2_bytes (?c2 5)]))) = Ok ()"
    using server_accepts_iff [OF rand, of False] ok by (force simp: wire_of_def transport_pending_def)
  moreover have "fst (HandshakeWithClient False (sampleEnv 5) (hs_start (wire_of [[3], S1C1_bytes ?c1, S2C2_bytes (?c2 6)]))) \<noteq> Ok ()"
  proof
    assume "fst (HandshakeWithClient False (sampleEnv 5) (hs_start (wire_of [[3], S1C1_bytes ?c1, S2C2_bytes (?c2 6)]))) = Ok ()"
    then obtain v c1 c2 rest where "[3] @ S1C1_bytes ?c1 @ S2C2_bytes (?c2 6) = [v] @ S1C1_bytes c1 @ S2C2_bytes c2 @ rest"
      "S1C1_ok c1" "S2C2_ok c2" "s2_Random c2 = replicate randomLen 5"
      using server_accepts_iff [OF rand, of False] by (auto simp: wire_of_def transport_pending_def)
    with s1c1.encode_size [of c1] s1c1.encode_size [OF ok(1)] inj [of c2 rest] show False
      by (auto simp: randomLen_def)
  qed
  ultimately show ?thesis unfolding Let_def by (intro exI [of _ ?c1]) (simp del: replicate.simps)
qed

text \<open>
  C22. Two sides of this package always complete the handshake with each other, whatever the network
  does to the bytes: the client's first packets do not wait for the server, the server's three
  packets wait for those only, and the client's last packet for those only. Each side then accepts
  the other and leaves nothing unread, so what follows the handshake starts at the right byte.
\<close>

theorem handshake_completes:
  assumes "rand_Read envC = Ok rndC" "length rndC = randomLen" "rand_Read envS = Ok rndS" "length rndS = randomLen"
    and "transport_pending c0 = []"
    and "transport_pending s1 = client_sends skipC envC c0"
    and "transport_pending c1 = server_sends skipS envS s1"
    and "transport_pending s2 = client_sends skipC envC c1 @ rest"
  shows "(\<exists>c. HandshakeWithServer skipC envC (hs_start c1) = (Ok (), c) \<and> transport_pending (hs_r c) = []) \<and>
    (\<exists>s. HandshakeWithClient skipS envS (hs_start s2) = (Ok (), s) \<and> transport_pending (hs_r s) = rest) \<and>
    (\<exists>more. client_sends skipC envC c1 = client_sends skipC envC c0 @ more) \<and>
    server_sends skipS envS s2 = server_sends skipS envS s1"
proof -
  let ?hC = "own_hello envC rndC" and ?hS = "own_hello envS rndS"
  let ?S2 = "\<lparr>s2_Time = s1_Time ?hC, s2_Time2 = now2 envS, s2_Random = s1_Random ?hC\<rparr>"
  let ?C2 = "\<lparr>s2_Time = now1 envC, s2_Time2 = now2 envC, s2_Random = s1_Random ?hS\<rparr>"
  have ok: "S1C1_ok ?hC" "S1C1_ok ?hS" "S2C2_ok ?S2" "S2C2_ok ?C2"
    using assms(2,4) by (simp_all add: own_hello_ok) (simp_all add: S2C2_ok_def own_hello_def)
  have room: "\<And>r. room (hs_w (hs_start r)) = None" "\<And>r. hs_r (hs_start r) = r" "\<And>r. sent (hs_w (hs_start r)) = []"
    by (simp_all add: hs_start_def)
  have c0: "client_sends skipC envC c0 = [RTMPVersion] @ S1C1_bytes ?hC"
    using client_hello_only [of "hs_start c0" envC rndC skipC] assms(1,5) room by (simp add: client_sends_def)
  obtain r w where sS: "HandshakeWithClient skipS envS (hs_start s1) = andthen (recv DecodeS2C2 \<lparr>hs_r = r, hs_w = w\<rparr>)
       (\<lambda>c2 c. (echo_matches skipS (s2_Random c2) rndS, c))" "transport_pending r = []"
    "sent w = [RTMPVersion] @ S1C1_bytes ?hS @ S2C2_bytes ?S2"
    using server_hello [OF room(1) assms(3), of s1 RTMPVersion ?hC "[]" skipS thesis] assms(6) c0 ok room by auto
  obtain e r' where "recv DecodeS2C2 \<lparr>hs_r = r, hs_w = w\<rparr> = (Err e, \<lparr>hs_r = r', hs_w = w\<rparr>)"
    using s2c2.recv_short [of "\<lparr>hs_r = r, hs_w = w\<rparr>"] sS(2) by (auto simp: packetLen_def)
  then have s1: "server_sends skipS envS s1 = [RTMPVersion] @ S1C1_bytes ?hS @ S2C2_bytes ?S2"
    using sS by (simp add: server_sends_def)
  obtain rc where cC: "HandshakeWithServer skipC envC (hs_start c1) = (echo_matches skipC rndC rndC,
      \<lparr>hs_r = rc, hs_w = (hs_w (hs_start c1))\<lparr>sent := [RTMPVersion] @ S1C1_bytes ?hC @ S2C2_bytes ?C2\<rparr>\<rparr>)"
    "transport_pending rc = []"
    using client_answer [OF room(1) assms(1), of c1 RTMPVersion ?hS ?S2 "[]" skipC thesis] assms(7) s1 ok room
    by (auto simp: own_hello_def)
  then have c1: "client_sends skipC envC c1 = [RTMPVersion] @ S1C1_bytes ?hC @ S2C2_bytes ?C2"
    by (simp add: client_sends_def)
  obtain r2 w2 where sF: "HandshakeWithClient skipS envS (hs_start s2) = andthen (recv DecodeS2C2 \<lparr>hs_r = r2, hs_w = w2\<rparr>)
       (\<lambda>c2 c. (echo_matches skipS (s2_Random c2) rndS, c))" "transport_pending r2 = S2C2_bytes ?C2 @ rest"
    "sent w2 = [RTMPVersion] @ S1C1_bytes ?hS @ S2C2_bytes ?S2"
    using server_hello [OF room(1) assms(3), of s2 RTMPVersion ?hC "S2C2_bytes ?C2 @ rest" skipS thesis] assms(8) c1 ok room
    by auto
  obtain r3 where "recv DecodeS2C2 \<lparr>hs_r = r2, hs_w = w2\<rparr> = (Ok ?C2, \<lparr>hs_r = r3, hs_w = w2\<rparr>)" "transport_pending r3 = rest"
    using s2c2.recv_bytes [of "\<lparr>hs_r = r2, hs_w = w2\<rparr>" ?C2 rest] sF(2) ok(4) by auto
  then have "HandshakeWithClient skipS envS (hs_start s2) = (Ok (), \<lparr>hs_r = r3, hs_w = w2\<rparr>)"
    using sF(1) by (simp add: echo_matches_def own_hello_def)
  with cC c0 c1 s1 sF(3) \<open>transport_pending r3 = rest\<close> show ?thesis by (simp add: echo_matches_def server_sends_def)
qed

theorem handshake_completes_witness:
  "\<exists>s2 s. HandshakeWithClient False (sampleEnv 5) (hs_start s2) = (Ok (), s) \<and> transport_pending (hs_r s) = [42]"
proof -
  let ?c0 = "wire_of []"
  let ?s1 = "wire_of [client_sends False (sampleEnv 4) ?c0]"
  let ?c1 = "wire_of [server_sends False (sampleEnv 5) ?s1]"
  let ?s2 = "wire_of [client_sends False (sampleEnv 4) ?c1, [42]]"
  show ?thesis
    using handshake_completes [of "sampleEnv 4" "replicate randomLen 4" "sampleEnv 5" "replicate randomLen 5" ?c0 ?s1 False
        ?c1 False ?s2 "[42]"]
    by (auto simp: sampleEnv_def wire_of_def transport_pending_def)
qed

end
