(* ===== verification/Conn.thy ===== *)
theory Conn
  imports HandlerInv Handshake ChunkDelivery
begin

text \<open>
  conn.go and server_conn.go: a connection's message loop, its end, and the server's side of setting
  it up. The loop reads a message, hands it to its stream and goes on until the streamer is done, a
  read fails or a message is refused. Each round takes at least one byte of the input, which is why
  the loop ends on every input that does.
\<close>

section \<open>Setting up\<close>

definition newConn :: "transport \<Rightarrow> ChunkStreamerWriter \<Rightarrow> 'u ConnConfig \<Rightarrow> 'u \<Rightarrow> 'u Conn" where
  "newConn r w cfg usr =
     (let control = ControlState cfg in
      \<lparr>conn_in = NewChunkStreamer_in r (Some control), conn_streams = newStreams control,
       conn_w = \<lparr>w_out = NewChunkStreamer_out w (Some control), w_usr = usr, w_http = [], w_log = []\<rparr>,
       ignoredMessages = 0, isClosed = False\<rparr>)"

section \<open>Messages\<close>

fun ignored_body :: "go_err \<Rightarrow> bool" where
  "ignored_body (UnknownDataBodyDecodeError _ _) = True"
| "ignored_body (UnknownCommandBodyDecodeError _ _ _) = True"
| "ignored_body _ = False"

definition handleMessage :: "'u runtime \<Rightarrow> int \<Rightarrow> u32 \<Rightarrow> ChunkMessage \<Rightarrow> 'u conn_op" where
  "handleMessage rt csid ts cmsg c =
     (case streams_At (StreamID cmsg) (conn_streams c) of
        Panic m \<Rightarrow> (Panic m, c)
      | Err e \<Rightarrow>
          if IgnoreMessagesOnNotExistStream (rt_cfg rt) \<and>
             ignoredMessages c < IgnoreMessagesOnNotExistStreamThreshold (rt_cfg rt)
          then (Ok (), c\<lparr>ignoredMessages := ignoredMessages c + 1\<rparr>)
          else (Err (Errorf ''Specified stream is not created yet: StreamID = %d''
                  [ArgInt (uint (StreamID cmsg))]), c)
      | Ok s \<Rightarrow>
          (case Handle rt s csid ts (Message cmsg) c of
             (Err e, c) \<Rightarrow> if ignored_body e then (Ok (), c) else (Err e, c)
           | (res, c) \<Rightarrow> (res, c)))"

text \<open>\<open>sendAck\<close> writes through \<open>controlStreamWriter\<close>, the control stream's \<open>Write\<close>.\<close>

definition sendAck :: "'u runtime \<Rightarrow> u32 \<Rightarrow> 'u callback" where
  "sendAck rt readBytes = Stream_Write rt ControlStreamID ctrlMsgChunkStreamID 0 (Ack readBytes)"

definition Conn_Read :: "'u runtime \<Rightarrow> 'u Conn \<Rightarrow> (int \<times> u32 \<times> ChunkMessage) outcome \<times> 'u Conn" where
  "Conn_Read rt c =
     (case Read (rt_lib rt) (sendAck rt) (conn_in c, conn_w c) of
        (res, (i, w)) \<Rightarrow> (res, c\<lparr>conn_in := i, conn_w := w\<rparr>))"

definition idle :: "'u runtime \<Rightarrow> 'u Conn \<Rightarrow> 'u Conn" where
  "idle rt c = c\<lparr>conn_w := (conn_w c)\<lparr>w_out := rt_idle rt (w_out (conn_w c))\<rparr>\<rparr>"

definition streamer_Done :: "'u Conn \<Rightarrow> bool" where
  "streamer_Done c = runDone (w_out (conn_w c))"

definition streamer_Err :: "'u Conn \<Rightarrow> go_err option" where
  "streamer_Err c = cs_err (w_out (conn_w c))"

section \<open>The loop takes input in every round\<close>

lemma NewChunkReader_consumes:
  "NewChunkReader ack (s, w) = (Ok csid, (s', w')) \<Longrightarrow> length (csr_pending (cs_r s')) < length (csr_pending (cs_r s))"
proof (induction ack "(s, w)" arbitrary: s w rule: NewChunkReader.induct)
  case (1 ack s w)
  obtain o1 s1 where rc: "readChunk s = (o1, s1)" by fastforce
  from "1.prems" rc obtain c1 where o1: "o1 = Ok c1"
    by (cases o1) (auto simp: NewChunkReader.simps [of ack s w])
  obtain o2 s2 w2 where ak: "acknowledge ack (s1, w) = (o2, (s2, w2))" by (metis prod.exhaust)
  from "1.prems" rc o1 ak obtain u where o2: "o2 = Ok u"
    by (cases o2) (auto simp: NewChunkReader.simps [of ack s w])
  have less: "length (csr_pending (cs_r s2)) < length (csr_pending (cs_r s))"
    using readChunk_consumes [OF rc [unfolded o1]] acknowledge_pending [OF ak] by simp
  show ?case
  proof (cases "reader_completed s2 c1")
    case True
    with "1.prems" rc o1 ak o2 less show ?thesis by (simp add: NewChunkReader.simps [of ack s w])
  next
    case False
    with "1.prems" rc o1 ak o2 have "NewChunkReader ack (s2, w2) = (Ok csid, (s', w'))"
      by (simp add: NewChunkReader.simps [of ack s w])
    from "1.hyps" [OF rc [symmetric] o1 ak [symmetric] o2 refl False this] less show ?thesis by simp
  qed
qed

lemma Read_consumes:
  assumes "Read lib ack (s, w) = (Ok m, (s', w'))"
  shows "length (csr_pending (cs_r s')) < length (csr_pending (cs_r s))"
proof -
  from assms obtain csid s1 w1 where n: "NewChunkReader ack (s, w) = (Ok csid, (s1, w1))"
    by (auto simp: Read_def bindo_Ok_iff)
  with assms obtain rd where rd: "map_of (cs_readers s1) csid = Some rd"
    by (auto simp: Read_def split: option.splits)
  obtain o2 rest where "Decode lib (messageTypeID rd) (buf rd) = (o2, rest)" by fastforce
  with assms n rd have "cs_r s' = cs_r s1"
    by (cases o2) (auto simp: Read_def putReader_def Let_def)
  with NewChunkReader_consumes [OF n] show ?thesis by simp
qed

lemma Conn_Read_consumes:
  "Conn_Read rt c = (Ok m, c') \<Longrightarrow> length (csr_pending (cs_r (conn_in c'))) < length (csr_pending (cs_r (conn_in c)))"
  by (auto simp: Conn_Read_def split: prod.splits dest: Read_consumes)


section \<open>What a handler leaves alone\<close>

text \<open>No handler touches the reader of the connection.\<close>

interpretation input: handler_inv rt "\<lambda>c. cs_r (conn_in c) = r"
  by unfold_locales (auto simp: io_step_def on_world_def on_streams_def ChangeState_def split: prod.splits option.splits)

lemma handleMessage_input: "cs_r (conn_in (snd (handleMessage rt csid ts m c))) = cs_r (conn_in c)"
  using input.Handle_P [of c "cs_r (conn_in c)" "StreamID m" _ rt csid ts "Message m"]
  by (fastforce simp: handleMessage_def streams_At_def split: prod.split outcome.split option.split)

lemma handleMessage_keeps_input: "handleMessage rt csid ts m c = (res, c') \<Longrightarrow> cs_r (conn_in c') = cs_r (conn_in c)"
  using handleMessage_input [of rt csid ts m c] by simp

section \<open>The loop\<close>

function runHandleMessageLoop :: "'u runtime \<Rightarrow> 'u conn_op" where
  "runHandleMessageLoop rt c =
     (if streamer_Done (idle rt c) then
        ((case streamer_Err (idle rt c) of None \<Rightarrow> Ok () | Some e \<Rightarrow> Err e), idle rt c)
      else
        (case Conn_Read rt (idle rt c) of
           (Err e, c) \<Rightarrow> (Err e, c)
         | (Panic m, c) \<Rightarrow> (Panic m, c)
         | (Ok (csid, ts, cmsg), c) \<Rightarrow>
             (case handleMessage rt csid ts cmsg c of
                (Ok _, c) \<Rightarrow> runHandleMessageLoop rt c
              | (Err e, c) \<Rightarrow> (Err e, c)
              | (Panic m, c) \<Rightarrow> (Panic m, c))))"
  by pat_completeness auto
termination
proof (relation "measure (\<lambda>(_, c). length (csr_pending (cs_r (conn_in c))))")
qed (auto simp: idle_def dest!: Conn_Read_consumes [OF sym] handleMessage_keeps_input [OF sym])

declare runHandleMessageLoop.simps [simp del]

text \<open>One round of the loop, with \<open>None\<close> when the loop goes on.\<close>

definition loop_round :: "'u runtime \<Rightarrow> 'u Conn \<Rightarrow> unit outcome option \<times> 'u Conn" where
  "loop_round rt c =
     (if streamer_Done (idle rt c) then
        (Some (case streamer_Err (idle rt c) of None \<Rightarrow> Ok () | Some e \<Rightarrow> Err e), idle rt c)
      else
        (case Conn_Read rt (idle rt c) of
           (Err e, c) \<Rightarrow> (Some (Err e), c)
         | (Panic m, c) \<Rightarrow> (Some (Panic m), c)
         | (Ok (csid, ts, cmsg), c) \<Rightarrow>
             (case handleMessage rt csid ts cmsg c of
                (Ok _, c) \<Rightarrow> (None, c)
              | (Err e, c) \<Rightarrow> (Some (Err e), c)
              | (Panic m, c) \<Rightarrow> (Some (Panic m), c))))"

lemma loop_by_round:
  "runHandleMessageLoop rt c =
     (case loop_round rt c of (None, c') \<Rightarrow> runHandleMessageLoop rt c' | (Some res, c') \<Rightarrow> (res, c'))"
  by (simp add: loop_round_def runHandleMessageLoop.simps [of rt c] split: prod.split outcome.split)

lemma round_consumes:
  "loop_round rt c = (None, c') \<Longrightarrow> length (csr_pending (cs_r (conn_in c'))) < length (csr_pending (cs_r (conn_in c)))"
  by (auto simp: loop_round_def idle_def split: if_splits prod.splits outcome.splits
      dest!: Conn_Read_consumes handleMessage_keeps_input)

text \<open>What the steps of a round keep, the round keeps.\<close>

lemma loop_round_keeps:
  assumes "Q c" "\<And>c. Q c \<Longrightarrow> Q (idle rt c)" "\<And>c res c'. Q c \<Longrightarrow> Conn_Read rt c = (res, c') \<Longrightarrow> Q c'"
    and "\<And>c csid ts m. Q c \<Longrightarrow> Q (snd (handleMessage rt csid ts m c))"
  shows "Q (snd (loop_round rt c))"
proof (cases "streamer_Done (idle rt c)")
  case False
  obtain o1 c1 where r: "Conn_Read rt (idle rt c) = (o1, c1)" by fastforce
  have Q1: "Q c1" using assms(3) [OF assms(2) [OF assms(1)] r] .
  show ?thesis
  proof (cases o1)
    case (Ok m)
    obtain csid ts cmsg where m: "m = (csid, ts, cmsg)" by (metis prod.exhaust)
    obtain o2 c2 where h: "handleMessage rt csid ts cmsg c1 = (o2, c2)" by fastforce
    then have "Q c2" using assms(4) [OF Q1, of csid ts cmsg] by simp
    then show ?thesis using False r Ok m h by (cases o2) (simp_all add: loop_round_def)
  qed (use False r Q1 in \<open>simp_all add: loop_round_def\<close>)
qed (use assms(1,2) in \<open>simp add: loop_round_def\<close>)

text \<open>A panic in the loop is recovered and becomes its error.\<close>

definition handleMessageLoop :: "'u runtime \<Rightarrow> 'u conn_op" where
  "handleMessageLoop rt c =
     (case runHandleMessageLoop rt c of
        (Panic m, c) \<Rightarrow> (Err (Errorf ''Panic: %+v'' [ArgStr m]), c)
      | (res, c) \<Rightarrow> (res, c))"

section \<open>server_conn.go\<close>

definition Serve :: "'u runtime \<Rightarrow> hs_env \<Rightarrow> 'u conn_op" where
  "Serve rt env c =
     (case HandshakeWithClient (SkipHandshakeVerification (rt_cfg rt)) env
             \<lparr>hs_r = reader (cs_r (conn_in c)), hs_w = cs_w (w_out (conn_w c))\<rparr> of
        (res, h) \<Rightarrow>
          let c = c\<lparr>conn_in := (conn_in c)\<lparr>cs_r := (cs_r (conn_in c))\<lparr>reader := hs_r h\<rparr>\<rparr>,
                    conn_w := (conn_w c)\<lparr>w_out := (w_out (conn_w c))\<lparr>cs_w := hs_w h\<rparr>\<rparr>\<rparr> in
          andthen (map_outcome_err (\<lambda>e. Wrap e ''Failed to handshake'') res, c) (\<lambda>_ c.
          andthen (map_prod (map_outcome_err (\<lambda>e. Wrap e ''Failed to create control stream'')) id
                     (on_streams (streams_Create ControlStreamID) c)) (\<lambda>_ c.
          andthen (ChangeState ControlStreamID streamStateServerNotConnected c) (\<lambda>_ c.
          andthen (on_world (OnServe (userHandler rt)) c) (\<lambda>_ c.
            handleMessageLoop rt c)))))"

section \<open>Closing\<close>

text \<open>
  \<open>waitWriters\<close> calls \<open>Wait\<close> on every writer, with a timeout of three seconds and ignoring failures; a
  writer that is done is thereby taken, and nobody gives it back. \<open>pick\<close> says how each wait ends.
\<close>

definition waitWriters :: "(int \<Rightarrow> wait_case) \<Rightarrow> chunk_out \<Rightarrow> chunk_out" where
  "waitWriters pick out =
     out\<lparr>cs_writers := map (\<lambda>(csid, w). (csid, snd (Wait (pick csid) w))) (cs_writers out)\<rparr>"

definition ChunkStreamer_Close :: "chunk_out \<Rightarrow> unit outcome \<times> chunk_out" where
  "ChunkStreamer_Close out =
     (if stopClosed out then (Panic ''close of closed channel'', out) else (Ok (), out\<lparr>stopClosed := True\<rparr>))"

text \<open>\<open>rwc_Close\<close> is the error of closing the connection below, if any.\<close>

definition Conn_Close :: "'u runtime \<Rightarrow> (int \<Rightarrow> wait_case) \<Rightarrow> go_err option \<Rightarrow> 'u conn_op" where
  "Conn_Close rt pick rwc_Close c =
     (if isClosed c then (Ok (), c)
      else andthen (on_world (OnClose (userHandler rt)) (c\<lparr>isClosed := True\<rparr>)) (\<lambda>_ c.
           let c = c\<lparr>conn_w := (conn_w c)\<lparr>w_out := waitWriters pick (w_out (conn_w c))\<rparr>\<rparr> in
           (case ChunkStreamer_Close (w_out (conn_w c)) of
              (Panic m, out) \<Rightarrow> (Panic m, c\<lparr>conn_w := (conn_w c)\<lparr>w_out := out\<rparr>\<rparr>)
            | (res, out) \<Rightarrow>
                ((case rwc_Close of None \<Rightarrow> res | Some e \<Rightarrow> Err e), c\<lparr>conn_w := (conn_w c)\<lparr>w_out := out\<rparr>\<rparr>))))"

end
