(* ===== verification/ServerInv.thy ===== *)
theory ServerInv
  imports Conn
begin

text \<open>
  What a server connection keeps from its first message to its last, for every input, every user
  handler and every behaviour of the other goroutines: the contract of such an invariant, and the
  states of the connection's streams as the first of them.
\<close>

section \<open>Reading keeps what it does not touch\<close>

lemma acknowledge_keeps:
  assumes "acknowledge ack (s, w) = (res, (s', w'))" "\<And>n w. Q w \<Longrightarrow> Q (snd (ack n w))" "Q w"
  shows "Q w'"
proof (cases "FragmentReadBytes (cs_r s) \<ge> ackThreshold (peerState s)")
  case True
  obtain o1 w1 where a: "ack (TotalReadBytes (cs_r s)) w = (o1, w1)" by fastforce
  with assms(2,3) have "Q w1" by (metis snd_conv)
  with assms(1) True a show ?thesis by (cases o1) (auto simp: acknowledge_def)
qed (use assms(1,3) in \<open>simp add: acknowledge_def\<close>)

lemma NewChunkReader_keeps:
  "(\<And>n w. Q w \<Longrightarrow> Q (snd (ack n w))) \<Longrightarrow> Q w \<Longrightarrow> NewChunkReader ack (s, w) = (res, (s', w')) \<Longrightarrow> Q w'"
proof (induction ack "(s, w)" arbitrary: s w rule: NewChunkReader.induct)
  case (1 ack s w)
  obtain o1 s1 where rc: "readChunk s = (o1, s1)" by fastforce
  show ?case
  proof (cases o1)
    case (Ok c1)
    obtain o2 s2 w2 where ak: "acknowledge ack (s1, w) = (o2, (s2, w2))" by (metis prod.exhaust)
    have Q2: "Q w2" by (rule acknowledge_keeps [OF ak]) (use "1.prems" in auto)
    show ?thesis
    proof (cases o2)
      case (Ok u)
      show ?thesis
      proof (cases "reader_completed s2 c1")
        case True
        with "1.prems" rc \<open>o1 = Ok c1\<close> ak Ok Q2 show ?thesis by (simp add: NewChunkReader.simps [of ack s w])
      next
        case False
        with "1.prems" rc \<open>o1 = Ok c1\<close> ak Ok have "NewChunkReader ack (s2, w2) = (res, (s', w'))"
          by (simp add: NewChunkReader.simps [of ack s w])
        with "1.hyps" [OF rc [symmetric] \<open>o1 = Ok c1\<close> ak [symmetric] Ok refl False] Q2 "1.prems" show ?thesis by blast
      qed
    qed (use "1.prems" rc Ok ak Q2 in \<open>simp_all add: NewChunkReader.simps [of ack s w]\<close>)
  qed (use "1.prems" rc in \<open>simp_all add: NewChunkReader.simps [of ack s w]\<close>)
qed


lemma sendAck_usr: "w_usr (snd (sendAck rt n w)) = w_usr w"
  by (simp add: sendAck_def frame)

text \<open>What the acknowledgements keep, reading a message keeps.\<close>

lemma Conn_Read_keeps:
  assumes "Conn_Read rt c = (res, c')" "\<And>n w. Q w \<Longrightarrow> Q (snd (sendAck rt n w))" "Q (conn_w c)"
  shows "Q (conn_w c')"
proof -
  obtain o1 s1 w1 where n: "NewChunkReader (sendAck rt) (conn_in c, conn_w c) = (o1, (s1, w1))" by (metis prod.exhaust)
  have Q1: "Q w1" by (rule NewChunkReader_keeps [OF assms(2,3) n])
  obtain o2 i w where r: "Read (rt_lib rt) (sendAck rt) (conn_in c, conn_w c) = (o2, (i, w))" by (metis prod.exhaust)
  have "w = w1"
  proof (cases o1)
    case (Ok csid)
    show ?thesis
    proof (cases "map_of (cs_readers s1) csid")
      case (Some rd)
      obtain o3 rest where "Decode (rt_lib rt) (messageTypeID rd) (buf rd) = (o3, rest)" by fastforce
      with r n Ok Some show ?thesis by (cases o3) (simp_all add: Read_def Let_def)
    qed (use r n Ok in \<open>simp add: Read_def\<close>)
  qed (use r n in \<open>simp_all add: Read_def\<close>)
  with assms(1) r Q1 show ?thesis by (auto simp: Conn_Read_def)
qed

lemma Conn_Read_frame:
  assumes "Conn_Read rt c = (res, c')"
  shows "w_usr (conn_w c') = w_usr (conn_w c)" "conn_streams c' = conn_streams c"
    "ignoredMessages c' = ignoredMessages c" "isClosed c' = isClosed c" "w_http (conn_w c') = w_http (conn_w c)"
  using assms Conn_Read_keeps [OF assms, of "\<lambda>w. w_usr w = w_usr (conn_w c)"]
    Conn_Read_keeps [OF assms, of "\<lambda>w. w_http w = w_http (conn_w c)"]
  by (auto simp: Conn_Read_def sendAck_usr sendAck_def frame split: prod.splits)

section \<open>Invariants of the loop\<close>

text \<open>
  A property of the handlers is a property of the whole loop when it looks at the streams and at the
  application's state only.
\<close>

locale loop_inv = handler_inv +
  assumes P_loop: "P c \<Longrightarrow> conn_streams c' = conn_streams c \<Longrightarrow> w_usr (conn_w c') = w_usr (conn_w c) \<Longrightarrow>
      w_http (conn_w c') = w_http (conn_w c) \<Longrightarrow> isClosed c' = isClosed c \<Longrightarrow> P c'"
begin

lemma handleMessage_P: "P c \<Longrightarrow> P (snd (handleMessage rt csid ts m c))"
proof (cases "stream_at c (StreamID m)")
  case (Some s)
  assume "P c"
  obtain res c' where "Handle rt s csid ts (Message m) c = (res, c')" by fastforce
  moreover from Handle_P [OF \<open>P c\<close> Some] this have "P c'" by (metis snd_conv)
  ultimately show ?thesis using Some by (cases res) (simp_all add: handleMessage_def streams_At_def)
next
  case None
  assume "P c"
  then show ?thesis using None P_loop [of c "c\<lparr>ignoredMessages := ignoredMessages c + 1\<rparr>"]
    by (simp add: handleMessage_def streams_At_def)
qed

lemma loop_round_P: "P c \<Longrightarrow> P (snd (loop_round rt c))"
proof (rule loop_round_keeps [where Q = P])
  show "P c \<Longrightarrow> Conn_Read rt c = (res, c') \<Longrightarrow> P c'" for c res c'
    using P_loop [OF _ Conn_Read_frame(2,1,5,4)] by blast
qed (auto simp: idle_def intro: handleMessage_P P_loop)

lemma runHandleMessageLoop_P: "P c \<Longrightarrow> P (snd (runHandleMessageLoop rt c))"
proof (induction "length (csr_pending (cs_r (conn_in c)))" arbitrary: c rule: less_induct)
  case less
  obtain res c1 where r: "loop_round rt c = (res, c1)" by fastforce
  with loop_round_P [OF less.prems] have "P c1" by simp
  with less.hyps [OF round_consumes] r show ?case
    by (cases res) (simp_all add: loop_by_round [of rt c])
qed

lemma handleMessageLoop_P: "P c \<Longrightarrow> P (snd (handleMessageLoop rt c))"
  using runHandleMessageLoop_P [of c] by (auto simp: handleMessageLoop_def split: prod.split outcome.split)

text \<open>The server's part of setting up, from a connection without streams.\<close>

lemma Serve_P:
  assumes "P c"
    and "\<And>c' c1 s. P c' \<Longrightarrow> conn_streams c' = conn_streams c \<Longrightarrow> on_streams (streams_Create ControlStreamID) c' = (Ok s, c1) \<Longrightarrow>
      P (snd (ChangeState ControlStreamID streamStateServerNotConnected c1))"
    and "\<And>c c1 s. P c \<Longrightarrow> on_streams (streams_Create ControlStreamID) c = (Ok s, c1) \<Longrightarrow>
      fst (ChangeState ControlStreamID streamStateServerNotConnected c1) = Ok ()"
    and "\<And>c. P c \<Longrightarrow> P (snd (on_world (OnServe (userHandler rt)) c))"
  shows "P (snd (Serve rt env c))"
proof -
  obtain res h where hs: "HandshakeWithClient (SkipHandshakeVerification (rt_cfg rt)) env
      \<lparr>hs_r = reader (cs_r (conn_in c)), hs_w = cs_w (w_out (conn_w c))\<rparr> = (res, h)" by fastforce
  define c0 where "c0 = c\<lparr>conn_in := (conn_in c)\<lparr>cs_r := (cs_r (conn_in c))\<lparr>reader := hs_r h\<rparr>\<rparr>,
      conn_w := (conn_w c)\<lparr>w_out := (w_out (conn_w c))\<lparr>cs_w := hs_w h\<rparr>\<rparr>\<rparr>"
  have P0: "P c0" by (rule P_loop [OF assms(1)]) (simp_all add: c0_def)
  note unf = Serve_def hs prod.case Let_def c0_def [symmetric]
  show ?thesis
  proof (cases res)
    case (Ok u)
    obtain o1 c1 where cr: "on_streams (streams_Create ControlStreamID) c0 = (o1, c1)" by fastforce
    show ?thesis
    proof (cases o1)
      case (Ok s)
      obtain o2 c2 where ch: "ChangeState ControlStreamID streamStateServerNotConnected c1 = (o2, c2)" by fastforce
      have c2: "P c2" "o2 = Ok ()" using assms(2) [OF P0 _ cr [unfolded Ok]] assms(3) [OF P0 cr [unfolded Ok]] ch
        by (auto simp: c0_def)
      obtain o3 c3 where os: "on_world (OnServe (userHandler rt)) c2 = (o3, c3)" by fastforce
      have "P c3" using assms(4) [OF c2(1)] os by (metis snd_conv)
      then show ?thesis using \<open>res = Ok u\<close> cr Ok ch c2 os handleMessageLoop_P [of c3]
        unfolding unf by (cases o3) simp_all
    next
      case (Err e)
      then have "c1 = c0" using cr strms.create_Err by (auto simp: on_streams_def split: prod.splits)
      then show ?thesis using \<open>res = Ok u\<close> cr Err P0 unfolding unf by simp
    next
      case (Panic m)
      then show ?thesis using cr strms.create_total by (auto simp: on_streams_def split: prod.splits)
    qed
  qed (use P0 in \<open>simp_all add: unf\<close>)
qed

end


section \<open>The states of the streams\<close>

text \<open>
  Stream 0 is a control stream, before or after its connect; every other stream is a data stream. The
  installed handler is the one of the state, so no message meets the nil handler.
\<close>

definition states_of :: "u32 \<Rightarrow> streamState set" where
  "states_of sid =
     (if sid = ControlStreamID then {streamStateServerNotConnected, streamStateServerConnected}
      else {streamStateServerInactive, streamStateServerPublish, streamStateServerPlay})"

definition server_stream_ok :: "u32 \<Rightarrow> Stream \<Rightarrow> bool" where
  "server_stream_ok sid s \<longleftrightarrow> streamID s = sid \<and> sh_handler s = Some (sh_state s) \<and>
     sh_state s \<in> states_of sid"

definition server_ok :: "'u Conn \<Rightarrow> bool" where
  "server_ok c \<longleftrightarrow> streams_ok (conn_streams c) \<and> (\<forall>sid s. stream_at c sid = Some s \<longrightarrow> server_stream_ok sid s)"

lemma server_ok_cong: "conn_streams c' = conn_streams c \<Longrightarrow> server_ok c' = server_ok c"
  by (simp add: server_ok_def)

lemma server_ok_at:
  "server_ok c \<Longrightarrow> stream_at c sid = Some s \<Longrightarrow> server_stream_ok sid s"
  by (simp add: server_ok_def)

lemma server_ok_put:
  assumes "server_ok c" "stream_at c sid \<noteq> None" "server_stream_ok sid s"
  shows "server_ok (c\<lparr>conn_streams := putStream sid s (conn_streams c)\<rparr>)"
  using assms streams_ok_put [of "conn_streams c" sid s]
  by (auto simp: server_ok_def putStream_def server_stream_ok_def split: if_splits)

definition with_state :: "streamState \<Rightarrow> Stream \<Rightarrow> Stream" where
  "with_state st s = s\<lparr>sh_handler := Some st, sh_state := st\<rparr>"

definition settable :: "streamState \<Rightarrow> bool" where
  "settable st \<longleftrightarrow> st \<noteq> streamStateUnknown \<and> st \<noteq> streamStateClientConnected"

lemma ChangeState_at:
  "stream_at c sid = Some s \<Longrightarrow> settable st \<Longrightarrow>
   ChangeState sid st c = (Ok (), c\<lparr>conn_streams := putStream sid (with_state st s) (conn_streams c)\<rparr>)"
  by (cases st) (simp_all add: ChangeState_def with_state_def settable_def)

lemma server_ok_change:
  assumes "server_ok c" "stream_at c sid = Some s" "streamID s = sid" "settable st"
    and "st \<in> states_of sid"
  shows "server_ok (snd (ChangeState sid st c))"
  using server_ok_put [OF assms(1), of sid "with_state st s"] assms(2-5)
  by (simp add: ChangeState_at [OF assms(2,4)] server_stream_ok_def with_state_def)

lemma on_streams_Create:
  assumes "on_streams (streams_Create sid) c = (Ok s, c1)"
  shows "s = newStream sid" "c1 = c\<lparr>conn_streams := putStream sid (newStream sid) (conn_streams c)\<rparr>"
    "stream_at c sid = None"
  using assms by (auto simp: on_streams_def streams_Create_def putStream_def split: option.splits if_splits prod.splits)

lemma server_ok_create:
  assumes "server_ok c" "on_streams (streams_Create sid) c = (Ok s, c1)" "settable st"
    and "st \<in> states_of sid"
  shows "server_ok (snd (ChangeState sid st c1))" "fst (ChangeState sid st c1) = Ok ()"
proof -
  note c1 = on_streams_Create [OF assms(2)]
  have at: "stream_at c1 sid = Some (newStream sid)" by (simp add: c1(2) putStream_def)
  have "streams_ok (conn_streams c1)"
    using strms.create_inv [of "conn_streams c" sid] assms(1,2) by (auto simp: on_streams_def server_ok_def split: prod.splits)
  then have "streams_ok (putStream sid (with_state st (newStream sid)) (conn_streams c1))"
    using at by (intro streams_ok_put) (simp_all add: with_state_def newStream_def)
  moreover have "server_stream_ok sid (with_state st (newStream sid))"
    using assms(4) by (simp add: server_stream_ok_def with_state_def newStream_def)
  ultimately show "server_ok (snd (ChangeState sid st c1))"
    using assms(1) unfolding ChangeState_at [OF at assms(3)] server_ok_def by (simp add: c1(2) putStream_def)
  show "fst (ChangeState sid st c1) = Ok ()" by (simp add: ChangeState_at [OF at assms(3)])
qed

text \<open>The stream whose handler is connected is the control stream, which keeps its id from others.\<close>

lemma server_ok_spawn:
  assumes "server_ok c" "stream_at c sid = Some s" "sh_handler s = Some streamStateServerConnected"
    and "on_streams CreateIfAvailable c = (Ok new, c2)"
  shows "server_ok (snd (ChangeState (streamID new) streamStateServerInactive c2))"
proof -
  from assms(4) obtain ss where cr: "CreateIfAvailable (conn_streams c) = (Ok new, ss)" and c2: "c2 = c\<lparr>conn_streams := ss\<rparr>"
    by (auto simp: on_streams_def split: prod.splits)
  from cr obtain n where n: "streams_Create n (conn_streams c) = (Ok new, ss)"
    by (cases rule: CreateIfAvailable_cases) auto
  then have on: "on_streams (streams_Create n) c = (Ok new, c2)" by (simp add: on_streams_def c2)
  have "streamID new = n" using on_streams_Create(1) [OF on] by (simp add: newStream_def)
  moreover have "sid = ControlStreamID"
    using server_ok_at [OF assms(1,2)] assms(3) by (auto simp: server_stream_ok_def states_of_def split: if_splits)
  then have "n \<noteq> ControlStreamID" using on_streams_Create(3) [OF on] assms(2) by auto
  ultimately show ?thesis
    using server_ok_create(1) [OF assms(1) on, of streamStateServerInactive] by (simp add: settable_def states_of_def)
qed

lemma server_ok_world: "on_world f c = (res, c') \<Longrightarrow> server_ok c' = server_ok c"
  using on_world_streams server_ok_cong by blast

lemma server_ok_world_snd: "server_ok (snd (on_world f c)) = server_ok c"
  using server_ok_world [of f c] by (metis prod.collapse)

lemma server_ok_moved:
  assumes "server_ok c" "stream_at c sid = Some s" "on_world f c = (res, c1)" "io_step c1 c2" "settable st"
    and "st \<in> states_of sid"
  shows "server_ok (snd (ChangeState (streamID s) st c2))"
proof -
  have ss: "conn_streams c2 = conn_streams c" using on_world_streams [OF assms(3)] io_streams [OF assms(4)] by simp
  have "streamID s = sid" using server_ok_at [OF assms(1,2)] by (simp add: server_stream_ok_def)
  with ss assms show ?thesis by (intro server_ok_change [where s = s]) (simp_all add: server_ok_cong [of c2 c])
qed

interpretation states: loop_inv rt server_ok
proof (unfold_locales, goal_cases)
  case (1 c c')
  then show ?case using server_ok_cong [OF io_streams] by blast
next
  case (2 c ps)
  then show ?case by (simp add: server_ok_def)
next
  case (3 c sid s tt)
  then show ?case using server_ok_at [of c sid s] server_ok_put [of c sid "s\<lparr>trs := tt\<rparr>"]
    by (simp add: server_stream_ok_def)
next
  case (4 c t)
  have "streams_ok (snd (streams_Delete t (conn_streams c)))"
    using 4 strms.delete_inv [of "conn_streams c" t] by (simp add: server_ok_def)
  with 4 show ?case
    by (cases "stream_at c t") (auto simp: on_streams_def server_ok_def streams_Delete_def split: if_splits)
next
  case (8 c sid s ts cmd res c1 c2)
  then show ?case using server_ok_world [OF 8(4)] server_ok_moved [OF 8(1,2,4), of c2 streamStateServerConnected]
      server_ok_at [OF 8(1,2)]
    by (auto simp: settable_def server_stream_ok_def states_of_def split: if_splits)
next
  case (9 c sid s ts res c1 new c2)
  then show ?case using server_ok_world [OF 9(4)] server_ok_spawn [of c1 sid s new c2] on_world_streams [OF 9(4)] by auto
next
  case (11 c sid s ts name ty res c1 c2)
  then show ?case using server_ok_world [OF 11(4)] server_ok_moved [OF 11(1,2,4), of c2 streamStateServerPublish]
      server_ok_at [OF 11(1,2)]
    by (auto simp: settable_def server_stream_ok_def states_of_def split: if_splits)
next
  case (12 c sid s ts name start res c1 c2)
  then show ?case using server_ok_world [OF 12(4)] server_ok_moved [OF 12(1,2,4), of c2 streamStateServerPlay]
      server_ok_at [OF 12(1,2)]
    by (auto simp: settable_def server_stream_ok_def states_of_def split: if_splits)
next
  case (14 c c')
  then show ?case using server_ok_cong by blast
qed (simp_all add: server_ok_world_snd)

text \<open>
  Whatever a client sends to a server, and whatever the user's handler answers: at the end of
  \<open>Serve\<close> the stream table is consistent, stream 0 if it exists is a control stream, every other
  stream is a data stream, and each has the handler of its state.
\<close>

lemma serve_stream_states: "server_ok (snd (Serve rt env (newConn r w cfg usr)))"
proof (rule states.Serve_P)
  show "server_ok (newConn r w cfg usr)"
    by (simp add: server_ok_def newConn_def Let_def streams_ok_new) (simp add: newStreams_def)
qed (auto simp: server_ok_world_snd settable_def states_of_def intro: server_ok_create)

end
