(* ===== verification/SampleConn.thy ===== *)
theory SampleConn
  imports ServerInv
begin

text \<open>
  A connection on which writing works, for the witnesses: the scheduler has always sent what a chunk
  stream holds by the time the next message for it is written, and the AMF library encodes every
  value, to nothing, and takes every byte for an empty object.
\<close>

definition plainAmf :: amf0_lib where
  "plainAmf = sampleAmf\<lparr>amf_enc := \<lambda>v. (Ok (), []), amf_dec_any := \<lambda>bs. (Ok (AMap []), drop 1 bs)\<rparr>"

definition sampleTurn :: "int \<Rightarrow> chunk_out \<Rightarrow> chunk_out \<times> wait_case" where
  "sampleTurn csid out =
     (out\<lparr>cs_writers := map (\<lambda>(k, w). (k, w\<lparr>doneClosed := True, buf := []\<rparr>)) (cs_writers out)\<rparr>, WaitDone)"

definition sampleMs :: mapstructure where
  "sampleMs = \<lparr>ms_command = (\<lambda>_. Ok zeroConnectCommand),
     ms_properties = (\<lambda>_. Ok (ServerConnectResultProperties defaultResponsePreset)),
     ms_information = (\<lambda>_. Ok \<lparr>Level = ''status'', Code = NetConnectionConnectCodeSuccess, Description = [], Data = []\<rparr>)\<rparr>"

definition sampleConnCfg :: "'u ConnConfig" where
  "sampleConnCfg = ConnConfig_normalize \<lparr>cHandler = None, SkipHandshakeVerification = True,
     IgnoreMessagesOnNotExistStream = True, IgnoreMessagesOnNotExistStreamThreshold = 2,
     ReaderBufferSize = 0, WriterBufferSize = 0, ControlState = zeroConfig, RPreset = None\<rparr>"

definition sampleRt :: "unit runtime" where
  "sampleRt = \<lparr>rt_lib = plainAmf, rt_ms = sampleMs, rt_turn = sampleTurn, rt_idle = (\<lambda>out. out), rt_cfg = sampleConnCfg\<rparr>"

definition sampleConn :: "(u32 \<times> Stream) list \<Rightarrow> unit Conn" where
  "sampleConn ss =
     (let c = newConn (wire_of []) open_connection sampleConnCfg () in
      c\<lparr>conn_streams := (conn_streams c)\<lparr>strm_map := ss\<rparr>\<rparr>)"

text \<open>Writers that can take the next message.\<close>

definition open_out :: "chunk_out \<Rightarrow> bool" where
  "open_out out \<longleftrightarrow> distinct (map fst (cs_writers out)) \<and> fst ` set (cs_writers out) \<subseteq> {2, 3} \<and>
     (\<forall>k w. map_of (cs_writers out) k = Some w \<longrightarrow> lastErr w = None) \<and> cfgMaxChunkStreams (out_cfg out) = 0xffffffff"

lemma map_of_mapped: "map_of (map (\<lambda>(k, w). (k, f w)) t) k = map_option f (map_of t k)"
  by (induction t) auto

lemma open_out_turn: "open_out out \<Longrightarrow> open_out (fst (sampleTurn csid out))"
  by (auto simp: open_out_def sampleTurn_def map_of_mapped comp_def split_def image_image)

lemma open_out_put:
  "open_out out \<Longrightarrow> csid \<in> {2, 3} \<Longrightarrow> lastErr w = None \<Longrightarrow> open_out (putWriter csid w out)"
  by (auto simp: open_out_def putWriter_def fst_set_key intro!: distinct_set_key)

lemma open_out_get: "open_out out \<Longrightarrow> lastErr (getWriter csid out) = None"
  by (auto simp: open_out_def getWriter_def newWriter_def split: option.split)

lemma open_out_room: "open_out out \<Longrightarrow> int (length (cs_writers out)) < cfgMaxChunkStreams (out_cfg out)"
proof -
  assume o: "open_out out"
  then have "card (set (map fst (cs_writers out))) \<le> card {2, 3 :: int}"
    by (intro card_mono) (auto simp: open_out_def)
  moreover have "card (set (map fst (cs_writers out))) = length (cs_writers out)"
    using o distinct_card [of "map fst (cs_writers out)"] by (simp add: open_out_def)
  ultimately show ?thesis using o by (simp add: open_out_def)
qed

lemma open_out_cong:
  "cs_writers out' = cs_writers out \<Longrightarrow> out_cfg out' = out_cfg out \<Longrightarrow> open_out out' = open_out out"
  by (simp add: open_out_def)

lemma Write_open_out:
  assumes "open_out out" "csid \<in> {2, 3}" "\<And>w. fst (Encode lib m w) = Ok ()" "TypeID m = Ok tid"
  shows "\<exists>out'. Write lib csid ts \<lparr>StreamID = sid, Message = m\<rparr> WaitDone out = (Ok (), out') \<and> open_out out'"
proof -
  let ?w = "getWriter csid out"
  obtain out1 where p: "prepareChunkWriter csid out = (Ok ?w, out1)" "open_out out1"
  proof (cases "map_of (cs_writers out) csid")
    case None
    then have "getWriter csid out = newWriter csid" by (simp add: getWriter_def)
    then show thesis using that None open_out_room [OF assms(1)] open_out_put [OF assms(1,2), of "newWriter csid"]
      by (simp add: prepareChunkWriter_def newWriter_def)
  qed (use that assms(1) in \<open>simp add: prepareChunkWriter_def getWriter_def\<close>)
  let ?w1 = "?w\<lparr>doneClosed := False\<rparr>"
  have l: "lastErr ?w = None" by (rule open_out_get [OF assms(1)])
  let ?out2 = "putWriter csid ?w1 out1\<lparr>msgEnc := Some csid\<rparr>"
  have o2: "open_out ?out2" using open_out_put [OF p(2) assms(2), of ?w1] l open_out_cong [of ?out2 "putWriter csid ?w1 out1"] by simp
  have r: "Write_reset csid WaitDone out = (Ok (), ?out2)"
    using p l by (simp add: Write_reset_def NewChunkWriter_def wrap_err_def)
  have get: "getWriter csid ?out2 = ?w1" by (simp add: getWriter_def putWriter_def)
  let ?w3 = "?w1\<lparr>buf := snd (Encode lib m (buf ?w))\<rparr>"
  let ?out3 = "putWriter csid ?w3 ?out2"
  have e: "Write_encode lib m ?out2 = (Ok (), ?out3)"
    using get assms(3) by (simp add: Write_encode_def Let_def)
  have o3: "open_out ?out3" using open_out_put [OF o2 assms(2), of ?w3] l by simp
  obtain w4 where h: "Write_header csid ts \<lparr>StreamID = sid, Message = m\<rparr> ?out3 = (Ok (), putWriter csid w4 ?out3)" "lastErr w4 = None"
    using l assms(4) by (simp add: Write_header_def Let_def)
  have o4: "open_out (putWriter csid w4 ?out3)" by (rule open_out_put [OF o3 assms(2) h(2)])
  let ?out5 = "Sched csid (putWriter csid w4 ?out3)"
  have "open_out ?out5" unfolding Sched_def
    using open_out_put [OF _ assms(2), of "(putWriter csid w4 ?out3)\<lparr>sched_blocked := sched_blocked (putWriter csid w4 ?out3) @ [csid]\<rparr>"
        "w4\<lparr>newChunk := True\<rparr>"] o4 h(2) open_out_cong [of "(putWriter csid w4 ?out3)\<lparr>sched_blocked := sched_blocked (putWriter csid w4 ?out3) @ [csid]\<rparr>"]
    by simp
  moreover have "Write lib csid ts \<lparr>StreamID = sid, Message = m\<rparr> WaitDone out = (Ok (), ?out5)"
    using r e h(1) by (simp add: Write_def)
  ultimately show ?thesis by blast
qed

lemma turned_Stream_Write:
  assumes "rt_turn rt = sampleTurn" "open_out (w_out w)" "csid \<in> {2, 3}" "\<And>b. fst (Encode (rt_lib rt) m b) = Ok ()" "TypeID m = Ok tid"
  obtains w' where "Stream_Write rt sid csid ts m w = (Ok (), w')" "open_out (w_out w')" "w_usr w' = w_usr w"
proof -
  obtain out c where t: "sampleTurn csid (w_out w) = (out, c)" by fastforce
  then have "c = WaitDone" "open_out out" using open_out_turn [OF assms(2), of csid] by (simp_all add: sampleTurn_def)
  with Write_open_out [OF _ assms(3-5), of out ts sid] t assms(1) that show thesis
    by (fastforce simp: Stream_Write_def)
qed

lemma sample_Stream_Write:
  assumes "open_out (w_out w)" "csid \<in> {2, 3}" "\<And>b. fst (Encode plainAmf m b) = Ok ()" "TypeID m = Ok tid"
  obtains w' where "Stream_Write sampleRt sid csid ts m w = (Ok (), w')" "open_out (w_out w')" "w_usr w' = w_usr w"
proof -
  have rt: "rt_turn sampleRt = sampleTurn" "rt_lib sampleRt = plainAmf" by (simp_all add: sampleRt_def)
  show thesis
    by (rule turned_Stream_Write [OF rt(1) assms(1,2) _ assms(4), of sid ts]) (use assms(3) that in \<open>simp_all add: rt(2)\<close>)
qed

lemma turned_command:
  assumes "rt_turn rt = sampleTurn" "open_out (w_out w)" "csid \<in> {2, 3}" "EncodeBodyAnyValues (rt_lib rt) (Some body) [] = (Ok (), bs)"
    "\<And>b. fst (Encode (rt_lib rt) (CommandMessage name tid EncodingTypeAMF0 bs) b) = Ok ()" "encTy s = EncodingTypeAMF0"
  obtains w' where "writeCommandMessage rt s csid ts name tid body w = (Ok (), w')" "open_out (w_out w')"
proof -
  have ty: "TypeID (CommandMessage name tid EncodingTypeAMF0 bs) = Ok 20"
    by (simp add: EncodingTypeAMF0_def EncodingTypeAMF3_def)
  from turned_Stream_Write [OF assms(1-3,5) ty, of "streamID s" ts] obtain w' where
    "Stream_Write rt (streamID s) csid ts (CommandMessage name tid EncodingTypeAMF0 bs) w = (Ok (), w')" "open_out (w_out w')" by blast
  then show thesis using that assms(4,6)
    by (simp add: writeCommandMessage_def) (simp add: NewAMF_def EncodingTypeAMF0_def EncodingTypeAMF3_def)
qed

text \<open>The same connection with a library that keeps the laws.\<close>

definition amfRt :: "unit runtime" where
  "amfRt = sampleRt\<lparr>rt_lib := sampleAmf\<rparr>"

lemma amf_encode: "length name \<le> 0xffff \<Longrightarrow> fst (Encode sampleAmf (CommandMessage name tid EncodingTypeAMF0 bs) b) = Ok ()"
  by (simp add: encodeCommandMessage_def NewAMF_def EncodingTypeAMF0_def EncodingTypeAMF3_def amf_write_def sampleAmf_def)

lemma plain_encode: "fst (Encode plainAmf (CommandMessage name tid EncodingTypeAMF0 body) b) = Ok ()"
  by (simp add: encodeCommandMessage_def NewAMF_def EncodingTypeAMF0_def EncodingTypeAMF3_def amf_write_def plainAmf_def)

lemma plain_args: "encode_args plainAmf vs b = (Ok (), b)"
  by (induction vs arbitrary: b) (simp_all add: amf_write_def plainAmf_def)

lemma sample_command:
  assumes "open_out (w_out w)" "csid \<in> {2, 3}" "is_Ok (ToArgs body)" "encTy s = EncodingTypeAMF0"
  obtains w' where "writeCommandMessage sampleRt s csid ts name tid body w = (Ok (), w')" "open_out (w_out w')" "w_usr w' = w_usr w"
proof -
  obtain vs where vs: "ToArgs body = Ok vs" using assms(3) by (cases "ToArgs body") auto
  have ty: "TypeID (CommandMessage name tid EncodingTypeAMF0 []) = Ok 20"
    by (simp add: EncodingTypeAMF0_def EncodingTypeAMF3_def)
  have lib: "rt_lib sampleRt = plainAmf" by (simp add: sampleRt_def)
  from sample_Stream_Write [OF assms(1,2) plain_encode ty, of "streamID s" ts] obtain w' where
    "Stream_Write sampleRt (streamID s) csid ts (CommandMessage name tid EncodingTypeAMF0 []) w = (Ok (), w')"
    "open_out (w_out w')" "w_usr w' = w_usr w" by blast
  then show thesis using that assms(4)
    by (simp add: writeCommandMessage_def lib EncodeBodyAnyValues_def vs plain_args)
      (simp add: NewAMF_def EncodingTypeAMF0_def EncodingTypeAMF3_def)
qed

lemma sampleConn_open: "open_out (w_out (conn_w (sampleConn ss)))"
  by (simp add: open_out_def sampleConn_def newConn_def Let_def NewChunkStreamer_out_def configOf_def sampleConnCfg_def
      ConnConfig_normalize_def normalize_def zeroConfig_def)

lemma sampleConn_streams [simp]: "strm_map (conn_streams (sampleConn ss)) = ss"
  by (simp add: sampleConn_def Let_def)

end
