(* ===== verification/RelayServe.thy ===== *)
theory RelayServe
  imports RelayProps SampleConn
begin

text \<open>
  The relay's handler on a connection served by the library: the two together keep a publisher behind every
  stream that publishes, so that the media callbacks, which do not look, never find a nil one.
\<close>

definition relay_runtime ::
  "('a, 'v, 's) relay_env \<Rightarrow> nat \<Rightarrow> ('a, 'v, 's) relay runtime \<Rightarrow> ('a, 'v, 's) relay runtime" where
  "relay_runtime E h rt = rt\<lparr>rt_cfg := (rt_cfg rt)\<lparr>cHandler := Some (relayHandler E h)\<rparr>\<rparr>"

lemma userHandler_relay [simp]: "userHandler (relay_runtime E h rt) = relayHandler E h"
  by (simp add: userHandler_def relay_runtime_def)

section \<open>The publisher of a connection is kept\<close>

definition publishes :: "nat \<Rightarrow> ('a, 'v, 's) relay \<Rightarrow> bool" where
  "publishes h r \<longleftrightarrow> hd_pub (r_handlers r h) \<noteq> None"

lemma onEvent_handlers: "r_handlers (snd (onEvent E i flv r)) = r_handlers r"
  by (simp add: onEvent_def onEventCallback_def Let_def split: option.split outcome.split prod.split)

lemma each_sub_handlers:
  "(\<And>i r. r_handlers (snd (f i r)) = r_handlers r) \<Longrightarrow> r_handlers (snd (each_sub f is r)) = r_handlers r"
proof (induction "is" arbitrary: r)
  case (Cons i "is")
  obtain res r1 where f: "f i r = (res, r1)" by fastforce
  with Cons.prems [of i r] Cons.IH [of r1] Cons.prems show ?case by (cases res) simp_all
qed simp

lemma video_event_handlers: "r_handlers (snd (video_event E p flv i r)) = r_handlers r"
proof -
  have opt: "r_handlers (snd (opt_event E i t r)) = r_handlers r" for t r
    by (simp add: opt_event_def onEvent_handlers split: option.split)
  show ?thesis
  proof (cases "initialized (r_subs r ! i)")
    case False
    obtain o1 r1 where e1: "opt_event E i (avcSeqHeader (r_pubs r ! p)) r = (o1, r1)" by fastforce
    obtain o2 r2 where e2: "opt_event E i (lastKeyFrame (r_pubs r1 ! p)) r1 = (o2, r2)" by fastforce
    from opt [of _ r] opt [of _ r1] have "r_handlers r1 = r_handlers r" "r_handlers r2 = r_handlers r1"
      using e1 e2 by (metis snd_conv)+
    with False e1 e2 show ?thesis by (cases o1; cases o2) (simp_all add: video_event_def)
  qed (simp add: video_event_def onEvent_handlers)
qed

lemma Publish_handlers: "r_handlers (snd (Publish_tag E pub flv r)) = r_handlers r"
  by (cases pub)
    (simp_all add: Publish_tag_def Let_def each_sub_handlers onEvent_handlers video_event_handlers split: tag_data.split)

lemma relay_keeps_publisher:
  "publishes h r \<Longrightarrow> publishes h (snd (relay_OnPublish h2 name r))"
  "publishes h r \<Longrightarrow> publishes h (snd (relay_OnPlay h2 strm name r))"
  "publishes h r \<Longrightarrow> publishes h (snd (relay_OnSetDataFrame E h2 ts payload r))"
  "publishes h r \<Longrightarrow> publishes h (snd (relay_OnAudio E h2 ts payload r))"
  "publishes h r \<Longrightarrow> publishes h (snd (relay_OnVideo E h2 ts payload r))"
  by (auto simp: publishes_def relay_OnPublish_def relay_OnPlay_def relay_OnSetDataFrame_def relay_OnAudio_def relay_OnVideo_def
      NewPubsub_def Pubsub_Pub_def GetPubsub_def Pubsub_Sub_def set_handler_def Let_def Publish_handlers
      split: option.split outcome.split prod.split)

lemma relay_keeps_ok:
  "relay_ok r \<Longrightarrow> encodes E \<Longrightarrow> relay_ok (snd (relay_OnSetDataFrame E h ts payload r))"
  "relay_ok r \<Longrightarrow> encodes E \<Longrightarrow> relay_ok (snd (relay_OnAudio E h ts payload r))"
  "relay_ok r \<Longrightarrow> encodes E \<Longrightarrow> relay_ok (snd (relay_OnVideo E h ts payload r))"
  using relay_do_ok [of r E "EvScript h ts payload"] relay_do_ok [of r E "EvAudio h ts payload"] relay_do_ok [of r E "EvVideo h ts payload"]
  by simp_all

section \<open>Both kept by the server\<close>

definition serving :: "('a, 'v, 's) relay_env \<Rightarrow> nat \<Rightarrow> ('a, 'v, 's) relay Conn \<Rightarrow> bool" where
  "serving E h c \<longleftrightarrow> server_ok c \<and> (encodes E \<longrightarrow> relay_ok (w_usr (conn_w c))) \<and>
     (\<forall>sid s. stream_at c sid = Some s \<longrightarrow> sh_handler s = Some streamStateServerPublish \<longrightarrow> publishes h (w_usr (conn_w c)))"

lemma serving_cong:
  "serving E h c \<Longrightarrow> conn_streams c' = conn_streams c \<Longrightarrow> w_usr (conn_w c') = w_usr (conn_w c) \<Longrightarrow> serving E h c'"
  using server_ok_cong [of c' c] by (simp add: serving_def)

lemma serving_callback:
  assumes "serving E h c" "on_world (on_relay f) c = (res, c1)"
    and "\<And>r. encodes E \<Longrightarrow> relay_ok r \<Longrightarrow> relay_ok (snd (f r))" "\<And>r. publishes h r \<Longrightarrow> publishes h (snd (f r))"
  shows "serving E h c1" "conn_streams c1 = conn_streams c" "w_usr (conn_w c1) = snd (f (w_usr (conn_w c)))"
    "res = fst (f (w_usr (conn_w c)))"
proof -
  show u: "w_usr (conn_w c1) = snd (f (w_usr (conn_w c)))" and ss: "conn_streams c1 = conn_streams c"
    and "res = fst (f (w_usr (conn_w c)))"
    using assms(2) by (auto simp: on_world_def on_relay_def split: prod.splits)
  show "serving E h c1" using assms(1,3,4) server_ok_cong [OF ss] by (auto simp: serving_def u ss)
qed

lemma serving_callback_snd:
  assumes "serving E h c" "\<And>r. encodes E \<Longrightarrow> relay_ok r \<Longrightarrow> relay_ok (snd (f r))" "\<And>r. publishes h r \<Longrightarrow> publishes h (snd (f r))"
  shows "serving E h (snd (on_world (on_relay f) c))"
  using serving_callback(1) [OF assms(1) prod.collapse [symmetric] assms(2,3)] .

lemma serving_default: "serving E h c \<Longrightarrow> serving E h (snd (on_world (\<lambda>w. (Ok (), w)) c))"
  by (rule serving_cong [of E h c]) (simp_all add: on_world_def)

lemma serving_changed:
  assumes "serving E h c" "server_ok (snd (ChangeState sid st c))" "st = streamStateServerPublish \<longrightarrow> publishes h (w_usr (conn_w c))"
    and "settable st"
  shows "serving E h (snd (ChangeState sid st c))"
proof (cases "stream_at c sid")
  case None
  then show ?thesis using assms(1) by (simp add: ChangeState_def)
next
  case (Some s)
  then show ?thesis using assms unfolding ChangeState_at [OF Some assms(4)]
    by (auto simp: serving_def putStream_def with_state_def)
qed

lemma serving_created:
  assumes "serving E h c" "on_streams (streams_Create sid) c = (Ok s, c1)"
    "server_ok (snd (ChangeState sid st c1))" "settable st" "st \<noteq> streamStateServerPublish"
  shows "serving E h (snd (ChangeState sid st c1))"
proof -
  note c1 = on_streams_Create [OF assms(2)]
  have at: "stream_at c1 sid = Some (newStream sid)" by (simp add: c1(2) putStream_def)
  show ?thesis using assms(1,3,5) unfolding ChangeState_at [OF at assms(4)]
    by (auto simp: serving_def c1(2) putStream_def with_state_def split: if_splits)
qed

interpretation relay_serving: loop_inv "relay_runtime E h rt" "serving E h"
proof (unfold_locales, goal_cases)
  case (1 c c')
  then show ?case by (intro serving_cong [OF 1(1)]) (simp_all add: io_step_def)
next
  case (2 c ps)
  then show ?case by (intro serving_cong [OF 2]) simp_all
next
  case (3 c sid s tt)
  have id: "streamID s = sid" using 3 server_ok_at [of c sid s] by (simp add: serving_def server_stream_ok_def)
  have "server_ok (c\<lparr>conn_streams := putStream (streamID s) (s\<lparr>trs := tt\<rparr>) (conn_streams c)\<rparr>)"
    using 3 states.P_reply [of c sid s tt] by (simp add: serving_def)
  with 3 id show ?case by (auto simp: serving_def putStream_def)
next
  case (4 c t)
  have "server_ok (snd (on_streams (streams_Delete t) c))" using 4 states.P_delete [of c t] by (simp add: serving_def)
  with 4 show ?case
    by (cases "stream_at c t") (auto simp: on_streams_def serving_def streams_Delete_def server_ok_def split: if_splits)
next
  case (8 c sid s ts cmd res c1 c2)
  have c1: "c1 = c" "res = Ok ()" using 8(4) by (auto simp: relayHandler_def DefaultHandler_def Let_def on_world_def)
  show ?case
  proof (intro conjI impI)
    show "serving E h c1" using 8(1) c1 by simp
    assume io: "io_step c1 c2"
    have "serving E h c2" using serving_cong [OF 8(1)] io c1 by (simp add: io_step_def)
    moreover have "server_ok (snd (ChangeState (streamID s) streamStateServerConnected c2))"
      using states.P_connect [OF _ 8(2-4), of c2] 8(1) c1 io by (simp add: serving_def)
    ultimately show "serving E h (snd (ChangeState (streamID s) streamStateServerConnected c2))"
      by (intro serving_changed) (simp_all add: settable_def)
  qed
next
  case (9 c sid s ts res c1 new c2)
  have c1: "c1 = c" "res = Ok ()" using 9(4) by (auto simp: relayHandler_def DefaultHandler_def Let_def on_world_def)
  show ?case
  proof (intro conjI impI)
    show "serving E h c1" using 9(1) c1 by simp
    assume cr: "on_streams CreateIfAvailable c1 = (Ok new, c2)"
    then obtain n ss where n: "streams_Create n (conn_streams c) = (Ok new, ss)" and c2: "c2 = c\<lparr>conn_streams := ss\<rparr>"
      by (auto simp: c1 on_streams_def elim: CreateIfAvailable_cases split: prod.splits)
    then have on: "on_streams (streams_Create n) c = (Ok new, c2)" by (simp add: on_streams_def)
    have "streamID new = n" using on_streams_Create(1) [OF on] by (simp add: newStream_def)
    moreover have "server_ok (snd (ChangeState (streamID new) streamStateServerInactive c2))"
      using server_ok_spawn [OF _ 9(2,3) cr [unfolded c1]] 9(1) by (simp add: serving_def)
    ultimately show "serving E h (snd (ChangeState (streamID new) streamStateServerInactive c2))"
      using serving_created [OF 9(1) on] by (simp add: settable_def)
  qed
next
  case (10 c sid s ts target name)
  then show ?case by (simp add: relayHandler_def DefaultHandler_def Let_def serving_default)
next
  case (11 c sid s ts name ty res c1 c2)
  have cb: "on_world (on_relay (relay_OnPublish h name)) c = (res, c1)" using 11(4) by (simp add: relayHandler_def)
  have ok: "\<And>r. encodes E \<Longrightarrow> relay_ok r \<Longrightarrow> relay_ok (snd (relay_OnPublish h name r))" by (simp add: OnPublish_ok)
  note s1 = serving_callback [OF 11(1) cb ok relay_keeps_publisher(1)]
  have "serving E h (snd (ChangeState (streamID s) streamStateServerPublish c2))" if "res = Ok ()" "io_step c1 c2"
  proof (rule serving_changed)
    show "serving E h c2" using serving_cong [OF s1(1)] that(2) by (simp add: io_step_def)
    note granted = that(1)
    obtain r where r: "relay_OnPublish h name (w_usr (conn_w c)) = (Ok (), r)"
      using s1(4) granted by (cases "relay_OnPublish h name (w_usr (conn_w c))") simp
    with s1(3) that(2) registered(2) [OF r] show "streamStateServerPublish = streamStateServerPublish \<longrightarrow> publishes h (w_usr (conn_w c2))"
      by (simp add: publishes_def io_step_def)
    show "server_ok (snd (ChangeState (streamID s) streamStateServerPublish c2))"
      using states.P_publish [OF _ 11(2-4), of c2] 11(1) that by (simp add: serving_def)
  qed (simp add: settable_def)
  with s1(1) show ?case by blast
next
  case (12 c sid s ts name start res c1 c2)
  have cb: "on_world (on_relay (relay_OnPlay h (streamID s) name)) c = (res, c1)" using 12(4) by (simp add: relayHandler_def)
  have ok: "\<And>r. encodes E \<Longrightarrow> relay_ok r \<Longrightarrow> relay_ok (snd (relay_OnPlay h (streamID s) name r))" by (simp add: OnPlay_ok)
  note s1 = serving_callback [OF 12(1) cb ok relay_keeps_publisher(2)]
  have "serving E h (snd (ChangeState (streamID s) streamStateServerPlay c2))" if "res = Ok ()" "io_step c1 c2"
  proof (rule serving_changed)
    show "serving E h c2" using serving_cong [OF s1(1)] that(2) by (simp add: io_step_def)
    show "server_ok (snd (ChangeState (streamID s) streamStateServerPlay c2))"
      using states.P_play [OF _ 12(2-4), of c2] 12(1) that by (simp add: serving_def)
  qed (simp_all add: settable_def)
  with s1(1) show ?case by blast
next
  case (13 c sid s ts payload)
  then show ?case by (simp add: relayHandler_def serving_callback_snd relay_keeps_ok relay_keeps_publisher)
next
  case (14 c c')
  then show ?case using serving_cong by blast
qed (simp_all add: relayHandler_def DefaultHandler_def Let_def serving_default)

lemma relay_Serve:
  assumes "encodes E \<Longrightarrow> relay_ok r"
  shows "serving E h (snd (Serve (relay_runtime E h rt) env (newConn tr w cfg r)))"
proof (rule relay_serving.Serve_P)
  show "serving E h (newConn tr w cfg r)"
    using assms by (simp add: serving_def server_ok_def newConn_def Let_def streams_ok_new) (simp add: newStreams_def)
next
  fix c c1 :: "('a, 'b, 'c) relay Conn" and s
  assume c: "serving E h c" "on_streams (streams_Create ControlStreamID) c = (Ok s, c1)"
  have s: "settable streamStateServerNotConnected" "streamStateServerNotConnected \<in> states_of ControlStreamID"
    by (simp_all add: settable_def states_of_def)
  show "serving E h (snd (ChangeState ControlStreamID streamStateServerNotConnected c1))"
    using serving_created [OF c server_ok_create(1) [OF _ c(2) s] s(1)] c(1) by (simp add: serving_def)
  show "fst (ChangeState ControlStreamID streamStateServerNotConnected c1) = Ok ()"
    using server_ok_create(2) [OF _ c(2) s] c(1) by (simp add: serving_def)
qed (simp add: relayHandler_def DefaultHandler_def Let_def serving_default)

text \<open>
  A connection of the relay demo served by the library: at the end of \<open>Serve\<close>, whatever its client sent, the
  relay's references are valid and every stream that publishes has a publisher behind it, so that audio on
  such a stream is relayed, without a nil publisher, whenever it can be decoded.
\<close>

lemma relay_served:
  assumes "relay_reach E r" "encodes E"
  shows "(let c = snd (Serve (relay_runtime E h rt) env (newConn tr w cfg r)); r' = w_usr (conn_w c) in
    relay_ok r' \<and>
    (\<forall>sid s. stream_at c sid = Some s \<longrightarrow> sh_state s = streamStateServerPublish \<longrightarrow>
      (\<exists>p. hd_pub (r_handlers r' h) = Some p) \<and>
      (\<forall>ts payload d bs. DecodeAudioData E payload = Ok (d, bs) \<longrightarrow> fst (relay_OnAudio E h ts payload r') = Ok ())))"
proof -
  define c where "c = snd (Serve (relay_runtime E h rt) env (newConn tr w cfg r))"
  have s: "serving E h c" unfolding c_def by (rule relay_Serve) (rule relay_reach_ok [OF assms])
  then have ok: "relay_ok (w_usr (conn_w c))" "server_ok c" using assms(2) by (simp_all add: serving_def)
  have pub: "\<exists>p. hd_pub (r_handlers (w_usr (conn_w c)) h) = Some p" if "stream_at c sid = Some s" "sh_state s = streamStateServerPublish" for sid s
    using server_ok_at [OF ok(2) that(1)] that \<open>serving E h c\<close> by (auto simp: serving_def server_stream_ok_def publishes_def)
  have "fst (relay_OnAudio E h ts payload (w_usr (conn_w c))) = Ok ()"
    if "hd_pub (r_handlers (w_usr (conn_w c)) h) = Some p" "DecodeAudioData E payload = Ok (d, bs)" for p ts payload d bs
    using Publish_fed [OF ok(1) assms(2) relay_ok_pub [OF ok(1) that(1)]] that by (simp add: relay_OnAudio_def dropped_def)
  with ok(1) pub show ?thesis unfolding Let_def c_def [symmetric] by blast
qed

lemma relay_served_witness:
  "relay_ok (w_usr (conn_w (snd (Serve (relay_runtime plainFlv 3 \<lparr>rt_lib = plainAmf, rt_ms = sampleMs, rt_turn = sampleTurn,
      rt_idle = (\<lambda>out. out), rt_cfg = sampleConnCfg\<rparr>) (sampleEnv 5) (newConn (wire_of []) open_connection sampleConnCfg sampleRoom)))))"
  using relay_served [OF sampleRoom_reach plainFlv_encodes] by (simp add: Let_def)

end
