(* ===== verification/CallbackOrder.thy ===== *)
theory CallbackOrder
  imports ServerInv
begin

text \<open>
  The order of the user's callbacks on a server connection. A handler is wrapped so that every call
  of it is recorded with whether it succeeded; the wrapper runs the handler and changes nothing else.
\<close>

section \<open>Recording a handler\<close>

datatype callback_event =
    CbServe
  | CbConnect
  | CbCreateStream
  | CbReleaseStream
  | CbDeleteStream
  | CbPublish u32
  | CbPlay u32
  | CbFCPublish
  | CbFCUnpublish
  | CbSetDataFrame
  | CbAudio
  | CbVideo
  | CbUnknown
  | CbClose

type_synonym trace = "(callback_event \<times> bool) list"

definition record_cb :: "callback_event \<Rightarrow> 'u callback \<Rightarrow> ('u \<times> trace) callback" where
  "record_cb ev f w =
     (case f \<lparr>w_out = w_out w, w_usr = fst (w_usr w), w_http = w_http w, w_log = w_log w\<rparr> of
        (res, v) \<Rightarrow>
          (res, \<lparr>w_out = w_out v, w_usr = (w_usr v, snd (w_usr w) @ [(ev, res = Ok ())]),
                 w_http = w_http v, w_log = w_log v\<rparr>))"

definition recording :: "'u Handler \<Rightarrow> ('u \<times> trace) Handler" where
  "recording h =
     \<lparr>OnServe = record_cb CbServe (OnServe h),
      OnConnect = \<lambda>ts cmd. record_cb CbConnect (OnConnect h ts cmd),
      OnCreateStream = \<lambda>ts. record_cb CbCreateStream (OnCreateStream h ts),
      OnReleaseStream = \<lambda>ts name. record_cb CbReleaseStream (OnReleaseStream h ts name),
      OnDeleteStream = \<lambda>ts sid. record_cb CbDeleteStream (OnDeleteStream h ts sid),
      OnPublish = \<lambda>sid ts name ty. record_cb (CbPublish sid) (OnPublish h sid ts name ty),
      OnPlay = \<lambda>sid ts name start. record_cb (CbPlay sid) (OnPlay h sid ts name start),
      OnFCPublish = \<lambda>ts name. record_cb CbFCPublish (OnFCPublish h ts name),
      OnFCUnpublish = \<lambda>ts name. record_cb CbFCUnpublish (OnFCUnpublish h ts name),
      OnSetDataFrame = \<lambda>ts payload. record_cb CbSetDataFrame (OnSetDataFrame h ts payload),
      OnAudio = \<lambda>ts payload. record_cb CbAudio (OnAudio h ts payload),
      OnVideo = \<lambda>ts payload. record_cb CbVideo (OnVideo h ts payload),
      OnUnknownMessage = \<lambda>ts m. record_cb CbUnknown (OnUnknownMessage h ts m),
      OnUnknownCommandMessage = \<lambda>ts m. record_cb CbUnknown (OnUnknownCommandMessage h ts m),
      OnUnknownDataMessage = \<lambda>ts m. record_cb CbUnknown (OnUnknownDataMessage h ts m),
      OnClose = record_cb CbClose (OnClose h)\<rparr>"

definition with_handler :: "'u Handler \<Rightarrow> ('u \<times> trace) runtime \<Rightarrow> ('u \<times> trace) runtime" where
  "with_handler h rt = rt\<lparr>rt_cfg := (rt_cfg rt)\<lparr>cHandler := Some (recording h)\<rparr>\<rparr>"

definition trace_of :: "('u \<times> trace) Conn \<Rightarrow> trace" where
  "trace_of c = snd (w_usr (conn_w c))"

lemma userHandler_with [simp]: "userHandler (with_handler h rt) = recording h"
  by (simp add: userHandler_def with_handler_def)

section \<open>The order\<close>

text \<open>Which callbacks must have succeeded before one may be called.\<close>

fun allowed :: "trace \<Rightarrow> callback_event \<Rightarrow> bool" where
  "allowed pre CbCreateStream = ((CbConnect, True) \<in> set pre)"
| "allowed pre CbReleaseStream = ((CbConnect, True) \<in> set pre)"
| "allowed pre CbDeleteStream = ((CbConnect, True) \<in> set pre)"
| "allowed pre CbFCPublish = ((CbConnect, True) \<in> set pre)"
| "allowed pre CbFCUnpublish = ((CbConnect, True) \<in> set pre)"
| "allowed pre (CbPublish sid) = ((CbConnect, True) \<in> set pre \<and> (CbCreateStream, True) \<in> set pre \<and> sid \<noteq> 0)"
| "allowed pre (CbPlay sid) = ((CbConnect, True) \<in> set pre \<and> (CbCreateStream, True) \<in> set pre \<and> sid \<noteq> 0)"
| "allowed pre CbSetDataFrame = (\<exists>e \<in> set pre. case e of (CbPublish sid, ok) \<Rightarrow> ok | _ \<Rightarrow> False)"
| "allowed pre CbAudio = (\<exists>e \<in> set pre. case e of (CbPublish sid, ok) \<Rightarrow> ok | _ \<Rightarrow> False)"
| "allowed pre CbVideo = (\<exists>e \<in> set pre. case e of (CbPublish sid, ok) \<Rightarrow> ok | _ \<Rightarrow> False)"
| "allowed pre _ = True"

fun ordered :: "trace \<Rightarrow> trace \<Rightarrow> bool" where
  "ordered pre [] = True"
| "ordered pre ((ev, ok) # post) = (allowed pre ev \<and> ordered (pre @ [(ev, ok)]) post)"

lemma ordered_snoc: "ordered pre (tr @ [(ev, ok)]) \<longleftrightarrow> ordered pre tr \<and> allowed (pre @ tr) ev"
  by (induction pre tr rule: ordered.induct) auto

text \<open>What a state says about the callbacks so far.\<close>

fun earned :: "trace \<Rightarrow> u32 \<Rightarrow> streamState \<Rightarrow> bool" where
  "earned tr sid streamStateServerConnected = ((CbConnect, True) \<in> set tr)"
| "earned tr sid streamStateServerInactive = ((CbConnect, True) \<in> set tr \<and> (CbCreateStream, True) \<in> set tr)"
| "earned tr sid streamStateServerPublish = ((CbPublish sid, True) \<in> set tr)"
| "earned tr sid _ = True"

lemma earned_more: "earned tr sid st \<Longrightarrow> earned (tr @ tr2) sid st"
  by (cases st) auto

definition order_ok :: "('u \<times> trace) Conn \<Rightarrow> bool" where
  "order_ok c \<longleftrightarrow> server_ok c \<and> ordered [] (trace_of c) \<and>
     (\<forall>sid s. stream_at c sid = Some s \<longrightarrow> earned (trace_of c) sid (sh_state s))"

lemma order_ok_cong:
  "conn_streams c' = conn_streams c \<Longrightarrow> w_usr (conn_w c') = w_usr (conn_w c) \<Longrightarrow> order_ok c' = order_ok c"
  using server_ok_cong [of c' c] by (simp add: order_ok_def trace_of_def)

lemma recorded:
  assumes "on_world (record_cb ev f) c = (res, c1)"
  shows "trace_of c1 = trace_of c @ [(ev, res = Ok ())]" "conn_streams c1 = conn_streams c"
  using assms by (auto simp: on_world_def record_cb_def trace_of_def split: prod.splits)

lemma order_event:
  assumes "order_ok c" "allowed (trace_of c) ev" "on_world (record_cb ev f) c = (res, c1)"
  shows "order_ok c1"
  using assms recorded [OF assms(3)] server_ok_world [OF assms(3)]
  by (auto simp: order_ok_def ordered_snoc intro: earned_more)

lemma order_event_snd: "order_ok c \<Longrightarrow> allowed (trace_of c) ev \<Longrightarrow> order_ok (snd (on_world (record_cb ev f) c))"
  using order_event [of c ev f] by (metis prod.collapse)

lemma order_io: "order_ok c \<Longrightarrow> io_step c c' \<Longrightarrow> order_ok c'"
  using order_ok_cong [of c' c] by (simp add: io_step_def)

lemma order_change:
  assumes "order_ok c" "stream_at c sid = Some s" "settable st" "earned (trace_of c) sid st" "st \<in> states_of sid"
  shows "order_ok (snd (ChangeState sid st c))"
proof -
  have "server_ok (snd (ChangeState sid st c))"
    using assms server_ok_at [of c sid s] by (intro server_ok_change) (auto simp: order_ok_def server_stream_ok_def)
  with assms show ?thesis
    by (auto simp: ChangeState_at [OF assms(2,3)] order_ok_def trace_of_def putStream_def with_state_def)
qed

text \<open>A change of state after its callback, which gave the state's reason.\<close>

lemma order_moved:
  assumes "order_ok c" "stream_at c sid = Some s" "on_world (record_cb ev f) c = (Ok (), c1)" "allowed (trace_of c) ev"
    and "io_step c1 c2" "settable st" "st \<in> states_of sid" "\<And>tr. earned (tr @ [(ev, True)]) sid st"
  shows "order_ok (snd (ChangeState (streamID s) st c2))"
proof -
  have id: "streamID s = sid" using server_ok_at [of c sid s] assms(1,2) by (simp add: order_ok_def server_stream_ok_def)
  have o2: "order_ok c2" using order_io [OF order_event [OF assms(1,4,3)] assms(5)] .
  have "trace_of c2 = trace_of c @ [(ev, True)]" "conn_streams c2 = conn_streams c"
    using recorded [OF assms(3)] assms(5) by (simp_all add: trace_of_def io_step_def)
  then show ?thesis unfolding id using assms(2,6-8) by (intro order_change [OF o2]) simp_all
qed

lemma order_at:
  assumes "order_ok c" "stream_at c sid = Some s" "sh_handler s = Some st"
  shows "earned (trace_of c) sid st" "st \<in> states_of sid" "streamID s = sid"
  using assms server_ok_at [of c sid s] by (auto simp: order_ok_def server_stream_ok_def)

lemma order_spawn:
  assumes "order_ok c" "stream_at c sid = Some s" "sh_handler s = Some streamStateServerConnected"
    and "on_world (record_cb CbCreateStream f) c = (Ok (), c1)" "on_streams CreateIfAvailable c1 = (Ok new, c2)"
  shows "order_ok (snd (ChangeState (streamID new) streamStateServerInactive c2))"
proof -
  let ?st = streamStateServerInactive
  have conn: "(CbConnect, True) \<in> set (trace_of c)" using order_at(1) [OF assms(1-3)] by simp
  note rec = recorded [OF assms(4)]
  have o1: "order_ok c1" by (rule order_event [OF assms(1) _ assms(4)]) (simp add: conn)
  have so: "server_ok (snd (ChangeState (streamID new) ?st c2))"
    using o1 assms(2,3,5) rec(2) by (intro server_ok_spawn [of c1 sid s new]) (simp_all add: order_ok_def)
  from assms(5) obtain ss where cr: "CreateIfAvailable (conn_streams c1) = (Ok new, ss)" and c2: "c2 = c1\<lparr>conn_streams := ss\<rparr>"
    by (auto simp: on_streams_def split: prod.splits)
  from cr obtain n where "streams_Create n (conn_streams c1) = (Ok new, ss)"
    by (cases rule: CreateIfAvailable_cases) auto
  then have on: "on_streams (streams_Create n) c1 = (Ok new, c2)" by (simp add: on_streams_def c2)
  note c2' = on_streams_Create [OF on]
  have "streamID new = n" using c2'(1) by (simp add: newStream_def)
  moreover have "stream_at c2 n = Some (newStream n)" by (simp add: c2'(2) putStream_def)
  note at = ChangeState_at [OF this, of ?st]
  ultimately show ?thesis using so o1 conn rec(1)
    by (auto simp: at settable_def order_ok_def trace_of_def c2'(2) putStream_def with_state_def)
qed

interpretation order: loop_inv "with_handler h rt" order_ok
proof (unfold_locales, goal_cases)
  case (1 c c')
  then show ?case by (rule order_io)
next
  case (2 c ps)
  then show ?case by (simp add: order_ok_def trace_of_def server_ok_def)
next
  case (3 c sid s tt)
  have id: "streamID s = sid" using 3 server_ok_at [of c sid s] by (simp add: order_ok_def server_stream_ok_def)
  have "server_ok (c\<lparr>conn_streams := putStream (streamID s) (s\<lparr>trs := tt\<rparr>) (conn_streams c)\<rparr>)"
    using 3 states.P_reply [of c sid s tt] by (simp add: order_ok_def)
  with 3 id show ?case by (auto simp: order_ok_def trace_of_def putStream_def)
next
  case (4 c t)
  have "server_ok (snd (on_streams (streams_Delete t) c))" using 4 states.P_delete [of c t] by (simp add: order_ok_def)
  with 4 show ?case
    by (cases "stream_at c t")
      (auto simp: on_streams_def order_ok_def trace_of_def streams_Delete_def server_ok_def split: if_splits)
next
  case (8 c sid s ts cmd res c1 c2)
  note cb = 8(4) [unfolded userHandler_with recording_def Handler.simps]
  show ?case using order_event [OF 8(1) _ cb] order_moved [OF 8(1,2), of CbConnect _ c1 c2 streamStateServerConnected] cb
      order_at(2) [OF 8(1-3)] by (auto simp: settable_def states_of_def split: if_splits)
next
  case (9 c sid s ts res c1 new c2)
  note cb = 9(4) [unfolded userHandler_with recording_def Handler.simps]
  show ?case using order_event [OF 9(1) _ cb] order_spawn [OF 9(1-3), of _ c1 new c2] cb order_at(1) [OF 9(1-3)] by auto
next
  case (10 c sid s ts target name)
  then show ?case using order_at(1) [OF 10(1-3)] by (simp add: recording_def order_event_snd)
next
  case (11 c sid s ts name ty res c1 c2)
  note cb = 11(4) [unfolded userHandler_with recording_def Handler.simps]
  have al: "allowed (trace_of c) (CbPublish (streamID s))"
    using order_at [OF 11(1-3)] by (auto simp: states_of_def ControlStreamID_def split: if_splits)
  show ?case using order_event [OF 11(1) al cb] order_moved [OF 11(1,2) _ al, of _ c1 c2 streamStateServerPublish] cb
      order_at(2,3) [OF 11(1-3)] by (auto simp: settable_def states_of_def split: if_splits)
next
  case (12 c sid s ts name start res c1 c2)
  note cb = 12(4) [unfolded userHandler_with recording_def Handler.simps]
  have al: "allowed (trace_of c) (CbPlay (streamID s))"
    using order_at [OF 12(1-3)] by (auto simp: states_of_def ControlStreamID_def split: if_splits)
  show ?case using order_event [OF 12(1) al cb] order_moved [OF 12(1,2) _ al, of _ c1 c2 streamStateServerPlay] cb
      order_at(2,3) [OF 12(1-3)] by (auto simp: settable_def states_of_def split: if_splits)
next
  case (13 c sid s ts payload)
  then show ?case using order_at(1) [OF 13(1-3)] by (force simp: recording_def intro!: order_event_snd)
next
  case (14 c c')
  then show ?case using order_ok_cong by blast
qed (simp_all add: recording_def order_event_snd)

text \<open>
  C2. The order of the callbacks, for every client and every handler: a stream is created, released or
  deleted only after a connect that the handler accepted; \<open>OnPublish\<close> and \<open>OnPlay\<close> come only after an
  accepted \<open>OnCreateStream\<close> and never for the control stream; and audio, video and data frames reach
  the handler only after it accepted a publisher.
\<close>

theorem callback_order:
  "ordered [] (trace_of (snd (Serve (with_handler h rt) env (newConn r w cfg (u, [])))))"
proof -
  have "order_ok (snd (Serve (with_handler h rt) env (newConn r w cfg (u, []))))"
  proof (rule order.Serve_P)
    show "order_ok (newConn r w cfg (u, []))"
      by (simp add: order_ok_def server_ok_def trace_of_def newConn_def Let_def streams_ok_new) (simp add: newStreams_def)
  next
    fix c c1 :: "('a \<times> trace) Conn" and s
    assume c: "order_ok c" "on_streams (streams_Create ControlStreamID) c = (Ok s, c1)"
    note c1 = on_streams_Create [OF c(2)]
    have at: "stream_at c1 ControlStreamID = Some (newStream ControlStreamID)" by (simp add: c1(2) putStream_def)
    have st: "settable streamStateServerNotConnected" "streamStateServerNotConnected \<in> states_of ControlStreamID"
      by (simp_all add: settable_def states_of_def)
    have "server_ok (snd (ChangeState ControlStreamID streamStateServerNotConnected c1))"
      using c st by (intro server_ok_create(1)) (simp_all add: order_ok_def)
    with c(1) show "order_ok (snd (ChangeState ControlStreamID streamStateServerNotConnected c1))"
      unfolding ChangeState_at [OF at st(1)] order_ok_def
      by (auto simp: trace_of_def c1(2) putStream_def with_state_def)
    show "fst (ChangeState ControlStreamID streamStateServerNotConnected c1) = Ok ()"
      by (simp add: ChangeState_at [OF at st(1)])
  qed (simp add: recording_def order_event_snd)
  then show ?thesis by (simp add: order_ok_def)
qed

end
