(* ===== verification/Server.thy ===== *)
theory Server
  imports CallbackOrder
begin

text \<open>
  server.go: accepting connections until the server is closed, and what is done with each of them. The
  accept loop is a function of what happens to it: a connection arrives, Accept fails, somebody calls
  \<open>Close\<close>. Each accepted connection is served by a goroutine of its own.
\<close>

section \<open>Listener and done channel\<close>

text \<open>The done channel is made on first use: \<open>None\<close> before, then whether it is closed.\<close>

record Server =
  srv_listener :: "nat option"
  doneCh :: "bool option"
  served :: "nat list"

definition NewServer :: Server where
  "NewServer = \<lparr>srv_listener = None, doneCh = None, served = []\<rparr>"

definition registerListener :: "nat \<Rightarrow> Server \<Rightarrow> unit outcome \<times> Server" where
  "registerListener l srv =
     (case srv_listener srv of
        Some _ \<Rightarrow> (Err (Errorf ''Listener is already registered'' []), srv)
      | None \<Rightarrow> (Ok (), srv\<lparr>srv_listener := Some l\<rparr>))"

definition getDoneChLocked :: "Server \<Rightarrow> bool \<times> Server" where
  "getDoneChLocked srv =
     (case doneCh srv of Some closed \<Rightarrow> (closed, srv) | None \<Rightarrow> (False, srv\<lparr>doneCh := Some False\<rparr>))"

text \<open>\<open>listener_Close\<close> is what closing the listener returns.\<close>

definition Server_Close :: "(nat \<Rightarrow> unit outcome) \<Rightarrow> Server \<Rightarrow> unit outcome \<times> Server" where
  "Server_Close listener_Close srv =
     (case getDoneChLocked srv of (closed, srv) \<Rightarrow>
        if closed then (Ok (), srv)
        else
          let srv = srv\<lparr>doneCh := Some True\<rparr> in
          (case srv_listener srv of None \<Rightarrow> (Ok (), srv) | Some l \<Rightarrow> (listener_Close l, srv)))"

section \<open>The accept loop\<close>

datatype accept_event = Accepted_conn nat | AcceptFailed go_err | CloseCalled

definition ErrClosed :: go_err where
  "ErrClosed = Errorf ''Server is closed'' []"

fun accept_loop :: "(nat \<Rightarrow> unit outcome) \<Rightarrow> accept_event list \<Rightarrow> Server \<Rightarrow> go_err option \<times> Server" where
  "accept_loop lc [] srv = (None, srv)"
| "accept_loop lc (Accepted_conn c # es) srv = accept_loop lc es (srv\<lparr>served := served srv @ [c]\<rparr>)"
| "accept_loop lc (AcceptFailed e # es) srv =
     (case getDoneChLocked srv of (closed, srv) \<Rightarrow>
        if closed then (Some ErrClosed, srv) else accept_loop lc es srv)"
| "accept_loop lc (CloseCalled # es) srv = accept_loop lc es (snd (Server_Close lc srv))"

text \<open>The result is \<open>None\<close> while the loop still runs.\<close>

definition Server_Serve :: "(nat \<Rightarrow> unit outcome) \<Rightarrow> nat \<Rightarrow> accept_event list \<Rightarrow> Server \<Rightarrow> go_err option \<times> Server" where
  "Server_Serve lc l es srv =
     (case registerListener l srv of
        (Err e, srv) \<Rightarrow> (Some (Wrap e ''Already served''), srv)
      | (Panic m, srv) \<Rightarrow> (Some (Errorf m []), srv)
      | (Ok _, srv) \<Rightarrow> accept_loop lc es srv)"

section \<open>One connection\<close>

text \<open>\<open>OnConnect\<close> of the configuration gives the transport and the connection's configuration.\<close>

definition handleConn ::
  "'u runtime \<Rightarrow> hs_env \<Rightarrow> (int \<Rightarrow> wait_case) \<Rightarrow> go_err option \<Rightarrow> transport \<Rightarrow> ChunkStreamerWriter \<Rightarrow> 'u
     \<Rightarrow> unit outcome \<times> 'u Conn" where
  "handleConn rt env pick rwc_Close r w usr =
     (case Serve rt env (newConn r w (ConnConfig_normalize (rt_cfg rt)) usr) of
        (res, c) \<Rightarrow> (res, snd (Conn_Close rt pick rwc_Close c)))"

text \<open>
  The goroutine after the setting up, a round of the message loop at a time: when the loop ends the deferred \<open>Close\<close> runs.
  The errors of both are dropped.
\<close>

definition serve_round :: "'u runtime \<Rightarrow> (int \<Rightarrow> wait_case) \<Rightarrow> go_err option \<Rightarrow> 'u conn_op" where
  "serve_round rt pick rwc_Close c =
     (if isClosed c then (Ok (), c)
      else
        (case loop_round rt c of
           (None, c) \<Rightarrow> (Ok (), c)
         | (Some _, c) \<Rightarrow>
             (case Conn_Close rt pick rwc_Close c of (Panic m, c) \<Rightarrow> (Panic m, c) | (_, c) \<Rightarrow> (Ok (), c))))"

lemma serve_round_keeps:
  assumes "Q c" "\<And>c. Q c \<Longrightarrow> Q (snd (loop_round rt c))" "\<And>c. Q c \<Longrightarrow> Q (snd (Conn_Close rt pick rwc_Close c))"
  shows "Q (snd (serve_round rt pick rwc_Close c))"
proof -
  obtain res c1 where r: "loop_round rt c = (res, c1)" by fastforce
  with assms(2) [OF assms(1)] have "Q c1" by simp
  with assms(1) assms(3) [of c1] r show ?thesis
    by (cases res) (auto simp: serve_round_def split: prod.split outcome.split)
qed

text \<open>Run to their end, the rounds are the loop and the \<open>Close\<close> of \<open>handleConn\<close>.\<close>

interpretation open_kept: loop_inv rt "\<lambda>c. isClosed c = b"
  by unfold_locales (auto simp: io_step_def on_world_def on_streams_def ChangeState_def split: prod.splits option.splits)

lemma Conn_Close_closed: "isClosed (snd (Conn_Close rt pick rwc_Close c))"
  by (cases "OnClose (userHandler rt) (conn_w c)"; cases "fst (OnClose (userHandler rt) (conn_w c))")
    (auto simp: Conn_Close_def on_world_def ChunkStreamer_Close_def Let_def)

lemma closed_rounds: "isClosed c \<Longrightarrow> ((\<lambda>c. snd (serve_round rt pick rwc_Close c)) ^^ n) c = c"
  by (induction n) (simp_all add: serve_round_def)

lemma serve_rounds:
  assumes "\<not> isClosed c" "length (csr_pending (cs_r (conn_in c))) < n"
  shows "((\<lambda>c. snd (serve_round rt pick rwc_Close c)) ^^ n) c = snd (Conn_Close rt pick rwc_Close (snd (handleMessageLoop rt c)))"
  using assms
proof (induction n arbitrary: c)
  case (Suc n)
  obtain res c1 where r: "loop_round rt c = (res, c1)" by fastforce
  show ?case
  proof (cases res)
    case None
    have "\<not> isClosed c1" using open_kept.loop_round_P [of c "isClosed c" rt] r Suc.prems by simp
    moreover have "length (csr_pending (cs_r (conn_in c1))) < n" using round_consumes r None Suc.prems by fastforce
    ultimately have "((\<lambda>c. snd (serve_round rt pick rwc_Close c)) ^^ n) c1 = snd (Conn_Close rt pick rwc_Close (snd (handleMessageLoop rt c1)))"
      by (rule Suc.IH)
    moreover have "handleMessageLoop rt c = handleMessageLoop rt c1" by (simp add: handleMessageLoop_def loop_by_round [of rt c] r None)
    moreover have "snd (serve_round rt pick rwc_Close c) = c1" using Suc.prems r None by (simp add: serve_round_def)
    ultimately show ?thesis by (simp add: funpow_Suc_right del: funpow.simps)
  next
    case (Some res')
    then have "snd (handleMessageLoop rt c) = c1"
      by (cases res') (simp_all add: handleMessageLoop_def loop_by_round [of rt c] r)
    moreover have "snd (serve_round rt pick rwc_Close c) = snd (Conn_Close rt pick rwc_Close c1)"
      using Suc.prems r Some by (simp add: serve_round_def split: prod.split outcome.split)
    ultimately show ?thesis using closed_rounds [OF Conn_Close_closed] by (simp add: funpow_Suc_right del: funpow.simps)
  qed
qed simp

section \<open>Invariants\<close>

lemma served_grows: "accept_loop lc es srv = (r, srv') \<Longrightarrow> \<exists>cs. served srv' = served srv @ cs"
proof (induction lc es srv arbitrary: r srv' rule: accept_loop.induct)
  case (3 lc e es srv)
  then show ?case by (fastforce simp: getDoneChLocked_def split: option.splits if_splits prod.splits)
next
  case (4 lc es srv)
  have "served (snd (Server_Close lc srv)) = served srv"
    by (simp add: Server_Close_def getDoneChLocked_def Let_def split: option.split)
  with 4 show ?case by auto
qed auto

definition closed_server :: "Server \<Rightarrow> bool" where
  "closed_server srv \<longleftrightarrow> doneCh srv = Some True"

lemma close_closes: "closed_server (snd (Server_Close lc srv))"
  by (simp add: closed_server_def Server_Close_def getDoneChLocked_def Let_def split: option.split)

lemma loop_closed:
  "closed_server srv \<Longrightarrow> AcceptFailed e \<in> set es \<Longrightarrow> fst (accept_loop lc es srv) = Some ErrClosed"
proof (induction lc es srv rule: accept_loop.induct)
  case (4 lc es srv)
  with close_closes [of lc srv] show ?case by auto
qed (auto simp: closed_server_def getDoneChLocked_def)

lemma loop_result:
  "accept_loop lc es srv = (Some e, srv') \<Longrightarrow> e = ErrClosed \<and> (closed_server srv \<or> CloseCalled \<in> set es)"
  by (induction lc es srv arbitrary: srv' rule: accept_loop.induct)
    (auto simp: closed_server_def getDoneChLocked_def split: option.splits if_splits)

lemma loop_appends: "fst (accept_loop lc es srv) = None \<Longrightarrow>
   accept_loop lc (es @ es') srv = accept_loop lc es' (snd (accept_loop lc es srv))"
  by (induction lc es srv rule: accept_loop.induct) (auto split: prod.split)

lemma loop_listener: "srv_listener (snd (accept_loop lc es srv)) = srv_listener srv"
proof (induction lc es srv rule: accept_loop.induct)
  case (3 lc e es srv)
  show ?case using 3 [of "fst (getDoneChLocked srv)" "snd (getDoneChLocked srv)"]
    by (cases "doneCh srv") (simp_all add: getDoneChLocked_def)
next
  case (4 lc es srv)
  have "srv_listener (snd (Server_Close lc srv)) = srv_listener srv"
    by (simp add: Server_Close_def getDoneChLocked_def Let_def split: option.split)
  with 4 show ?case by simp
qed simp_all

text \<open>The trace of a connection in service holds no close.\<close>

definition unclosed :: "('u \<times> trace) Conn \<Rightarrow> bool" where
  "unclosed c \<longleftrightarrow> \<not> isClosed c \<and> CbClose \<notin> fst ` set (trace_of c)"

lemma unclosed_event:
  assumes "unclosed c" "ev \<noteq> CbClose" "on_world (record_cb ev f) c = (res, c1)"
  shows "unclosed c1"
proof -
  have "isClosed c1 = isClosed c" using assms(3) by (auto simp: on_world_def split: prod.splits)
  with assms recorded(1) [OF assms(3)] show ?thesis by (auto simp: unclosed_def)
qed

lemma unclosed_event_snd: "unclosed c \<Longrightarrow> ev \<noteq> CbClose \<Longrightarrow> unclosed (snd (on_world (record_cb ev f) c))"
  using unclosed_event [of c ev f] by (metis prod.collapse)

lemma unclosed_streams: "unclosed (c\<lparr>conn_streams := ss\<rparr>) = unclosed c"
  by (simp add: unclosed_def trace_of_def)

lemma unclosed_in: "unclosed (c\<lparr>conn_in := i\<rparr>) = unclosed c"
  by (simp add: unclosed_def trace_of_def)

lemma unclosed_change: "unclosed (snd (ChangeState sid st c)) = unclosed c"
  by (simp add: ChangeState_def unclosed_streams split: option.split prod.split)

lemma unclosed_on_streams: "on_streams f c = (res, c') \<Longrightarrow> unclosed c' = unclosed c"
  by (auto simp: on_streams_def unclosed_streams split: prod.splits)

lemma unclosed_io: "unclosed c \<Longrightarrow> io_step c c' \<Longrightarrow> unclosed c'"
  by (simp add: unclosed_def trace_of_def io_step_def)

interpretation unclosed: loop_inv "with_handler h rt" unclosed
proof (unfold_locales, goal_cases)
  case (1 c c')
  then show ?case by (rule unclosed_io)
next
  case (4 c t)
  then show ?case using unclosed_on_streams by (metis prod.collapse)
next
  case (8 c sid s ts cmd res c1 c2)
  note cb = 8(4) [unfolded userHandler_with recording_def Handler.simps]
  from unclosed_event [OF 8(1) _ cb] have "unclosed c1" by simp
  then show ?case using unclosed_io [of c1 c2] by (auto simp: unclosed_change)
next
  case (9 c sid s ts res c1 new c2)
  note cb = 9(4) [unfolded userHandler_with recording_def Handler.simps]
  show ?case using unclosed_event [OF 9(1) _ cb] unclosed_on_streams unclosed_change by blast
next
  case (11 c sid s ts name ty res c1 c2)
  note cb = 11(4) [unfolded userHandler_with recording_def Handler.simps]
  from unclosed_event [OF 11(1) _ cb] have "unclosed c1" by simp
  then show ?case using unclosed_io [of c1 c2] by (auto simp: unclosed_change)
next
  case (12 c sid s ts name start res c1 c2)
  note cb = 12(4) [unfolded userHandler_with recording_def Handler.simps]
  from unclosed_event [OF 12(1) _ cb] have "unclosed c1" by simp
  then show ?case using unclosed_io [of c1 c2] by (auto simp: unclosed_change)
next
  case (14 c c')
  then show ?case by (simp add: unclosed_def trace_of_def)
qed (simp_all add: unclosed_streams unclosed_in recording_def unclosed_event_snd)

section \<open>Properties\<close>

text \<open>
  C25. \<open>Server.Serve\<close> on a fresh server returns only because of \<open>Close\<close>, with \<open>ErrClosed\<close>, and it does so
  at the first Accept that fails after it; failures before are passed over. Every connection that
  arrived while it ran is served, and a second \<open>Serve\<close> of the same server is refused.
\<close>

theorem server_serve:
  assumes "Server_Serve lc l es NewServer = (r, srv)"
  shows "(\<forall>e. r = Some e \<longrightarrow> e = ErrClosed \<and> CloseCalled \<in> set es) \<and>
    (\<forall>e es'. r = None \<longrightarrow> fst (Server_Serve lc l (es @ CloseCalled # es' @ [AcceptFailed e]) NewServer) = Some ErrClosed) \<and>
    (\<forall>c. r = None \<longrightarrow> snd (Server_Serve lc l (es @ [Accepted_conn c]) NewServer) = srv\<lparr>served := served srv @ [c]\<rparr>) \<and>
    (\<forall>lc' l' es'. \<exists>e. Server_Serve lc' l' es' srv = (Some (Wrap e ''Already served''), srv))"
proof -
  let ?srv = "NewServer\<lparr>srv_listener := Some l\<rparr>"
  have run: "Server_Serve lc l es' NewServer = accept_loop lc es' ?srv" for es'
    by (simp add: Server_Serve_def registerListener_def NewServer_def)
  note es = assms [unfolded run]
  have l: "srv_listener srv = Some l" using loop_listener [of lc es ?srv] es by simp
  have "e = ErrClosed \<and> CloseCalled \<in> set es" if "r = Some e" for e
    using loop_result [of lc es ?srv e srv] es that by (auto simp: closed_server_def NewServer_def)
  moreover have "fst (accept_loop lc (es @ CloseCalled # es' @ [AcceptFailed e]) ?srv) = Some ErrClosed" if "r = None" for e es'
    using loop_appends [of lc es ?srv] es that loop_closed [OF close_closes, of e "es' @ [AcceptFailed e]"] by simp
  moreover have "snd (accept_loop lc (es @ [Accepted_conn c]) ?srv) = srv\<lparr>served := served srv @ [c]\<rparr>" if "r = None" for c
    using loop_appends [of lc es ?srv] es that by simp
  moreover have "\<exists>e. Server_Serve lc' l' es' srv = (Some (Wrap e ''Already served''), srv)" for lc' l' es'
    using l by (simp add: Server_Serve_def registerListener_def)
  ultimately show ?thesis unfolding run by blast
qed

theorem server_serve_witness:
  "Server_Serve (\<lambda>_. Ok ()) 1 [Accepted_conn 7, AcceptFailed EOF, CloseCalled, Accepted_conn 8, AcceptFailed EOF] NewServer =
      (Some ErrClosed, \<lparr>srv_listener = Some 1, doneCh = Some True, served = [7, 8]\<rparr>)"
proof -
  have "Server_Serve (\<lambda>_. Ok ()) 1 [Accepted_conn 7, AcceptFailed EOF] NewServer =
      (None, \<lparr>srv_listener = Some 1, doneCh = Some False, served = [7]\<rparr>)"
    by (simp add: Server_Serve_def NewServer_def registerListener_def getDoneChLocked_def)
  from server_serve [OF this] have
    "fst (Server_Serve (\<lambda>_. Ok ()) 1 ([Accepted_conn 7, AcceptFailed EOF] @ CloseCalled # [Accepted_conn 8] @ [AcceptFailed EOF]) NewServer) = Some ErrClosed"
    by blast
  then show ?thesis
    by (simp add: Server_Serve_def NewServer_def registerListener_def getDoneChLocked_def Server_Close_def)
qed

lemma serve_unclosed:
  "unclosed (snd (Serve (with_handler h rt) env (newConn r w cfg (u, []))))"
proof (rule unclosed.Serve_P)
  show "unclosed (newConn r w cfg (u, []))" by (simp add: unclosed_def newConn_def Let_def trace_of_def)
next
  fix c c1 :: "('a \<times> trace) Conn" and s
  assume c: "unclosed c" "on_streams (streams_Create ControlStreamID) c = (Ok s, c1)"
  show "unclosed (snd (ChangeState ControlStreamID streamStateServerNotConnected c1))"
    using c unclosed_on_streams unclosed_change by blast
  show "fst (ChangeState ControlStreamID streamStateServerNotConnected c1) = Ok ()"
    by (simp add: ChangeState_def split: option.split)
qed (simp add: recording_def unclosed_event_snd)

lemma Conn_Close_traced:
  assumes "unclosed c"
  obtains ok where "trace_of (snd (Conn_Close (with_handler h rt) pick rwc_Close c)) = trace_of c @ [(CbClose, ok)]"
proof -
  obtain o1 c1 where cl: "on_world (OnClose (recording h)) (c\<lparr>isClosed := True\<rparr>) = (o1, c1)" by fastforce
  then have "trace_of c1 = trace_of c @ [(CbClose, o1 = Ok ())]"
    using recorded(1) [of CbClose "OnClose h" "c\<lparr>isClosed := True\<rparr>" o1 c1] by (simp add: recording_def trace_of_def)
  moreover have "trace_of (snd (Conn_Close (with_handler h rt) pick rwc_Close c)) = trace_of c1"
    using assms cl
    by (cases o1; auto simp: Conn_Close_def unclosed_def Let_def trace_of_def ChunkStreamer_Close_def split: outcome.split)
  ultimately show thesis using that by simp
qed

text \<open>
  C24. However serving a connection ends, by an error, a panic or the end of the input, the user's
  \<open>OnClose\<close> is called once, as the last callback of the connection, and the connection is closed;
  closing it again does nothing.
\<close>

theorem connection_closed_once:
  "\<exists>tr ok. trace_of (snd (handleConn (with_handler h rt) env pick rwc_Close r w (u, []))) = tr @ [(CbClose, ok)] \<and>
     CbClose \<notin> fst ` set tr \<and>
     Conn_Close (with_handler h rt) pick2 rwc_Close2 (snd (handleConn (with_handler h rt) env pick rwc_Close r w (u, []))) =
       (Ok (), snd (handleConn (with_handler h rt) env pick rwc_Close r w (u, [])))"
proof -
  let ?rt = "with_handler h rt"
  obtain res c where sv: "Serve ?rt env (newConn r w (ConnConfig_normalize (rt_cfg ?rt)) (u, [])) = (res, c)" by fastforce
  with serve_unclosed [of h rt env r w "ConnConfig_normalize (rt_cfg ?rt)" u] have uc: "unclosed c" by simp
  from Conn_Close_traced [OF uc, of h rt pick rwc_Close] obtain ok
    where "trace_of (snd (Conn_Close ?rt pick rwc_Close c)) = trace_of c @ [(CbClose, ok)]" .
  moreover have "snd (handleConn ?rt env pick rwc_Close r w (u, [])) = snd (Conn_Close ?rt pick rwc_Close c)"
    by (simp add: handleConn_def sv)
  ultimately show ?thesis
    using uc Conn_Close_closed [of ?rt pick rwc_Close c] by (auto simp: unclosed_def Conn_Close_def [of ?rt pick2])
qed

end
