(* ===== verification/RelayNet.thy ===== *)
theory RelayNet
  imports RelayServe Server "HOL-Library.Sublist"
begin

text \<open>
  The relay demo as a whole: any number of connections, each served by the library, share one relay, and what the relay
  writes to a player goes out on the player's connection. The connections' message loops run in any interleaving, a
  message at a time.
\<close>

section \<open>The network\<close>

text \<open>conn.go: \<open>Conn.Write\<close>, which writes to the streamer whatever stream the message names.\<close>

definition Conn_Write :: "'u runtime \<Rightarrow> int \<Rightarrow> u32 \<Rightarrow> ChunkMessage \<Rightarrow> 'u callback" where
  "Conn_Write rt csid ts cmsg = Stream_Write rt (StreamID cmsg) csid ts (Message cmsg)"

record ('a, 'v, 's) net =
  net_relay :: "('a, 'v, 's) relay"
  net_conns :: "nat \<Rightarrow> ('a, 'v, 's) relay Conn"

text \<open>A connection that has the turn works on the shared relay.\<close>

definition with_relay :: "'r \<Rightarrow> 'r Conn \<Rightarrow> 'r Conn" where
  "with_relay r c = c\<lparr>conn_w := (conn_w c)\<lparr>w_usr := r\<rparr>\<rparr>"

text \<open>
  The writes of a turn, each on the connection it is for. The relay drops their errors, so that they may as well be
  done at the end of the turn.
\<close>

definition forward ::
  "(nat \<Rightarrow> 'r runtime) \<Rightarrow> relay_write list \<Rightarrow> (nat \<Rightarrow> 'r Conn) \<Rightarrow> nat \<Rightarrow> 'r Conn" where
  "forward rts ws cs = fold (\<lambda>(k, csid, ts, m) cs. cs(k := snd (on_world (Conn_Write (rts k) csid ts m) (cs k)))) ws cs"

text \<open>
  A round of a connection's message loop, on what its client sent, with the \<open>Close\<close> that follows the last; a message
  on a connection, wherever it comes from; an acknowledgement its reader sends, the scheduler of a connection, the end
  of a connection, and a request for a key.
\<close>

datatype net_event =
    Serves nat "int \<Rightarrow> wait_case" "go_err option"
  | Handles nat int u32 ChunkMessage
  | Acks nat u32
  | Idles nat
  | Ends nat "int \<Rightarrow> wait_case" "go_err option"
  | Asks "nat \<Rightarrow> nat" bool string

definition turn_of ::
  "(nat \<Rightarrow> ('a, 'v, 's) relay runtime) \<Rightarrow> nat \<Rightarrow> (('a, 'v, 's) relay Conn \<Rightarrow> unit outcome \<times> ('a, 'v, 's) relay Conn) \<Rightarrow>
     ('a, 'v, 's) net \<Rightarrow> unit outcome \<times> ('a, 'v, 's) net" where
  "turn_of rts h f N =
     (case f (with_relay (net_relay N) (net_conns N h)) of (res, c) \<Rightarrow>
        (res, N\<lparr>net_relay := w_usr (conn_w c),
          net_conns := forward rts (drop (length (r_sent (net_relay N))) (r_sent (w_usr (conn_w c)))) ((net_conns N)(h := c))\<rparr>))"

fun net_step ::
  "('a, 'v, 's) relay_env \<Rightarrow> (nat \<Rightarrow> ('a, 'v, 's) relay runtime) \<Rightarrow> net_event \<Rightarrow> ('a, 'v, 's) net \<Rightarrow> unit outcome \<times> ('a, 'v, 's) net" where
  "net_step E rts (Serves h pick rwc_Close) N = turn_of rts h (serve_round (relay_runtime E h (rts h)) pick rwc_Close) N"
| "net_step E rts (Handles h csid ts m) N =
     (if isClosed (net_conns N h) then (Ok (), N)
      else turn_of rts h (handleMessage (relay_runtime E h (rts h)) csid ts m) N)"
| "net_step E rts (Acks h n) N = turn_of rts h (on_world (sendAck (rts h) n)) N"
| "net_step E rts (Idles h) N = turn_of rts h (\<lambda>c. (Ok (), idle (rts h) c)) N"
| "net_step E rts (Ends h pick rwc_Close) N = turn_of rts h (Conn_Close (relay_runtime E h (rts h)) pick rwc_Close) N"
| "net_step E rts (Asks rnd form_ok channel) N = (Ok (), N\<lparr>net_relay := snd (handler rnd form_ok channel (net_relay N))\<rparr>)"

text \<open>At the start every connection has its control stream, as \<open>Serve\<close> leaves it when the message loop begins.\<close>

definition opened :: "transport \<Rightarrow> ChunkStreamerWriter \<Rightarrow> 'u ConnConfig \<Rightarrow> 'u \<Rightarrow> 'u Conn" where
  "opened tr w cfg r =
     snd (ChangeState ControlStreamID streamStateServerNotConnected
       (snd (on_streams (streams_Create ControlStreamID) (newConn tr w cfg r))))"

definition net_start ::
  "(nat \<Rightarrow> transport) \<Rightarrow> (nat \<Rightarrow> ChunkStreamerWriter) \<Rightarrow> (nat \<Rightarrow> ('a, 'v, 's) relay ConnConfig) \<Rightarrow> ('a, 'v, 's) net" where
  "net_start tps ws cfgs = \<lparr>net_relay = NewRelayService, net_conns = (\<lambda>h. opened (tps h) (ws h) (cfgs h) NewRelayService)\<rparr>"

definition net_run ::
  "('a, 'v, 's) relay_env \<Rightarrow> (nat \<Rightarrow> ('a, 'v, 's) relay runtime) \<Rightarrow> net_event list \<Rightarrow> ('a, 'v, 's) net \<Rightarrow> ('a, 'v, 's) net" where
  "net_run E rts es N = fold (\<lambda>e N. snd (net_step E rts e N)) es N"

section \<open>What forwarding leaves alone\<close>

lemma Conn_Write_frame:
  "conn_streams (snd (on_world (Conn_Write rt csid ts m) c)) = conn_streams c"
  "w_usr (conn_w (snd (on_world (Conn_Write rt csid ts m) c))) = w_usr (conn_w c)"
  "isClosed (snd (on_world (Conn_Write rt csid ts m) c)) = isClosed c"
  "w_http (conn_w (snd (on_world (Conn_Write rt csid ts m) c))) = w_http (conn_w c)"
  using Stream_Write_frame [of rt "StreamID m" csid ts "Message m" "conn_w c"]
  by (simp_all add: on_world_def Conn_Write_def split_def)

lemma forward_frame:
  "conn_streams (forward rts ws cs k) = conn_streams (cs k)"
  "isClosed (forward rts ws cs k) = isClosed (cs k)"
  "w_http (conn_w (forward rts ws cs k)) = w_http (conn_w (cs k))"
proof (induction ws arbitrary: cs)
  case (Cons x ws)
  { case 1 show ?case using Cons(1) by (cases x) (simp add: forward_def Conn_Write_frame) }
  { case 2 show ?case using Cons(2) by (cases x) (simp add: forward_def Conn_Write_frame) }
  { case 3 show ?case using Cons(3) by (cases x) (simp add: forward_def Conn_Write_frame) }
qed (simp_all add: forward_def)

section \<open>A publisher behind every stream that publishes\<close>

text \<open>A turn of one connection takes no publisher from another.\<close>

lemma publishes_OnClose: "publishes k (snd (relay_OnClose h r)) = publishes k r"
proof -
  have sc: "r_handlers (Sub_Close i r) = r_handlers r" for i and r :: "('a, 'b, 'c) relay" by (simp add: Sub_Close_def)
  have "r_handlers (fold Sub_Close is r) = r_handlers r" for "is" and r :: "('a, 'b, 'c) relay"
    by (induction "is" arbitrary: r) (simp_all add: sc)
  then have "r_handlers (snd (Pub_Close p r)) = r_handlers r" for p and r :: "('a, 'b, 'c) relay"
    by (simp add: Pub_Close_def Deregister_def RemovePubsub_def split: option.split)
  then have "r_handlers (snd (relay_OnClose h r)) = r_handlers r"
    by (simp add: relay_OnClose_def Let_def sc split: option.split)
  then show ?thesis by (simp add: publishes_def)
qed

text \<open>What every callback of the relay keeps, whichever connection calls it, handling messages keeps.\<close>

locale relay_keeps =
  fixes E :: "('a, 'v, 's) relay_env" and K :: "('a, 'v, 's) relay \<Rightarrow> bool"
  assumes K_publish: "K r \<Longrightarrow> K (snd (relay_OnPublish h name r))"
    and K_play: "K r \<Longrightarrow> K (snd (relay_OnPlay h strm name r))"
    and K_script: "K r \<Longrightarrow> K (snd (relay_OnSetDataFrame E h ts payload r))"
    and K_audio: "K r \<Longrightarrow> K (snd (relay_OnAudio E h ts payload r))"
    and K_video: "K r \<Longrightarrow> K (snd (relay_OnVideo E h ts payload r))"
begin

definition kept_at :: "('a, 'v, 's) relay Conn \<Rightarrow> bool" where
  "kept_at c \<longleftrightarrow> K (w_usr (conn_w c))"

lemma kept_relay: "kept_at c \<Longrightarrow> (\<And>r. K r \<Longrightarrow> K (snd (f r))) \<Longrightarrow> kept_at (snd (on_world (on_relay f) c))"
  by (simp add: kept_at_def on_world_def on_relay_def split_def)

end

lemma ChangeState_w [simp]: "conn_w (snd (ChangeState sid st c)) = conn_w c"
  by (simp add: ChangeState_def split: option.split prod.split)

sublocale relay_keeps \<subseteq> kept: loop_inv "relay_runtime E h rt" kept_at for h rt
proof (unfold_locales, goal_cases)
  case (8 c sid s ts cmd res c1 c2)
  then show ?case by (auto simp: relayHandler_def DefaultHandler_def Let_def on_world_def kept_at_def io_step_def)
next
  case (9 c sid s ts res c1 new c2)
  then show ?case by (auto simp: relayHandler_def DefaultHandler_def Let_def on_world_def kept_at_def on_streams_def split: prod.splits)
next
  case (11 c sid s ts name ty res c1 c2)
  have "kept_at (snd (on_world (on_relay (relay_OnPublish h name)) c))" by (rule kept_relay [OF 11(1) K_publish])
  with 11(4) show ?case by (simp add: kept_at_def io_step_def relayHandler_def)
next
  case (12 c sid s ts name start res c1 c2)
  have "kept_at (snd (on_world (on_relay (relay_OnPlay h (streamID s) name)) c))" by (rule kept_relay [OF 12(1) K_play])
  with 12(4) show ?case by (simp add: kept_at_def io_step_def relayHandler_def)
next
  case (13 c sid s ts payload)
  then show ?case by (simp add: relayHandler_def kept_relay K_script K_audio K_video)
qed (auto simp: kept_at_def io_step_def on_streams_def relayHandler_def DefaultHandler_def Let_def on_world_def split: prod.splits)

interpretation publisher: relay_keeps E "publishes k"
  by unfold_locales (simp_all add: relay_keeps_publisher)

text \<open>What was written stays written.\<close>

lemma each_sub_keeps: "(\<And>i r. K r \<Longrightarrow> K (snd (f i r))) \<Longrightarrow> K r \<Longrightarrow> K (snd (each_sub f is r))"
proof (induction "is" arbitrary: r)
  case (Cons i "is")
  obtain res r1 where f: "f i r = (res, r1)" by fastforce
  with Cons.prems(1) [OF Cons.prems(2), of i] have "K r1" by simp
  with Cons.IH [OF Cons.prems(1)] f show ?case by (cases res) simp_all
qed simp

lemma onEvent_grows: "prefix base (r_sent r) \<Longrightarrow> prefix base (r_sent (snd (onEvent E i flv r)))"
  by (auto simp: onEvent_def onEventCallback_def Let_def split: option.split outcome.split)

lemma video_event_grows:
  assumes "prefix base (r_sent r)"
  shows "prefix base (r_sent (snd (video_event E p flv i r)))"
proof -
  have opt: "prefix base (r_sent (snd (opt_event E i t r)))" if "prefix base (r_sent r)" for t r
    by (cases t) (simp_all add: opt_event_def onEvent_grows that)
  obtain o1 r1 where e1: "opt_event E i (avcSeqHeader (r_pubs r ! p)) r = (o1, r1)" by fastforce
  obtain o2 r2 where e2: "opt_event E i (lastKeyFrame (r_pubs r1 ! p)) r1 = (o2, r2)" by fastforce
  from opt [OF assms] e1 have r1: "prefix base (r_sent r1)" by (metis snd_conv)
  from opt [OF r1] e2 have r2: "prefix base (r_sent r2)" by (metis snd_conv)
  from onEvent_grows [OF assms] r1 r2 e1 e2 show ?thesis by (cases o1; cases o2) (simp_all add: video_event_def)
qed

lemma Publish_grows: "prefix base (r_sent r) \<Longrightarrow> prefix base (r_sent (snd (Publish_tag E pub flv r)))"
  by (cases pub; cases "tagData flv")
    (simp_all add: Publish_tag_def Let_def each_sub_keeps [where K = "\<lambda>r. prefix base (r_sent r)"] onEvent_grows video_event_grows)

interpretation sent: relay_keeps E "\<lambda>r. prefix base (r_sent r)"
proof (unfold_locales, goal_cases)
  case (1 r h name)
  then show ?case
    by (auto simp: relay_OnPublish_def NewPubsub_def Pubsub_Pub_def set_handler_def Let_def split: option.split)
next
  case (2 r h strm name)
  then show ?case
    by (auto simp: relay_OnPlay_def GetPubsub_def Pubsub_Sub_def set_handler_def Let_def split: option.split)
qed (simp_all add: relay_OnSetDataFrame_def relay_OnAudio_def relay_OnVideo_def Publish_grows split: outcome.split prod.split)

lemma OnClose_sent: "r_sent (snd (relay_OnClose h r)) = r_sent r"
proof -
  have sc: "r_sent (Sub_Close i r) = r_sent r" for i and r :: "('a, 'b, 'c) relay" by (simp add: Sub_Close_def)
  have "r_sent (fold Sub_Close is r) = r_sent r" for "is" and r :: "('a, 'b, 'c) relay"
    by (induction "is" arbitrary: r) (simp_all add: sc)
  then have "r_sent (snd (Pub_Close p r)) = r_sent r" for p and r :: "('a, 'b, 'c) relay"
    by (simp add: Pub_Close_def Deregister_def RemovePubsub_def split: option.split)
  then show ?thesis by (simp add: relay_OnClose_def Let_def sc split: option.split)
qed

text \<open>The invariant of the network: every connection serves on the shared relay.\<close>

definition net_ok :: "('a, 'v, 's) relay_env \<Rightarrow> ('a, 'v, 's) net \<Rightarrow> bool" where
  "net_ok E N \<longleftrightarrow> (\<forall>h. serving E h (with_relay (net_relay N) (net_conns N h)))"

lemma with_relay_sel [simp]:
  "conn_streams (with_relay r c) = conn_streams c" "w_usr (conn_w (with_relay r c)) = r" "isClosed (with_relay r c) = isClosed c"
  by (simp_all add: with_relay_def)

lemma server_ok_with_relay [simp]: "server_ok (with_relay r c) = server_ok c"
  by (rule server_ok_cong) simp

lemma turn_serving:
  assumes "net_ok E N"
    and "\<And>c. serving E h c \<Longrightarrow> serving E h (snd (f c))"
    and "\<And>k c. publisher.kept_at k c \<Longrightarrow> publisher.kept_at k (snd (f c))"
  shows "net_ok E (snd (turn_of rts h f N))"
proof -
  obtain res c where f: "f (with_relay (net_relay N) (net_conns N h)) = (res, c)" by fastforce
  have own: "serving E h c" using assms(1) assms(2) [of "with_relay (net_relay N) (net_conns N h)"] f by (simp add: net_ok_def)
  have kept: "publishes k (w_usr (conn_w c))" if "publishes k (net_relay N)" for k
    using assms(3) [of k "with_relay (net_relay N) (net_conns N h)"] f that by (simp add: publisher.kept_at_def)
  show ?thesis
    unfolding net_ok_def
  proof
    fix k
    let ?N = "snd (turn_of rts h f N)"
    have cs: "conn_streams (net_conns ?N k) = conn_streams (if k = h then c else net_conns N k)" "net_relay ?N = w_usr (conn_w c)"
      by (simp_all add: turn_of_def f forward_frame)
    show "serving E k (with_relay (net_relay ?N) (net_conns ?N k))"
    proof (cases "k = h")
      case True
      then show ?thesis using cs by (intro serving_cong [OF own [folded True]]) simp_all
    next
      case False
      have "serving E k (with_relay (net_relay N) (net_conns N k))" using assms(1) by (simp add: net_ok_def)
      moreover have "server_ok (with_relay (net_relay ?N) (net_conns ?N k)) = server_ok (with_relay (net_relay N) (net_conns N k))"
        by (rule server_ok_cong) (simp add: cs False)
      ultimately show ?thesis using own kept cs False by (auto simp: serving_def)
    qed
  qed
qed

lemma serving_usr_step:
  assumes "serving E h c" "conn_streams c' = conn_streams c" "w_usr (conn_w c') = w_usr (conn_w c)"
  shows "serving E h c'"
  by (rule serving_cong [OF assms])

lemma sendAck_frame:
  "conn_streams (snd (on_world (sendAck rt n) c)) = conn_streams c"
  "w_usr (conn_w (snd (on_world (sendAck rt n) c))) = w_usr (conn_w c)"
  using sendAck_usr [of rt n "conn_w c"] by (simp_all add: on_world_def split_def)

text \<open>Closing calls the handler, and changes no stream.\<close>

lemma Conn_Close_frame:
  "conn_streams (snd (Conn_Close (relay_runtime E h rt) pick rwc_Close c)) = conn_streams c"
  "w_usr (conn_w (snd (Conn_Close (relay_runtime E h rt) pick rwc_Close c))) =
     (if isClosed c then w_usr (conn_w c) else snd (relay_OnClose h (w_usr (conn_w c))))"
  by (auto simp: Conn_Close_def relayHandler_def on_world_def on_relay_def relay_OnClose_def ChunkStreamer_Close_def Let_def)

lemma serving_Close: "serving E h c \<Longrightarrow> serving E h (snd (Conn_Close (relay_runtime E h rt) pick rwc_Close c))"
  using relay_do_ok [of "w_usr (conn_w c)" E "EvClose h"]
  by (auto simp: serving_def server_ok_cong [OF Conn_Close_frame(1)] Conn_Close_frame publishes_OnClose)

lemma publisher_Close: "publisher.kept_at k c \<Longrightarrow> publisher.kept_at k (snd (Conn_Close (relay_runtime E h rt) pick rwc_Close c))"
  by (simp add: publisher.kept_at_def Conn_Close_frame publishes_OnClose)

lemma serving_round: "serving E h c \<Longrightarrow> serving E h (snd (serve_round (relay_runtime E h rt) pick rwc_Close c))"
  by (erule serve_round_keeps [where Q = "serving E h"]) (erule relay_serving.loop_round_P serving_Close)+

lemma publisher_round:
  "publisher.kept_at k c \<Longrightarrow> publisher.kept_at k (snd (serve_round (relay_runtime E h rt) pick rwc_Close c))"
  by (erule serve_round_keeps [where Q = "publisher.kept_at k"]) (erule publisher.kept.loop_round_P publisher_Close)+

lemma net_step_ok:
  assumes "net_ok E N"
  shows "net_ok E (snd (net_step E rts e N))"
proof (cases e)
  case (Serves h pick rwc_Close)
  have "net_ok E (snd (turn_of rts h (serve_round (relay_runtime E h (rts h)) pick rwc_Close) N))"
    by (rule turn_serving [OF assms serving_round publisher_round])
  then show ?thesis by (simp add: Serves)
next
  case (Handles h csid ts m)
  then show ?thesis
    using assms turn_serving [OF assms relay_serving.handleMessage_P publisher.kept.handleMessage_P] by simp
next
  case (Acks h n)
  have "net_ok E (snd (turn_of rts h (on_world (sendAck (rts h) n)) N))"
    by (rule turn_serving [OF assms]) (auto intro: serving_cong simp: sendAck_frame publisher.kept_at_def)
  then show ?thesis by (simp add: Acks)
next
  case (Idles h)
  have "net_ok E (snd (turn_of rts h (\<lambda>c. (Ok (), idle (rts h) c)) N))"
    by (rule turn_serving [OF assms]) (auto intro: serving_cong simp: idle_def publisher.kept_at_def)
  then show ?thesis by (simp add: Idles)
next
  case (Ends h pick rwc_Close)
  then show ?thesis using turn_serving [OF assms serving_Close publisher_Close] by simp
next
  case (Asks rnd form_ok channel)
  have "r_handlers (snd (handler rnd form_ok channel r)) = r_handlers r" for r :: "('a, 'b, 'c) relay"
    by (simp add: handler_def Cache_Set_def Let_def)
  moreover have "relay_ok (snd (handler rnd form_ok channel r))" if "encodes E" "relay_ok r" for r :: "('a, 'b, 'c) relay"
    using relay_do_ok [OF that(2,1), of "EvKey rnd form_ok channel"] by simp
  ultimately show ?thesis
    using assms by (auto simp: Asks net_ok_def serving_def publishes_def)
qed

lemma net_run_ok: "net_ok E N \<Longrightarrow> net_ok E (net_run E rts es N)"
  by (induction es arbitrary: N) (simp_all add: net_run_def net_step_ok)

section \<open>What the relay writes reaches the players\<close>

definition is_media :: "message \<Rightarrow> bool" where
  "is_media m \<longleftrightarrow> (case m of AudioMessage _ \<Rightarrow> True | VideoMessage _ \<Rightarrow> True | DataMessage _ _ _ \<Rightarrow> True | _ \<Rightarrow> False)"

text \<open>The media a connection's \<open>Write\<close> has handed over, and what the relay wrote to it, in the same shape.\<close>

definition media_log :: "'u Conn \<Rightarrow> (u32 \<times> int \<times> u32 \<times> message) list" where
  "media_log c = filter (\<lambda>(sid, csid, ts, m). is_media m) (w_log (conn_w c))"

definition as_log :: "relay_write \<Rightarrow> u32 \<times> int \<times> u32 \<times> message" where
  "as_log x = (case x of (k, csid, ts, m) \<Rightarrow> (StreamID m, csid, ts, Message m))"

text \<open>What handling a message writes by itself is never media.\<close>

lemma media_bindo:
  assumes "media_log (snd p) = L" "\<And>x c. media_log c = L \<Longrightarrow> media_log (snd (f x c)) = L"
  shows "media_log (snd (andthen p f)) = L"
  using assms by (cases p; cases "fst p") auto

lemma media_write:
  assumes "\<not> is_media m" "media_log c = L"
  shows "media_log (snd (on_world (Stream_Write rt sid csid ts m) c)) = L"
proof -
  obtain res w where w: "Stream_Write rt sid csid ts m (conn_w c) = (res, w)" by fastforce
  with Stream_Write_log [OF w] assms show ?thesis by (simp add: on_world_def media_log_def)
qed

lemma media_command:
  assumes "media_log c = L"
  shows "media_log (snd (on_world (writeCommandMessage rt s csid ts name tid body) c)) = L"
proof -
  obtain res w where w: "writeCommandMessage rt s csid ts name tid body (conn_w c) = (res, w)" by fastforce
  from w show ?thesis
    by (cases rule: writeCommandMessage_log) (use w assms in \<open>simp_all add: on_world_def media_log_def is_media_def\<close>)
qed

lemma media_relay: "media_log c = L \<Longrightarrow> media_log (snd (on_world (on_relay f) c)) = L"
  by (simp add: media_log_def on_world_def on_relay_def split_def)

lemma media_skip: "media_log c = L \<Longrightarrow> media_log (snd (on_world (\<lambda>w. (Ok (), w)) c)) = L"
  by (simp add: media_log_def on_world_def)

lemma media_table:
  "media_log c = L \<Longrightarrow> media_log (snd (on_streams f c)) = L" "media_log c = L \<Longrightarrow> media_log (snd (ChangeState sid st c)) = L"
  "media_log c = L \<Longrightarrow> media_log (snd (on_peerState g c)) = L" "media_log c = L \<Longrightarrow> media_log (snd (on_world myApi c)) = L"
  by (simp_all add: media_log_def on_streams_def on_peerState_def on_world_def myApi_def split_def)

lemma media_replies:
  assumes "media_log c = L"
  shows "media_log (snd (on_world (ReplyConnect_with rt s csid ts r) c)) = L"
    "media_log (snd (on_world (ReplyCreateStream rt s csid ts tid new) c)) = L"
    "media_log (snd (on_world (NotifyStatus rt s csid ts b) c)) = L"
    "media_log (snd (on_world (WriteWinAckSize rt s csid ts n) c)) = L"
    "media_log (snd (on_world (WriteSetPeerBandwidth rt s csid ts i l) c)) = L"
    "media_log (snd (on_world (WriteUserCtrl rt s csid ts ev) c)) = L"
    "media_log (snd (on_world (sendAck rt k) c)) = L"
proof -
  show "media_log (snd (on_world (ReplyConnect_with rt s csid ts r) c)) = L"
    using media_command [OF assms] by (simp add: ReplyConnect_with_def ReplyConnect_def [abs_def] Let_def)
  show "media_log (snd (on_world (ReplyCreateStream rt s csid ts tid new) c)) = L"
    using media_command [OF assms] by (cases new) (simp_all add: ReplyCreateStream_def [abs_def])
qed (use media_command [OF assms] media_write [OF _ assms] in
    \<open>simp_all add: NotifyStatus_def [abs_def] WriteWinAckSize_def WriteSetPeerBandwidth_def WriteUserCtrl_def sendAck_def [abs_def] is_media_def\<close>)

lemma media_deferred:
  assumes "media_log (snd (body c)) = L" "\<And>c. media_log c = L \<Longrightarrow> media_log (snd (reply c)) = L"
  shows "media_log (snd (deferred_reply reply body c)) = L"
proof -
  obtain o1 c1 where b: "body c = (o1, c1)" by fastforce
  obtain o2 c2 where r: "reply c1 = (o2, c2)" by fastforce
  have "media_log c1 = L" "media_log c2 = L" using assms(1) assms(2) [of c1] b r by simp_all
  then show ?thesis by (cases o1; cases o2) (simp_all add: deferred_reply_def b r)
qed

lemmas media_writes = media_replies media_table media_relay media_skip

lemma media_connect:
  assumes "media_log c = L"
  shows "media_log (snd (serverControlNotConnected_onCommand (relay_runtime E h rt) s csid ts tid body c)) = L"
proof -
  have "media_log (snd (serverControlNotConnected_connect (relay_runtime E h rt) s csid ts cmd c)) = L" for cmd
    unfolding serverControlNotConnected_connect_def Let_def
    by (intro media_bindo media_replies media_table) (simp add: relayHandler_def DefaultHandler_def Let_def media_skip assms)
  then show ?thesis using assms
    by (cases body) (simp_all add: serverControlNotConnected_onCommand_def pass_through_def media_deferred media_replies)
qed

lemma media_created:
  assumes "media_log c = L"
  shows "media_log (snd (serverControlConnected_createStream (relay_runtime E h rt) s csid ts tid c)) = L"
proof -
  let ?rt = "relay_runtime E h rt"
  have cb: "on_world (OnCreateStream (userHandler ?rt) ts) c = (Ok (), c)"
    by (simp add: relayHandler_def DefaultHandler_def Let_def on_world_def)
  obtain o1 c1 where m: "on_streams CreateIfAvailable c = (o1, c1)" by fastforce
  have c1: "media_log c1 = L" using media_table(1) [OF assms, of CreateIfAvailable] m by simp
  show ?thesis
  proof (cases o1)
    case (Ok new)
    obtain o2 c2 where ch: "ChangeState (streamID new) streamStateServerInactive c1 = (o2, c2)" by fastforce
    have c2: "media_log c2 = L" using media_table(2) [OF c1, of "streamID new" streamStateServerInactive] ch by simp
    obtain o3 c3 where rp: "on_world (ReplyCreateStream ?rt s csid ts tid (Some (streamID new))) c2 = (o3, c3)" by fastforce
    have c3: "media_log c3 = L" using media_replies(2) [OF c2, of ?rt s csid ts tid "Some (streamID new)"] rp by simp
    show ?thesis using media_table(1) [OF c3] c2 c3 Ok m ch rp cb
      by (cases o2; cases o3) (simp_all add: serverControlConnected_createStream_def)
  next
    case (Err e)
    obtain o3 c3 where rp: "on_world (ReplyCreateStream ?rt s csid ts tid None) c1 = (o3, c3)" by fastforce
    have "media_log c3 = L" using media_replies(2) [OF c1, of ?rt s csid ts tid None] rp by simp
    then show ?thesis using Err m rp cb by (cases o3) (simp_all add: serverControlConnected_createStream_def)
  qed (use c1 m cb in \<open>simp add: serverControlConnected_createStream_def\<close>)
qed

lemma media_connected:
  assumes "media_log c = L"
  shows "media_log (snd (serverControlConnected_onCommand (relay_runtime E h rt) s csid ts tid body c)) = L"
proof (cases body)
  case NetConnectionCreateStream
  then show ?thesis by (simp add: serverControlConnected_onCommand_def media_deferred media_created [OF assms] media_replies)
next
  case (NetStreamDeleteStream target)
  then show ?thesis using assms
    by (auto simp: serverControlConnected_onCommand_def relayHandler_def DefaultHandler_def Let_def intro!: media_bindo media_table media_skip)
qed (use assms in \<open>simp_all add: serverControlConnected_onCommand_def pass_through_def relayHandler_def DefaultHandler_def Let_def media_skip\<close>)

lemma media_accept:
  assumes "media_log c = L" "\<And>c. media_log c = L \<Longrightarrow> media_log (snd (changed c)) = L"
  shows "media_log (snd (inactive_accept rt s csid ts (on_relay f) failed succeeded changed c)) = L"
proof -
  obtain o1 c1 where b: "on_world (on_relay f) c = (o1, c1)" by fastforce
  have c1: "media_log c1 = L" using media_relay [OF assms(1), of f] b by simp
  obtain o2 c2 where r: "on_world (NotifyStatus rt s csid ts failed) c1 = (o2, c2)" by fastforce
  have c2: "media_log c2 = L" using media_replies(3) [OF c1, of rt s csid ts failed] r by simp
  have "media_log (snd (andthen (on_world (NotifyStatus rt s csid ts succeeded) c1) (\<lambda>_ c. changed c))) = L"
    by (intro media_bindo media_replies c1 assms(2))
  then show ?thesis using c1 c2 by (cases o1; cases o2) (simp_all add: inactive_accept_def b r)
qed

lemma media_inactive:
  assumes "media_log c = L"
  shows "media_log (snd (serverDataInactive_onCommand (relay_runtime E h rt) s csid ts body c)) = L"
proof (cases body)
  case (NetStreamPublish name ty)
  show ?thesis unfolding serverDataInactive_onCommand_def NetStreamPublish amf_body.case
    by (simp add: relayHandler_def) (intro media_accept assms media_bindo media_table)
next
  case (NetStreamPlay name start)
  show ?thesis unfolding serverDataInactive_onCommand_def NetStreamPlay amf_body.case
    by (simp add: relayHandler_def) (intro media_accept assms media_table)
qed (simp_all add: serverDataInactive_onCommand_def pass_through_def assms)

lemma media_handlers:
  assumes "media_log c = L"
  shows "media_log (snd (stateHandler_onCommand (relay_runtime E h rt) s csid ts tid body c)) = L"
    "media_log (snd (stateHandler_onData (relay_runtime E h rt) st ts body c)) = L"
    "media_log (snd (stateHandler_onMessage (relay_runtime E h rt) st ts m c)) = L"
  using assms media_connect [OF assms] media_connected [OF assms] media_inactive [OF assms] media_relay [OF assms]
  by (auto simp: stateHandler_onCommand_def clientControlNotConnected_onCommand_def stateHandler_onData_def stateHandler_onMessage_def
      nil_handler_def pass_through_def relayHandler_def split: option.split streamState.split amf_body.split message.split)

lemma media_or_unknown:
  assumes "media_log (snd p) = L" "\<And>c. media_log c = L \<Longrightarrow> media_log (snd (on_world f c)) = L"
  shows "media_log (snd (or_unknown f p)) = L"
  using assms by (cases p; cases "fst p") (auto simp: or_unknown_def)

lemma media_Handle:
  assumes "media_log c = L"
  shows "media_log (snd (Handle (relay_runtime E h rt) s csid ts m c)) = L"
proof -
  note unk = relayHandler_def DefaultHandler_def Let_def
  have reply: "media_log (fst (snd (handleReply s name tid enc body c))) = L" for name tid enc body
    using assms by (auto simp: handleReply_def media_log_def split: prod.split outcome.split)
  have cmd: "media_log (snd (handleCommand (relay_runtime E h rt) s csid ts name tid enc body c)) = L" for name tid enc body
    using reply [of name tid enc body] assms
    by (cases "NewAMF enc")
      (auto simp: handleCommand_def unk split_def intro!: media_or_unknown media_handlers media_skip split: prod.split outcome.split)
  have data: "media_log (snd (handleData (relay_runtime E h rt) s ts name enc body c)) = L" for name enc body
    using assms by (cases "NewAMF enc")
      (auto simp: handleData_def unk intro!: media_or_unknown media_handlers media_skip split: prod.split outcome.split)
  show ?thesis
    by (cases m) (simp_all add: Handle_def cmd data media_table assms media_or_unknown media_handlers unk media_skip)
qed

lemma media_handleMessage:
  assumes "media_log c = L"
  shows "media_log (snd (handleMessage (relay_runtime E h rt) csid ts m c)) = L"
proof (cases "stream_at c (StreamID m)")
  case None
  then show ?thesis using assms by (simp add: handleMessage_def streams_At_def) (simp add: media_log_def)
next
  case (Some s)
  with media_Handle [OF assms, of E h rt s csid ts "Message m"] show ?thesis
    by (auto simp: handleMessage_def streams_At_def split: prod.split outcome.split)
qed

section \<open>The players' connections\<close>

lemma forward_media:
  "subseq (media_log (forward rts ws cs k)) (media_log (cs k) @ map as_log (filter (\<lambda>w. fst w = k) ws))"
proof (induction ws arbitrary: cs)
  case (Cons x ws)
  obtain k' csid ts m where x: "x = (k', csid, ts, m)" by (metis prod.exhaust)
  let ?c = "snd (on_world (Conn_Write (rts k') csid ts m) (cs k'))"
  have one: "subseq (media_log ?c) (media_log (cs k') @ [as_log x])"
  proof -
    obtain res w where w: "Stream_Write (rts k') (StreamID m) csid ts (Message m) (conn_w (cs k')) = (res, w)" by fastforce
    with Stream_Write_log [OF w] show ?thesis
      by (auto simp: on_world_def Conn_Write_def media_log_def as_log_def x intro: list_emb_append2)
  qed
  have "subseq (media_log (forward rts ws (cs(k' := ?c)) k)) (media_log ((cs(k' := ?c)) k) @ map as_log (filter (\<lambda>w. fst w = k) ws))"
    by (rule Cons.IH)
  moreover have "subseq (media_log ((cs(k' := ?c)) k)) (media_log (cs k) @ (if k' = k then [as_log x] else []))"
    using one by (cases "k' = k") auto
  then have "subseq (media_log ((cs(k' := ?c)) k) @ map as_log (filter (\<lambda>w. fst w = k) ws))
      ((media_log (cs k) @ (if k' = k then [as_log x] else [])) @ map as_log (filter (\<lambda>w. fst w = k) ws))"
    by (simp only: subseq_append)
  ultimately have "subseq (media_log (forward rts ws (cs(k' := ?c)) k))
      ((media_log (cs k) @ (if k' = k then [as_log x] else [])) @ map as_log (filter (\<lambda>w. fst w = k) ws))"
    by (rule subseq_order.order_trans)
  moreover have "forward rts (x # ws) cs = forward rts ws (cs(k' := ?c))" by (simp add: forward_def x)
  moreover have "map as_log (filter (\<lambda>w. fst w = k) (x # ws)) =
      (if k' = k then [as_log x] else []) @ map as_log (filter (\<lambda>w. fst w = k) ws)" by (simp add: x)
  ultimately show ?case by (simp only: append_assoc)
qed (simp add: forward_def)

definition net_media :: "('a, 'v, 's) net \<Rightarrow> bool" where
  "net_media N \<longleftrightarrow> (\<forall>k. subseq (media_log (net_conns N k)) (map as_log (sent_to k (net_relay N))))"

lemma media_with_relay [simp]: "media_log (with_relay r c) = media_log c"
  by (simp add: media_log_def with_relay_def)

lemma turn_media:
  assumes "net_media N"
    and "\<And>c L. media_log c = L \<Longrightarrow> media_log (snd (f c)) = L"
    and "\<And>base c. prefix base (r_sent (w_usr (conn_w c))) \<Longrightarrow> prefix base (r_sent (w_usr (conn_w (snd (f c)))))"
  shows "net_media (snd (turn_of rts h f N))"
proof -
  obtain res c where f: "f (with_relay (net_relay N) (net_conns N h)) = (res, c)" by fastforce
  from assms(3) [of "r_sent (net_relay N)" "with_relay (net_relay N) (net_conns N h)"] f
  obtain ws where ws: "r_sent (w_usr (conn_w c)) = r_sent (net_relay N) @ ws" by (auto simp: prefix_def)
  have own: "media_log c = media_log (net_conns N h)"
    using assms(2) [of "with_relay (net_relay N) (net_conns N h)" "media_log (net_conns N h)"] f by simp
  show ?thesis
    unfolding net_media_def
  proof
    fix k
    have "subseq (media_log (forward rts ws ((net_conns N)(h := c)) k))
        (media_log (net_conns N k) @ map as_log (filter (\<lambda>w. fst w = k) ws))"
      using forward_media [of rts ws "(net_conns N)(h := c)" k] own by (cases "k = h") simp_all
    moreover have "subseq (media_log (net_conns N k) @ map as_log (filter (\<lambda>w. fst w = k) ws))
        (map as_log (sent_to k (net_relay N)) @ map as_log (filter (\<lambda>w. fst w = k) ws))"
      using assms(1) by (simp add: net_media_def)
    ultimately have "subseq (media_log (forward rts ws ((net_conns N)(h := c)) k))
        (map as_log (sent_to k (net_relay N)) @ map as_log (filter (\<lambda>w. fst w = k) ws))"
      by (rule subseq_order.order_trans)
    then show "subseq (media_log (net_conns (snd (turn_of rts h f N)) k)) (map as_log (sent_to k (net_relay (snd (turn_of rts h f N)))))"
      by (simp add: turn_of_def f ws sent_to_def)
  qed
qed

lemma media_Close: "media_log (snd (Conn_Close (relay_runtime E h rt) pick rwc_Close c)) = media_log c"
  by (auto simp: Conn_Close_def relayHandler_def on_world_def on_relay_def relay_OnClose_def ChunkStreamer_Close_def Let_def media_log_def)

lemma media_ack:
  "filter (\<lambda>(sid, csid, ts, m). is_media m) (w_log w) = L \<Longrightarrow> filter (\<lambda>(sid, csid, ts, m). is_media m) (w_log (snd (sendAck rt n w))) = L"
  using media_replies(7) [of "c\<lparr>conn_w := w\<rparr>" L rt n for c] by (simp add: media_log_def on_world_def split_def)

lemma media_round:
  assumes "media_log c = L"
  shows "media_log (snd (serve_round (relay_runtime E h rt) pick rwc_Close c)) = L"
proof (rule serve_round_keeps [where Q = "\<lambda>c. media_log c = L", OF assms])
  fix c :: "('a, 'b, 'c) relay Conn"
  show "media_log (snd (Conn_Close (relay_runtime E h rt) pick rwc_Close c)) = L" if "media_log c = L"
    using that by (simp add: media_Close)
  show "media_log (snd (loop_round (relay_runtime E h rt) c)) = L" if "media_log c = L"
  proof (rule loop_round_keeps [where Q = "\<lambda>c. media_log c = L", OF that])
    fix c c' :: "('a, 'b, 'c) relay Conn" and res
    assume "media_log c = L" "Conn_Read (relay_runtime E h rt) c = (res, c')"
    then show "media_log c' = L"
      using Conn_Read_keeps [of "relay_runtime E h rt" c res c' "\<lambda>w. filter (\<lambda>(sid, csid, ts, m). is_media m) (w_log w) = L", OF _ media_ack]
      by (simp add: media_log_def)
  qed (simp add: idle_def media_log_def, rule media_handleMessage)
qed

lemma sent_Close:
  "sent.kept_at base c \<Longrightarrow> sent.kept_at base (snd (Conn_Close (relay_runtime E h rt) pick rwc_Close c))"
  by (simp add: sent.kept_at_def Conn_Close_frame OnClose_sent)

lemma sent_round:
  "sent.kept_at base c \<Longrightarrow> sent.kept_at base (snd (serve_round (relay_runtime E h rt) pick rwc_Close c))"
  by (erule serve_round_keeps [where Q = "sent.kept_at base"]) (erule sent.kept.loop_round_P sent_Close)+

lemma net_step_media:
  assumes "net_media N"
  shows "net_media (snd (net_step E rts e N))"
proof (cases e)
  case (Serves h pick rwc_Close)
  have "net_media (snd (turn_of rts h (serve_round (relay_runtime E h (rts h)) pick rwc_Close) N))"
    by (rule turn_media [OF assms media_round]) (use sent_round in \<open>simp_all add: sent.kept_at_def\<close>)
  then show ?thesis by (simp add: Serves)
next
  case (Handles h csid ts m)
  have "net_media (snd (turn_of rts h (handleMessage (relay_runtime E h (rts h)) csid ts m) N))"
    by (rule turn_media [OF assms media_handleMessage]) (use sent.kept.handleMessage_P in \<open>simp_all add: sent.kept_at_def\<close>)
  then show ?thesis using assms by (simp add: Handles)
next
  case (Acks h n)
  have "net_media (snd (turn_of rts h (on_world (sendAck (rts h) n)) N))"
    by (rule turn_media [OF assms media_replies(7)]) (simp_all add: sendAck_frame)
  then show ?thesis by (simp add: Acks)
next
  case (Idles h)
  have "net_media (snd (turn_of rts h (\<lambda>c. (Ok (), idle (rts h) c)) N))"
    by (rule turn_media [OF assms]) (simp_all add: idle_def media_log_def)
  then show ?thesis by (simp add: Idles)
next
  case (Ends h pick rwc_Close)
  have "net_media (snd (turn_of rts h (Conn_Close (relay_runtime E h (rts h)) pick rwc_Close) N))"
    by (rule turn_media [OF assms]) (simp_all add: media_Close Conn_Close_frame OnClose_sent)
  then show ?thesis by (simp add: Ends)
next
  case (Asks rnd form_ok channel)
  have "r_sent (snd (handler rnd form_ok channel r)) = r_sent r" for r :: "('a, 'b, 'c) relay"
    by (simp add: handler_def Cache_Set_def Let_def)
  then show ?thesis using assms by (simp add: Asks net_media_def sent_to_def)
qed

lemma net_run_media: "net_media N \<Longrightarrow> net_media (net_run E rts es N)"
  by (induction es arbitrary: N) (simp_all add: net_run_def net_step_media)

section \<open>Properties\<close>

lemma opened_new: "media_log (opened tr w cfg r) = []" "w_usr (conn_w (opened tr w cfg r)) = r"
  "w_http (conn_w (opened tr w cfg r)) = []"
  by (simp_all add: opened_def media_log_def on_streams_def newConn_def Let_def split_def)

lemma opened_serving:
  assumes "encodes E \<Longrightarrow> relay_ok r"
  shows "serving E h (opened tr w cfg r)"
proof -
  let ?c = "newConn tr w cfg r"
  have new: "serving E h ?c"
    using assms by (simp add: serving_def server_ok_def newConn_def Let_def streams_ok_new) (simp add: newStreams_def)
  have s: "settable streamStateServerNotConnected" "streamStateServerNotConnected \<in> states_of ControlStreamID"
    by (simp_all add: settable_def states_of_def)
  obtain res c1 where c1: "on_streams (streams_Create ControlStreamID) ?c = (res, c1)" by fastforce
  show "serving E h (opened tr w cfg r)"
  proof (cases res)
    case (Ok st)
    with c1 have c1: "on_streams (streams_Create ControlStreamID) ?c = (Ok st, c1)" by simp
    show ?thesis
      using serving_created [OF new c1 server_ok_create(1) [OF _ c1 s] s(1)] new by (simp add: opened_def c1 serving_def)
  next
    case (Err e)
    with c1 have "c1 = ?c" using strms.create_Err [of ControlStreamID "conn_streams ?c" e] by (auto simp: on_streams_def split: prod.splits)
    moreover have "stream_at ?c ControlStreamID = None" by (simp add: newConn_def newStreams_def Let_def)
    ultimately show ?thesis using new by (simp add: opened_def c1 ChangeState_def)
  next
    case (Panic m)
    with c1 show ?thesis using strms.create_total [of ControlStreamID "conn_streams ?c" m] by (auto simp: on_streams_def split: prod.splits)
  qed
qed

lemma net_start_ok: "encodes E \<Longrightarrow> net_ok E (net_start tps ws cfgs)" "net_media (net_start tps ws cfgs)"
proof -
  assume "encodes E"
  then have ok: "relay_ok (NewRelayService :: ('a, 'b, 'c) relay)" using relay_reach_ok [OF relay_reach.fresh] by blast
  have "serving E h (with_relay NewRelayService (opened (tps h) (ws h) (cfgs h) NewRelayService))" for h
    by (rule serving_cong [OF opened_serving [OF ok]]) (simp_all add: opened_new)
  then show "net_ok E (net_start tps ws cfgs)" by (simp add: net_ok_def net_start_def)
next
  show "net_media (net_start tps ws cfgs)" by (simp add: net_media_def net_start_def opened_new)
qed


definition sampleRelayRt :: "nat \<Rightarrow> (unit, bool, nat) relay runtime" where
  "sampleRelayRt h = \<lparr>rt_lib = plainAmf, rt_ms = sampleMs, rt_turn = sampleTurn, rt_idle = (\<lambda>out. out), rt_cfg = sampleConnCfg\<rparr>"


end
