(* ===== verification/Frames.thy ===== *)
theory Frames
  imports ByteOrder
begin

text \<open>
  integration/messaging-client: the frames of the messaging protocol and the client that sends and receives
  them. JSON and the clock are the argument \<open>msg_env\<close>; times are in milliseconds, as they travel. The
  receiving loop may not end, so it is a partial function into an option, \<open>None\<close> being a loop without an end.
\<close>

section \<open>Frames\<close>

type_synonym FrameType = byte

definition FrameTypeMessage :: FrameType where "FrameTypeMessage = 0x01"
definition FrameTypeAck :: FrameType where "FrameTypeAck = 0x02"
definition FrameTypeHeartbeat :: FrameType where "FrameTypeHeartbeat = 0x03"

lemmas frame_types = FrameTypeMessage_def FrameTypeAck_def FrameTypeHeartbeat_def

record ProtocolFrame =
  frType :: FrameType
  frPayload :: "byte list"
  frSequenceNumber :: u64
  frTimestamp :: i64

definition EncodeFrame :: "ProtocolFrame \<Rightarrow> byte list" where
  "EncodeFrame f = [frType f] @ put_be 8 (frSequenceNumber f) @ put_be 8 (frTimestamp f) @
     put_be 8 (of_nat (length (frPayload f)) :: u64) @ frPayload f"

text \<open>
  \<open>int (payloadSize)\<close> reads the size with a sign, and the addition wraps around. \<open>make\<close> panics on a size the
  runtime cannot allocate, at most \<open>maxAlloc\<close> bytes on a 64-bit machine.
\<close>

definition maxAlloc :: nat where
  "maxAlloc = 2 ^ 48"

definition frameSize :: "u64 \<Rightarrow> int" where
  "frameSize payloadSize = sint (25 + payloadSize)"

definition DecodeFrame :: "byte list \<Rightarrow> ProtocolFrame outcome" where
  "DecodeFrame data =
     (if length data < 25 then Err (Errorf ''frame too short'' [])
      else
        let payloadSize = get_be (take 8 (drop 17 data)) in
        if int (length data) < frameSize payloadSize then Err (Errorf ''payload incomplete'' [])
        else if unat payloadSize > maxAlloc then Panic ''makeslice: len out of range''
        else Ok \<lparr>frType = data ! 0, frPayload = take (unat payloadSize) (drop 25 data),
                 frSequenceNumber = get_be (take 8 (drop 1 data)), frTimestamp = get_be (take 8 (drop 9 data))\<rparr>)"

section \<open>Messages\<close>

record MsgMessage =
  msgID :: string
  msgTimestamp :: i64
  msgPayload :: "byte list"
  msgTopic :: "string option"
  msgPriority :: int

record MessageEnvelope =
  envMessage :: MsgMessage
  envSource :: string
  envDestination :: "string option"
  envMetadata :: "(string \<times> string) list"

text \<open>
  \<open>now_ms\<close> and \<open>now_id\<close> are the clock, by what has been written so far; \<open>conn_err\<close> is the error of a write.
\<close>

record msg_env =
  json_marshal :: "MessageEnvelope \<Rightarrow> byte list outcome"
  json_ack :: "byte list \<Rightarrow> (string \<times> string) option"
  json_envelope :: "byte list \<Rightarrow> MessageEnvelope option"
  now_ms :: "byte list list \<Rightarrow> i64"
  now_id :: "byte list list \<Rightarrow> string"
  conn_err :: "byte list list \<Rightarrow> go_err option"

section \<open>The client\<close>

datatype shown = ShownAck string string | ShownMessage "byte list" | ShownBadFrame go_err | ShownReadError go_err

record MsgClient =
  mc_conn :: bool
  mc_connected :: bool
  sequenceNum :: u64
  receiveBuffer :: "byte list"
  mc_wire :: "byte list list"
  mc_shown :: "shown list"

definition NewClient :: MsgClient where
  "NewClient = \<lparr>mc_conn = False, mc_connected = False, sequenceNum = 0, receiveBuffer = [], mc_wire = [], mc_shown = []\<rparr>"

text \<open>\<open>dialed\<close> is the error of dialling the server.\<close>

definition MsgClient_Connect :: "go_err option \<Rightarrow> MsgClient \<Rightarrow> unit outcome \<times> MsgClient" where
  "MsgClient_Connect dialed c =
     (case dialed of
        Some e \<Rightarrow> (Err (Wrap e ''failed to connect''), c)
      | None \<Rightarrow> (Ok (), c\<lparr>mc_conn := True, mc_connected := True\<rparr>))"

definition MsgClient_Disconnect :: "go_err option \<Rightarrow> MsgClient \<Rightarrow> unit outcome \<times> MsgClient" where
  "MsgClient_Disconnect closed c =
     (if \<not> mc_connected c \<or> \<not> mc_conn c then (Ok (), c)
      else ((case closed of None \<Rightarrow> Ok () | Some e \<Rightarrow> Err e), c\<lparr>mc_connected := False\<rparr>))"

definition PriorityLow :: int where "PriorityLow = 0"
definition PriorityNormal :: int where "PriorityNormal = 1"
definition PriorityHigh :: int where "PriorityHigh = 2"
definition PriorityCritical :: int where "PriorityCritical = 3"

definition NewMessage :: "msg_env \<Rightarrow> byte list \<Rightarrow> string \<Rightarrow> int \<Rightarrow> MsgClient \<Rightarrow> MsgMessage" where
  "NewMessage E payload topic priority c = \<lparr>msgID = now_id E (mc_wire c), msgTimestamp = now_ms E (mc_wire c),
     msgPayload = payload, msgTopic = Some topic, msgPriority = priority\<rparr>"

definition NewMessageEnvelope :: "MsgMessage \<Rightarrow> string \<Rightarrow> MessageEnvelope" where
  "NewMessageEnvelope m source = \<lparr>envMessage = m, envSource = source, envDestination = None, envMetadata = []\<rparr>"

definition ToFrame :: "msg_env \<Rightarrow> i64 \<Rightarrow> u64 \<Rightarrow> MessageEnvelope \<Rightarrow> ProtocolFrame outcome" where
  "ToFrame E now seq e = bindr (json_marshal E e) (\<lambda>payload.
     Ok \<lparr>frType = FrameTypeMessage, frPayload = payload, frSequenceNumber = seq, frTimestamp = now\<rparr>)"

text \<open>A write to a connection that \<open>Disconnect\<close> has closed fails.\<close>

definition net_Write :: "msg_env \<Rightarrow> byte list \<Rightarrow> MsgClient \<Rightarrow> unit outcome \<times> MsgClient" where
  "net_Write E data c =
     (if \<not> mc_connected c then (Err (Errorf ''use of closed network connection'' []), c)
      else
        (case conn_err E (mc_wire c) of
           Some e \<Rightarrow> (Err e, c)
         | None \<Rightarrow> (Ok (), c\<lparr>mc_wire := mc_wire c @ [data]\<rparr>)))"

text \<open>
  \<open>Send\<close> in the two parts between which another goroutine can run: the sequence number is taken under its lock, the
  frame is written later on the connection that was read before.
\<close>

definition next_number :: "MsgClient \<Rightarrow> u64 \<times> MsgClient" where
  "next_number c = (sequenceNum c, c\<lparr>sequenceNum := sequenceNum c + 1\<rparr>)"

definition Send_number :: "MsgClient \<Rightarrow> u64 outcome \<times> MsgClient" where
  "Send_number c =
     (if \<not> mc_connected c \<or> \<not> mc_conn c then (Err (Errorf ''not connected'' []), c)
      else let (seq, c) = next_number c in (Ok seq, c))"

definition Send_write :: "msg_env \<Rightarrow> MessageEnvelope \<Rightarrow> u64 \<Rightarrow> MsgClient \<Rightarrow> unit outcome \<times> MsgClient" where
  "Send_write E envelope seq c =
     (case ToFrame E (now_ms E (mc_wire c)) seq envelope of
        Err e \<Rightarrow> (Err (Wrap e ''failed to create frame''), c)
      | Panic m \<Rightarrow> (Panic m, c)
      | Ok frame \<Rightarrow> apfst (map_outcome_err (\<lambda>e. Wrap e ''failed to write'')) (net_Write E (EncodeFrame frame) c))"

definition Send :: "msg_env \<Rightarrow> MessageEnvelope \<Rightarrow> MsgClient \<Rightarrow> unit outcome \<times> MsgClient" where
  "Send E envelope c = andthen (Send_number c) (Send_write E envelope)"

text \<open>A write whose error is dropped, when there is a connection.\<close>

definition write_dropped :: "msg_env \<Rightarrow> byte list \<Rightarrow> MsgClient \<Rightarrow> MsgClient" where
  "write_dropped E data c = (if mc_connected c \<and> mc_conn c then snd (net_Write E data c) else c)"

definition heartbeat :: "msg_env \<Rightarrow> u64 \<Rightarrow> MsgClient \<Rightarrow> MsgClient" where
  "heartbeat E seq c =
     write_dropped E (EncodeFrame \<lparr>frType = FrameTypeHeartbeat, frPayload = [], frSequenceNumber = seq,
       frTimestamp = now_ms E (mc_wire c)\<rparr>) c"

text \<open>One tick of \<open>heartbeatLoop\<close>; the loop ends at the first tick without a connection.\<close>

definition heartbeat_tick :: "msg_env \<Rightarrow> MsgClient \<Rightarrow> bool \<times> MsgClient" where
  "heartbeat_tick E c =
     (if \<not> mc_connected c then (False, c)
      else let (seq, c) = next_number c in (True, heartbeat E seq c))"

section \<open>Receiving\<close>

definition show_it :: "shown \<Rightarrow> MsgClient \<Rightarrow> MsgClient" where
  "show_it s c = c\<lparr>mc_shown := mc_shown c @ [s]\<rparr>"

definition handleFrame :: "msg_env \<Rightarrow> ProtocolFrame \<Rightarrow> MsgClient \<Rightarrow> MsgClient" where
  "handleFrame E f c =
     (if frType f = FrameTypeAck then
        (case json_ack E (frPayload f) of None \<Rightarrow> c | Some (mid, st) \<Rightarrow> show_it (ShownAck mid st) c)
      else if frType f = FrameTypeMessage then
        (case json_envelope E (frPayload f) of None \<Rightarrow> c | Some e \<Rightarrow> show_it (ShownMessage (msgPayload (envMessage e))) c)
      else if frType f = FrameTypeHeartbeat then heartbeat E (frSequenceNumber f) c
      else c)"

text \<open>\<open>next_frame\<close> is one round of the loop: the end of it, a panic, or the client after the next frame.\<close>

datatype round = Done | Crash string | More MsgClient

definition next_frame :: "msg_env \<Rightarrow> MsgClient \<Rightarrow> round" where
  "next_frame E c =
     (let buffer = receiveBuffer c in
      if length buffer < 25 then Done
      else
        let total = frameSize (get_be (take 8 (drop 17 buffer))) in
        if int (length buffer) < total then Done
        else if total < 0 then Crash ''makeslice: len out of range''
        else
          let c = c\<lparr>receiveBuffer := drop (nat total) buffer\<rparr> in
          (case DecodeFrame (take (nat total) buffer) of
             Err e \<Rightarrow> More (show_it (ShownBadFrame e) c)
           | Panic m \<Rightarrow> Crash m
           | Ok f \<Rightarrow> More (handleFrame E f c)))"

partial_function (option) processBuffer :: "msg_env \<Rightarrow> MsgClient \<Rightarrow> (unit outcome \<times> MsgClient) option" where
  "processBuffer E c =
     (case next_frame E c of
        Done \<Rightarrow> Some (Ok (), c)
      | Crash m \<Rightarrow> Some (Panic m, c)
      | More c' \<Rightarrow> processBuffer E c')"

text \<open>
  \<open>receiveLoop\<close> over the reads from the connection: bytes, at most the buffer's size, or the error that ends it.
\<close>

fun receiveLoop :: "msg_env \<Rightarrow> (byte list + go_err) list \<Rightarrow> MsgClient \<Rightarrow> (unit outcome \<times> MsgClient) option" where
  "receiveLoop E [] c = Some (Ok (), c)"
| "receiveLoop E (Inr e # rs) c =
     (if \<not> mc_connected c then Some (Ok (), c)
      else if e = EOF then Some (Ok (), c)
      else Some (Ok (), show_it (ShownReadError e) c))"
| "receiveLoop E (Inl bs # rs) c =
     (if \<not> mc_connected c then Some (Ok (), c)
      else
        (case processBuffer E (c\<lparr>receiveBuffer := receiveBuffer c @ bs\<rparr>) of
           None \<Rightarrow> None
         | Some (Ok _, c) \<Rightarrow> receiveLoop E rs c
         | Some (res, c) \<Rightarrow> Some (res, c)))"

section \<open>Frames and the bytes around them\<close>

definition frame_ok :: "ProtocolFrame \<Rightarrow> bool" where
  "frame_ok f \<longleftrightarrow> length (frPayload f) \<le> maxAlloc"

lemma frameSize_small:
  assumes "n \<le> maxAlloc"
  shows "frameSize (of_nat n) = 25 + int n" "unat (of_nat n :: u64) = n"
proof -
  have n: "n < 2 ^ 49" using assms by (simp add: maxAlloc_def)
  then show u: "unat (of_nat n :: u64) = n" by (simp add: unsigned_of_nat take_bit_nat_eq_self)
  have "(25 + of_nat n :: u64) = of_nat (25 + n)" by simp
  moreover have "sint (of_nat (25 + n) :: u64) = int (25 + n)"
    using n by (simp only: signed_of_nat) (simp add: signed_take_bit_int_eq_self)
  ultimately show "frameSize (of_nat n) = 25 + int n" by (simp add: frameSize_def)
qed

lemma EncodeFrame_parts:
  "length (EncodeFrame f) = 25 + length (frPayload f)" "EncodeFrame f ! 0 = frType f"
  "take 8 (drop 1 (EncodeFrame f @ rest)) = put_be 8 (frSequenceNumber f)"
  "take 8 (drop 9 (EncodeFrame f @ rest)) = put_be 8 (frTimestamp f)"
  "take 8 (drop 17 (EncodeFrame f @ rest)) = put_be 8 (of_nat (length (frPayload f)) :: u64)"
  "drop 25 (EncodeFrame f) = frPayload f"
  by (simp_all add: EncodeFrame_def)

lemma Decode_EncodeFrame:
  assumes "frame_ok f"
  shows "DecodeFrame (EncodeFrame f) = Ok f"
  using EncodeFrame_parts(3-5) [of f "[]"] EncodeFrame_parts(1,2,6) [of f] frameSize_small [of "length (frPayload f)"] assms
  by (simp add: DecodeFrame_def frame_ok_def Let_def wire)

section \<open>Runs of the receiving loop\<close>

inductive runs :: "msg_env \<Rightarrow> MsgClient \<Rightarrow> unit outcome \<times> MsgClient \<Rightarrow> bool" for E where
  run_stop: "next_frame E c = Done \<Longrightarrow> runs E c (Ok (), c)"
| run_crash: "next_frame E c = Crash m \<Longrightarrow> runs E c (Panic m, c)"
| run_more: "next_frame E c = More c' \<Longrightarrow> runs E c' r \<Longrightarrow> runs E c r"

inductive_cases runs_cases: "runs E c r"

lemma processBuffer_runs: "processBuffer E c = Some r \<longleftrightarrow> runs E c r"
proof
  assume p: "processBuffer E c = Some r"
  show "runs E c r"
  proof (rule processBuffer.raw_induct [OF _ p])
    fix f E c r
    assume "\<And>E c r. f E c = Some r \<Longrightarrow> runs E c r"
      and "(case next_frame E c of Done \<Rightarrow> Some (Ok (), c) | Crash m \<Rightarrow> Some (Panic m, c) | More c' \<Rightarrow> f E c') = Some r"
    then show "runs E c r" by (cases r; cases "next_frame E c") (auto intro: runs.intros)
  qed
next
  show "runs E c r \<Longrightarrow> processBuffer E c = Some r"
    by (induction rule: runs.induct) (simp_all add: processBuffer.simps)
qed

lemma runs_done: "runs E c (Ok (), c') \<Longrightarrow> next_frame E c' = Done"
  by (induction c "(Ok () :: unit outcome, c')" rule: runs.induct) simp_all

text \<open>Handling a frame does not look at the bytes behind it.\<close>

lemma handleFrame_buffer: "handleFrame E f (c\<lparr>receiveBuffer := b\<rparr>) = (handleFrame E f c)\<lparr>receiveBuffer := b\<rparr>"
  by (simp add: handleFrame_def show_it_def heartbeat_def write_dropped_def net_Write_def split: option.split)

lemma handleFrame_frame [simp]:
  "receiveBuffer (handleFrame E f c) = receiveBuffer c" "mc_connected (handleFrame E f c) = mc_connected c"
  by (simp_all add: handleFrame_def show_it_def heartbeat_def write_dropped_def net_Write_def split: option.split)

lemma handled_buffer: "fold (handleFrame E) fs (c\<lparr>receiveBuffer := b\<rparr>) = (fold (handleFrame E) fs c)\<lparr>receiveBuffer := b\<rparr>"
  by (induction fs arbitrary: c) (simp_all add: handleFrame_buffer)

lemma header_append: "25 \<le> length b \<Longrightarrow> take 8 (drop 17 (b @ b2)) = take 8 (drop 17 b)"
  by simp

lemma next_frame_at:
  assumes "25 \<le> length b" "0 \<le> frameSize (get_be (take 8 (drop 17 b)))"
    "frameSize (get_be (take 8 (drop 17 b))) \<le> int (length b)"
  shows "next_frame E (c\<lparr>receiveBuffer := b\<rparr>) =
    (let n = nat (frameSize (get_be (take 8 (drop 17 b)))); c' = c\<lparr>receiveBuffer := drop n b\<rparr> in
     case DecodeFrame (take n b) of
       Err e \<Rightarrow> More (show_it (ShownBadFrame e) c') | Panic m \<Rightarrow> Crash m | Ok f \<Rightarrow> More (handleFrame E f c'))"
  using assms by (simp add: next_frame_def Let_def cong: outcome.case_cong)

lemma next_frame_more:
  assumes "next_frame E (c\<lparr>receiveBuffer := b\<rparr>) = More c'"
  shows "next_frame E (c\<lparr>receiveBuffer := b @ b2\<rparr>) = More (c'\<lparr>receiveBuffer := receiveBuffer c' @ b2\<rparr>)"
    "mc_connected c' = mc_connected c"
proof -
  let ?n = "frameSize (get_be (take 8 (drop 17 b)))"
  have n: "25 \<le> length b" "0 \<le> ?n" "?n \<le> int (length b)"
    using assms by (simp_all add: next_frame_def Let_def split: if_splits)
  have t: "take (nat ?n) (b @ b2) = take (nat ?n) b" "drop (nat ?n) (b @ b2) = drop (nat ?n) b @ b2"
    using n by simp_all
  have sz: "frameSize (get_be (take 8 (drop 17 (b @ b2)))) = ?n" by (simp only: header_append [OF n(1)])
  let ?c = "c\<lparr>receiveBuffer := drop (nat ?n) b\<rparr>"
  have whole: "next_frame E (c\<lparr>receiveBuffer := b @ b2\<rparr>) = (case DecodeFrame (take (nat ?n) b) of
      Err e \<Rightarrow> More (show_it (ShownBadFrame e) (c\<lparr>receiveBuffer := drop (nat ?n) b @ b2\<rparr>))
    | Panic m \<Rightarrow> Crash m | Ok f \<Rightarrow> More (handleFrame E f (c\<lparr>receiveBuffer := drop (nat ?n) b @ b2\<rparr>)))"
    using next_frame_at [of "b @ b2" E c] n unfolding sz t Let_def by simp
  note part = next_frame_at [OF n, of E c, unfolded Let_def]
  show "next_frame E (c\<lparr>receiveBuffer := b @ b2\<rparr>) = More (c'\<lparr>receiveBuffer := receiveBuffer c' @ b2\<rparr>)"
    using assms unfolding whole part
    by (auto simp: show_it_def handleFrame_buffer split: outcome.splits)
  show "mc_connected c' = mc_connected c"
    using assms unfolding part by (auto simp: show_it_def split: outcome.splits)
qed

lemma next_frame_crash:
  assumes "next_frame E (c\<lparr>receiveBuffer := b\<rparr>) = Crash m"
  shows "next_frame E (c\<lparr>receiveBuffer := b @ b2\<rparr>) = Crash m"
proof -
  let ?n = "frameSize (get_be (take 8 (drop 17 b)))"
  have n: "25 \<le> length b" "?n \<le> int (length b)"
    using assms by (simp_all add: next_frame_def Let_def split: if_splits)
  have sz: "frameSize (get_be (take 8 (drop 17 (b @ b2)))) = ?n" by (simp only: header_append [OF n(1)])
  show ?thesis
  proof (cases "?n < 0")
    case True
    then show ?thesis using assms n unfolding next_frame_def Let_def by (simp add: sz)
  next
    case False
    with n have "take (nat ?n) (b @ b2) = take (nat ?n) b" by simp
    with False show ?thesis using assms n unfolding next_frame_def Let_def
      by (simp add: sz split: outcome.splits)
  qed
qed

text \<open>Processing what came first and then the rest is processing it all.\<close>

lemma runs_split:
  assumes "runs E (c\<lparr>receiveBuffer := b1 @ b2\<rparr>) (Ok (), c')"
  shows "\<exists>c1. runs E (c\<lparr>receiveBuffer := b1\<rparr>) (Ok (), c1) \<and> mc_connected c1 = mc_connected c \<and>
    runs E (c1\<lparr>receiveBuffer := receiveBuffer c1 @ b2\<rparr>) (Ok (), c')"
  using assms
proof (induction "c\<lparr>receiveBuffer := b1 @ b2\<rparr>" "(Ok () :: unit outcome, c')" arbitrary: c b1 rule: runs.induct)
  case run_stop
  then show ?case
  proof (cases "next_frame E (c\<lparr>receiveBuffer := b1\<rparr>)")
    case Done
    with run_stop show ?thesis by (intro exI [of _ "c\<lparr>receiveBuffer := b1\<rparr>"]) (auto intro: runs.run_stop)
  qed (use next_frame_more next_frame_crash in fastforce)+
next
  case (run_more c2)
  show ?case
  proof (cases "next_frame E (c\<lparr>receiveBuffer := b1\<rparr>)")
    case Done
    then show ?thesis using runs.run_more [OF run_more(1,2)]
      by (intro exI [of _ "c\<lparr>receiveBuffer := b1\<rparr>"]) (auto intro: runs.run_stop)
  next
    case (Crash m)
    with next_frame_crash [OF Crash, of b2] run_more(1) show ?thesis by simp
  next
    case (More c1)
    note nf = next_frame_more [OF More]
    have c2: "c2 = c1\<lparr>receiveBuffer := receiveBuffer c1 @ b2\<rparr>" using nf(1) [of b2] run_more(1) by simp
    from run_more(3) [OF c2] obtain c3 where "runs E (c1\<lparr>receiveBuffer := receiveBuffer c1\<rparr>) (Ok (), c3)"
        "mc_connected c3 = mc_connected c1" "runs E (c3\<lparr>receiveBuffer := receiveBuffer c3 @ b2\<rparr>) (Ok (), c')" by blast
    with runs.run_more [OF More] nf(2) show ?thesis by auto
  qed
qed

lemma receive_whole:
  "mc_connected c \<Longrightarrow> next_frame E c = Done \<Longrightarrow> runs E (c\<lparr>receiveBuffer := receiveBuffer c @ concat segs\<rparr>) (Ok (), c') \<Longrightarrow>
   receiveLoop E (map Inl segs) c = Some (Ok (), c')"
proof (induction segs arbitrary: c)
  case Nil
  then have "processBuffer E c = Some (Ok (), c')" by (simp add: processBuffer_runs)
  with Nil(2) show ?case by (simp add: processBuffer.simps)
next
  case (Cons bs segs)
  from runs_split [of E "receiveBuffer c @ bs" "concat segs" c c'] Cons.prems(3) obtain c1 where c1:
    "runs E (c\<lparr>receiveBuffer := receiveBuffer c @ bs\<rparr>) (Ok (), c1)" "mc_connected c1 = mc_connected c"
    "runs E (c1\<lparr>receiveBuffer := receiveBuffer c1 @ concat segs\<rparr>) (Ok (), c')" by auto
  from Cons.IH [OF _ runs_done [OF c1(1)] c1(3)] c1(1,2) Cons.prems(1) show ?case
    by (simp add: processBuffer_runs [THEN iffD2])
qed

section \<open>Properties\<close>

lemma next_frame_encoded:
  assumes "frame_ok f"
  shows "next_frame E (c\<lparr>receiveBuffer := EncodeFrame f @ rest\<rparr>) = More ((handleFrame E f c)\<lparr>receiveBuffer := rest\<rparr>)"
proof -
  let ?b = "EncodeFrame f @ rest"
  have n: "frameSize (get_be (take 8 (drop 17 ?b))) = 25 + int (length (frPayload f))"
    using frameSize_small(1) [of "length (frPayload f)"] assms unfolding EncodeFrame_parts(5) by (simp add: wire frame_ok_def)
  have "nat (25 + int (length (frPayload f))) = length (EncodeFrame f)" by (simp add: EncodeFrame_parts(1))
  with next_frame_at [of ?b E c] n show ?thesis
    by (simp add: EncodeFrame_parts(1) Decode_EncodeFrame [OF assms] handleFrame_buffer Let_def)
qed

lemma next_frame_incomplete:
  assumes "frame_ok f" "rest @ missing = EncodeFrame f" "missing \<noteq> []" "receiveBuffer c = rest"
  shows "next_frame E c = Done"
proof (cases "length rest < 25")
  case False
  then have "take 8 (drop 17 rest) = take 8 (drop 17 (EncodeFrame f))" by (simp flip: assms(2))
  also have "\<dots> = put_be 8 (of_nat (length (frPayload f)) :: u64)" using EncodeFrame_parts(5) [of f "[]"] by simp
  finally have n: "frameSize (get_be (take 8 (drop 17 rest))) = 25 + int (length (frPayload f))"
    using frameSize_small(1) assms(1) by (simp add: wire frame_ok_def)
  have "length rest < 25 + length (frPayload f)"
    using arg_cong [OF assms(2), of length] assms(3) by (simp add: EncodeFrame_parts(1) flip: length_greater_0_conv)
  with n False show ?thesis by (simp add: next_frame_def Let_def assms(4))
qed (simp add: next_frame_def Let_def assms(4))

lemma receive_frames:
  assumes "mc_connected c" "receiveBuffer c = []" "list_all frame_ok fs" "frame_ok next_one"
    and "concat segs = concat (map EncodeFrame fs) @ rest" "rest @ missing = EncodeFrame next_one" "missing \<noteq> []"
  shows "receiveLoop E (map Inl segs) c = Some (Ok (), (fold (handleFrame E) fs c)\<lparr>receiveBuffer := rest\<rparr>)"
proof (rule receive_whole [OF assms(1)])
  show "next_frame E c = Done" by (simp add: next_frame_def assms(2))
  have "runs E (c\<lparr>receiveBuffer := concat (map EncodeFrame fs) @ rest\<rparr>) (Ok (), (fold (handleFrame E) fs c)\<lparr>receiveBuffer := rest\<rparr>)"
    using assms(3)
  proof (induction fs arbitrary: c)
    case Nil
    show ?case using next_frame_incomplete [OF assms(4,6,7)] by (auto intro: runs.intros)
  next
    case (Cons f fs)
    have "runs E ((handleFrame E f c)\<lparr>receiveBuffer := concat (map EncodeFrame fs) @ rest\<rparr>)
        (Ok (), (fold (handleFrame E) fs (handleFrame E f c))\<lparr>receiveBuffer := rest\<rparr>)"
      using Cons by simp
    with runs.run_more [OF next_frame_encoded] Cons.prems show ?case by simp
  qed
  then show "runs E (c\<lparr>receiveBuffer := receiveBuffer c @ concat segs\<rparr>) (Ok (), (fold (handleFrame E) fs c)\<lparr>receiveBuffer := rest\<rparr>)"
    by (simp add: assms(2,5))
qed

text \<open>
  C14. However the connection cuts the bytes up, the client handles exactly the frames that were sent, each once and in
  order, and keeps the beginning of the next one.
\<close>

theorem frames_delivered:
  assumes "mc_connected c" "receiveBuffer c = []" "list_all frame_ok fs" "frame_ok next"
    and "concat segs = concat (map EncodeFrame fs) @ rest" "rest @ missing = EncodeFrame next" "missing \<noteq> []"
  shows "receiveLoop E (map Inl segs) c = Some (Ok (), (fold (handleFrame E) fs c)\<lparr>receiveBuffer := rest\<rparr>)"
  by (rule receive_frames [OF assms])

definition sampleMsgEnv :: msg_env where
  "sampleMsgEnv = \<lparr>json_marshal = (\<lambda>e. Ok (msgPayload (envMessage e))), json_ack = (\<lambda>_. Some (''m'', ''delivered'')),
     json_envelope = (\<lambda>_. None), now_ms = (\<lambda>_. 7), now_id = (\<lambda>_. ''id''), conn_err = (\<lambda>_. None)\<rparr>"

definition sampleClient :: MsgClient where
  "sampleClient = snd (MsgClient_Connect None NewClient)"

definition sampleAck :: ProtocolFrame where
  "sampleAck = \<lparr>frType = FrameTypeAck, frPayload = [1, 2], frSequenceNumber = 3, frTimestamp = 4\<rparr>"

theorem frames_delivered_witness:
  "receiveLoop sampleMsgEnv (map Inl [take 20 (EncodeFrame sampleAck), drop 20 (EncodeFrame sampleAck) @ [2]]) sampleClient =
     Some (Ok (), sampleClient\<lparr>mc_shown := [ShownAck ''m'' ''delivered''], receiveBuffer := [2]\<rparr>)"
proof -
  have ok: "frame_ok sampleAck" by (simp add: frame_ok_def sampleAck_def maxAlloc_def)
  have "[2] @ tl (EncodeFrame sampleAck) = EncodeFrame sampleAck" "tl (EncodeFrame sampleAck) \<noteq> []"
    by (simp_all add: EncodeFrame_def sampleAck_def FrameTypeAck_def put_be_def numeral_eq_Suc)
  with frames_delivered [of sampleClient "[sampleAck]" sampleAck
      "[take 20 (EncodeFrame sampleAck), drop 20 (EncodeFrame sampleAck) @ [2]]" "[2]" "tl (EncodeFrame sampleAck)" sampleMsgEnv] ok
  show ?thesis
    by (simp add: sampleClient_def MsgClient_Connect_def NewClient_def handleFrame_def sampleAck_def show_it_def sampleMsgEnv_def)
qed

text \<open>
  C36. The peer decides whether the client survives: a frame whose size field is 2 to the 64 less 25 makes the receiving loop
  run for ever, because the frame is empty and the buffer never shrinks, and one whose size field is 2 to the 63 makes it panic.
\<close>

theorem peer_stops_client:
  assumes "mc_connected c" "receiveBuffer c = []" "length header = 17"
  shows "receiveLoop E [Inl (header @ put_be 8 (- 25 :: u64) @ rest)] c = None \<and>
    (\<exists>c'. receiveLoop E [Inl (header @ put_be 8 (0x8000000000000000 :: u64) @ rest)] c =
      Some (Panic ''makeslice: len out of range'', c'))"
proof
  have no: "\<not> runs E c2 r" if "receiveBuffer c2 = header @ put_be 8 (- 25 :: u64) @ rest" for c2 r
  proof
    assume "runs E c2 r"
    then show False
      using that
    proof (induction rule: runs.induct)
      case (run_more c c')
      have c: "c = c\<lparr>receiveBuffer := header @ put_be 8 (- 25 :: u64) @ rest\<rparr>" using run_more(4) by simp
      let ?c = "c\<lparr>receiveBuffer := header @ put_be 8 (- 25 :: u64) @ rest\<rparr>"
      have "next_frame E ?c = More (show_it (ShownBadFrame (Errorf ''frame too short'' [])) ?c)"
        using next_frame_at [of "header @ put_be 8 (- 25 :: u64) @ rest" E c] assms(3)
        by (simp add: frameSize_def wire Let_def DecodeFrame_def)
      then have "next_frame E c = More (show_it (ShownBadFrame (Errorf ''frame too short'' [])) c)" unfolding c [symmetric] .
      with run_more show False by (auto simp: show_it_def)
    qed (simp_all add: next_frame_def assms(3) frameSize_def wire Let_def DecodeFrame_def)
  qed
  then have "processBuffer E (c\<lparr>receiveBuffer := header @ put_be 8 (- 25 :: u64) @ rest\<rparr>) = None"
    by (cases "processBuffer E (c\<lparr>receiveBuffer := header @ put_be 8 (- 25 :: u64) @ rest\<rparr>)") (simp_all add: processBuffer_runs)
  then show "receiveLoop E [Inl (header @ put_be 8 (- 25 :: u64) @ rest)] c = None" using assms(1,2) by simp
  show "\<exists>c'. receiveLoop E [Inl (header @ put_be 8 (0x8000000000000000 :: u64) @ rest)] c =
      Some (Panic ''makeslice: len out of range'', c')"
    using assms by (simp add: processBuffer.simps next_frame_def Let_def wire frameSize_def)
qed

theorem peer_stops_client_witness:
  "receiveLoop sampleMsgEnv [Inl (replicate 17 0 @ put_be 8 (- 25 :: u64) @ [])] sampleClient = None"
  using peer_stops_client [of sampleClient "replicate 17 0" sampleMsgEnv "[]"]
  by (simp add: sampleClient_def MsgClient_Connect_def NewClient_def)

end
