(* ===== verification/Hls.thy ===== *)
theory Hls
  imports Frames Http
begin

text \<open>
  The two HTTP servers beside the RTMP server, in their plain and integrated versions: cchls turns a published
  stream into HLS with ffmpeg, hlsnew serves the segments. The integrated ones tell the messaging
  engine what happens, with the events of streaming-events. Files, processes and JSON are the argument
  \<open>hls_env\<close>. What is printed on the servers' own output is left out.
\<close>

section \<open>Events\<close>

record StreamingEvent =
  evType :: string
  evChannel :: string
  evTimestamp :: i64
  evData :: "(string \<times> string) list"

definition EventTypeStreamStarted :: string where "EventTypeStreamStarted = ''stream.started''"
definition EventTypeStreamStopped :: string where "EventTypeStreamStopped = ''stream.stopped''"
definition EventTypeStreamPlaying :: string where "EventTypeStreamPlaying = ''stream.playing''"
definition EventTypeViewerJoined :: string where "EventTypeViewerJoined = ''viewer.joined''"
definition EventTypeViewerLeft :: string where "EventTypeViewerLeft = ''viewer.left''"
definition EventTypeHLSReady :: string where "EventTypeHLSReady = ''hls.ready''"
definition EventTypeHLSSegmentReady :: string where "EventTypeHLSSegmentReady = ''hls.segment.ready''"
definition EventTypeStreamPublishing :: string where "EventTypeStreamPublishing = ''stream.publishing''"

definition NewStreamingEvent :: "i64 \<Rightarrow> string \<Rightarrow> string \<Rightarrow> (string \<times> string) list \<Rightarrow> StreamingEvent" where
  "NewStreamingEvent now ty channel data = \<lparr>evType = ty, evChannel = channel, evTimestamp = now, evData = data\<rparr>"

definition NewStreamStartedEvent :: "i64 \<Rightarrow> string \<Rightarrow> string \<Rightarrow> StreamingEvent" where
  "NewStreamStartedEvent now channel publisher = NewStreamingEvent now EventTypeStreamStarted channel [(''publisher_id'', publisher)]"

definition NewStreamStoppedEvent :: "i64 \<Rightarrow> string \<Rightarrow> string \<Rightarrow> StreamingEvent" where
  "NewStreamStoppedEvent now channel reason = NewStreamingEvent now EventTypeStreamStopped channel [(''reason'', reason)]"

definition NewViewerJoinedEvent :: "i64 \<Rightarrow> string \<Rightarrow> string \<Rightarrow> StreamingEvent" where
  "NewViewerJoinedEvent now channel viewer = NewStreamingEvent now EventTypeViewerJoined channel [(''viewer_id'', viewer)]"

definition NewViewerLeftEvent :: "i64 \<Rightarrow> string \<Rightarrow> string \<Rightarrow> StreamingEvent" where
  "NewViewerLeftEvent now channel viewer = NewStreamingEvent now EventTypeViewerLeft channel [(''viewer_id'', viewer)]"

definition NewHLSReadyEvent :: "i64 \<Rightarrow> string \<Rightarrow> string \<Rightarrow> StreamingEvent" where
  "NewHLSReadyEvent now channel url = NewStreamingEvent now EventTypeHLSReady channel [(''hls_url'', url)]"

definition NewHLSSegmentReadyEvent :: "i64 \<Rightarrow> string \<Rightarrow> string \<Rightarrow> StreamingEvent" where
  "NewHLSSegmentReadyEvent now channel path = NewStreamingEvent now EventTypeHLSSegmentReady channel [(''segment_path'', path)]"

section \<open>What the servers run against\<close>

text \<open>\<open>ffmpeg\<close> is the error the run on a URL and an output file ends with; \<open>err_text\<close> how \<open>%v\<close> prints an error.\<close>

record hls_env =
  he_msg :: msg_env
  json_event :: "StreamingEvent \<Rightarrow> byte list outcome"
  homeDir :: string
  filepath_Join :: "string list \<Rightarrow> string"
  os_MkdirAll :: "string \<Rightarrow> go_err option"
  os_Mkdir :: "string \<Rightarrow> go_err option"
  ffmpeg :: "string \<Rightarrow> string \<Rightarrow> go_err option"
  err_text :: "go_err \<Rightarrow> string"
  decimal :: "int \<Rightarrow> string"

text \<open>
  \<open>publishEvent\<close> of both integrated servers, which differ in the source they name. Without a messaging client, and when
  the event cannot be serialised or sent, it does nothing.
\<close>

definition now_of :: "hls_env \<Rightarrow> MsgClient option \<Rightarrow> i64" where
  "now_of H client = now_ms (he_msg H) (case client of None \<Rightarrow> [] | Some c \<Rightarrow> mc_wire c)"

definition publishEvent :: "hls_env \<Rightarrow> string \<Rightarrow> StreamingEvent \<Rightarrow> MsgClient option \<Rightarrow> MsgClient option" where
  "publishEvent H source event client =
     (case client of
        None \<Rightarrow> None
      | Some c \<Rightarrow>
          (case json_event H event of
             Ok eventJSON \<Rightarrow>
               Some (snd (Send (he_msg H)
                 (NewMessageEnvelope (NewMessage (he_msg H) eventJSON ''streaming.events'' PriorityNormal c) source) c))
           | _ \<Rightarrow> Some c))"

definition initMessaging :: "go_err option \<Rightarrow> MsgClient option" where
  "initMessaging dialed =
     (case MsgClient_Connect dialed NewClient of (Ok _, c) \<Rightarrow> Some c | _ \<Rightarrow> None)"

section \<open>cchls\<close>

text \<open>The global \<open>channel\<close>, the downloads and API calls whose goroutines were started, and the messaging client.\<close>

record Cchls =
  cc_channel :: string
  cc_downloads :: "string list"
  cc_calls :: "string list"
  cc_client :: "MsgClient option"

definition usage :: string where
  "usage = ''url: /data?channel=<ROOM_NAME>''"

definition response_text :: "string \<Rightarrow> Response \<Rightarrow> Response" where
  "response_text channel = Write_body (TextBody (''Response for channel='' @ channel))"

definition new_response :: Response where
  "new_response = \<lparr>resp_status = None, resp_body = []\<rparr>"

definition cc_publish :: "hls_env \<Rightarrow> StreamingEvent \<Rightarrow> Cchls \<Rightarrow> Cchls" where
  "cc_publish H event st = st\<lparr>cc_client := publishEvent H ''cchls-server'' event (cc_client st)\<rparr>"

definition newFunc :: "string \<Rightarrow> Cchls \<Rightarrow> Cchls" where
  "newFunc s st = st\<lparr>cc_downloads := cc_downloads st @ [s]\<rparr>"

definition cchls_handler :: "bool \<Rightarrow> string \<Rightarrow> Cchls \<Rightarrow> Response \<times> Cchls" where
  "cchls_handler form_ok query st =
     (if \<not> form_ok then (SendJson 400 (Some usage) new_response, st)
      else if query = ''$tart'' then
        (SendJson 200 (Some ''dfg'') (response_text (cc_channel st) new_response), newFunc (cc_channel st) st)
      else
        let st = st\<lparr>cc_channel := query\<rparr> in
        if query = [] then (SendJson 400 (Some usage) new_response, st)
        else (SendJson 200 (Some ''ok'') (response_text query new_response), st))"

definition cchls_integrated_handler :: "hls_env \<Rightarrow> bool \<Rightarrow> string \<Rightarrow> Cchls \<Rightarrow> Response \<times> Cchls" where
  "cchls_integrated_handler H form_ok query st =
     (if \<not> form_ok then (SendJson 400 (Some usage) new_response, st)
      else if query = ''$tart'' then
        let channel = cc_channel st;
            w = response_text channel new_response;
            st = cc_publish H (NewStreamStartedEvent (now_of H (cc_client st)) channel (''publisher-'' @ channel)) st
        in (SendJson 200 (Some ''dfg'') w, newFunc channel st)
      else
        let st = st\<lparr>cc_channel := query\<rparr> in
        if query = [] then (SendJson 400 (Some usage) new_response, st)
        else (SendJson 200 (Some ''ok'') (response_text query new_response), st))"

text \<open>
  The plain version reads the global \<open>channel\<close> when the API is called, not the channel of the download, and ends the
  process when ffmpeg fails; \<open>Panic\<close> stands for \<open>log.Fatal\<close> as well.
\<close>

definition callAPI_plain :: "Cchls \<Rightarrow> Cchls" where
  "callAPI_plain st = st\<lparr>cc_calls := cc_calls st @ [''http://localhost:9001/ded?channel='' @ cc_channel st]\<rparr>"

definition callAPI :: "string \<Rightarrow> Cchls \<Rightarrow> Cchls" where
  "callAPI channelName st = st\<lparr>cc_calls := cc_calls st @ [''http://localhost:9001/ded?channel='' @ channelName]\<rparr>"

definition startDownload_plain :: "hls_env \<Rightarrow> string \<Rightarrow> Cchls \<Rightarrow> unit outcome \<times> Cchls" where
  "startDownload_plain H s st =
     (let savePath = ''/Users/vatsalpatel/Downloads/segments/'' @ s; url = ''rtmp://localhost:1935/appname/'' @ s in
      (case os_Mkdir H savePath of
         Some e \<Rightarrow> (Ok (), st)
       | None \<Rightarrow>
           let st = callAPI_plain st in
           (case ffmpeg H url (''/Users/vatsalpatel/Downloads/segments/'' @ s @ ''/index.m3u8'') of
              Some e \<Rightarrow> (Panic ''exit status 1'', st)
            | None \<Rightarrow> (Ok (), st))))"

definition startDownload :: "hls_env \<Rightarrow> string \<Rightarrow> Cchls \<Rightarrow> Cchls" where
  "startDownload H s st =
     (let savePath = filepath_Join H [homeDir H, ''Downloads'', ''segments'', s];
          url = ''rtmp://localhost:1935/appname/'' @ s;
          publish = (\<lambda>ev st. cc_publish H (ev (now_of H (cc_client st))) st) in
      (case os_MkdirAll H savePath of
         Some e \<Rightarrow> st
       | None \<Rightarrow>
           let pathName = filepath_Join H [savePath, ''index.m3u8''];
               st = publish (\<lambda>now. NewHLSReadyEvent now s (''http://localhost:9002/'' @ s @ ''/index.m3u8'')) st;
               st = callAPI s st in
           (case ffmpeg H url pathName of
              Some e \<Rightarrow> publish (\<lambda>now. NewStreamStoppedEvent now s (''ffmpeg error: '' @ err_text H e)) st
            | None \<Rightarrow> publish (\<lambda>now. NewStreamStoppedEvent now s ''ffmpeg completed'') st)))"

section \<open>hlsnew\<close>

text \<open>
  The viewer counts, the directory registered for \<open>/\<close> with the process's one mux, the streams whose goroutines
  were started, and the messaging client.
\<close>

record Hlsnew =
  viewerCounts :: "(string \<times> int) list"
  hn_root :: "string option"
  hn_streams :: "string list"
  hn_client :: "MsgClient option"

definition viewers :: "string \<Rightarrow> Hlsnew \<Rightarrow> int" where
  "viewers channel st = (case map_of (viewerCounts st) channel of Some n \<Rightarrow> n | None \<Rightarrow> 0)"

definition hn_publish :: "hls_env \<Rightarrow> StreamingEvent \<Rightarrow> Hlsnew \<Rightarrow> Hlsnew" where
  "hn_publish H event st = st\<lparr>hn_client := publishEvent H ''hlsnew-server'' event (hn_client st)\<rparr>"

definition incrementViewer :: "hls_env \<Rightarrow> string \<Rightarrow> Hlsnew \<Rightarrow> Hlsnew" where
  "incrementViewer H channel st =
     (let count = viewers channel st + 1; st = st\<lparr>viewerCounts := set_key channel count (viewerCounts st)\<rparr> in
      hn_publish H (NewViewerJoinedEvent (now_of H (hn_client st)) channel (''viewer-'' @ decimal H count)) st)"

definition decrementViewer :: "hls_env \<Rightarrow> string \<Rightarrow> Hlsnew \<Rightarrow> Hlsnew" where
  "decrementViewer H channel st =
     (if viewers channel st > 0 then
        let count = viewers channel st - 1; st = st\<lparr>viewerCounts := set_key channel count (viewerCounts st)\<rparr> in
        hn_publish H (NewViewerLeftEvent (now_of H (hn_client st)) channel (''viewer-'' @ decimal H count)) st
      else st)"

definition ded_usage :: string where
  "ded_usage = ''url: /ded?channel=<ROOM_NAME>''"

definition dedHandler :: "hls_env \<Rightarrow> bool \<Rightarrow> string \<Rightarrow> Hlsnew \<Rightarrow> Response \<times> Hlsnew" where
  "dedHandler H form_ok channel st =
     (if \<not> form_ok \<or> channel = [] then (SendJson 400 (Some ded_usage) new_response, st)
      else
        let w = response_text channel new_response; st = incrementViewer H channel st in
        (SendJson 200 None w, st\<lparr>hn_streams := hn_streams st @ [channel]\<rparr>))"

definition dedHandler_plain :: "bool \<Rightarrow> string \<Rightarrow> Hlsnew \<Rightarrow> Response \<times> Hlsnew" where
  "dedHandler_plain form_ok channel st =
     (if \<not> form_ok \<or> channel = [] then (SendJson 400 (Some usage) new_response, st)
      else (SendJson 200 None (response_text channel new_response), st\<lparr>hn_streams := hn_streams st @ [channel]\<rparr>))"

text \<open>\<open>http.Handle\<close> panics on a pattern that is registered; \<open>ListenAndServe\<close> serves from then on.\<close>

definition http_Handle_root :: "string \<Rightarrow> Hlsnew \<Rightarrow> unit outcome \<times> Hlsnew" where
  "http_Handle_root dir st =
     (case hn_root st of
        Some _ \<Rightarrow> (Panic ''http: multiple registrations for /'', st)
      | None \<Rightarrow> (Ok (), st\<lparr>hn_root := Some dir\<rparr>))"

definition startStream :: "hls_env \<Rightarrow> string \<Rightarrow> Hlsnew \<Rightarrow> unit outcome \<times> Hlsnew" where
  "startStream H s st =
     (let segDir = filepath_Join H [homeDir H, ''Downloads'', ''segments'', s];
          st = hn_publish H (NewStreamingEvent (now_of H (hn_client st)) EventTypeStreamPlaying s
                 [(''hls_url'', ''http://localhost:9002/index.m3u8'')]) st in
      http_Handle_root segDir st)"

definition startStream_plain :: "string \<Rightarrow> Hlsnew \<Rightarrow> unit outcome \<times> Hlsnew" where
  "startStream_plain s st = http_Handle_root (''/Users/vatsalpatel/downloads/segments/'' @ s) st"

definition addHeaders :: "(string \<times> string) list \<Rightarrow> (string \<times> string) list" where
  "addHeaders hs = set_key ''Access-Control-Allow-Headers'' ''Content-Type''
     (set_key ''Access-Control-Allow-Methods'' ''GET, OPTIONS'' (set_key ''Access-Control-Allow-Origin'' ''*'' hs))"

definition addHeaders_plain :: "(string \<times> string) list \<Rightarrow> (string \<times> string) list" where
  "addHeaders_plain hs = set_key ''Access-Control-Allow-Origin'' ''*'' hs"

section \<open>The plain and the integrated versions\<close>

text \<open>Without a messaging client the integrated handlers are the plain ones, but for the counts and the usage text.\<close>

lemma publishEvent_none [simp]: "publishEvent H source event None = None"
  by (simp add: publishEvent_def)

lemma cchls_plain:
  "cc_client st = None \<Longrightarrow> cchls_integrated_handler H form_ok query st = cchls_handler form_ok query st"
  by (simp add: cchls_integrated_handler_def cchls_handler_def cc_publish_def Let_def newFunc_def)

text \<open>The requests of a cchls process, one after the other.\<close>

fun serve_requests :: "(bool \<Rightarrow> string \<Rightarrow> Cchls \<Rightarrow> Response \<times> Cchls) \<Rightarrow> (bool \<times> string) list \<Rightarrow> Cchls \<Rightarrow> Response list \<times> Cchls" where
  "serve_requests answer [] st = ([], st)"
| "serve_requests answer ((form_ok, query) # reqs) st =
     (case answer form_ok query st of (resp, st) \<Rightarrow> case serve_requests answer reqs st of (resps, st) \<Rightarrow> (resp # resps, st))"

lemma publishEvent_kept: "publishEvent H source event client = None \<longleftrightarrow> client = None"
  by (simp add: publishEvent_def split: option.split outcome.split)

text \<open>The client is all the integrated handler changes beyond the plain one, and the plain one does not look at it.\<close>

lemma cchls_handlers_agree:
  "\<exists>c. cchls_integrated_handler H form_ok query (st\<lparr>cc_client := c0\<rparr>) = apsnd (cc_client_update (\<lambda>_. c)) (cchls_handler form_ok query st) \<and>
     (c = None) = (c0 = None)"
proof (cases "form_ok \<and> query = ''$tart''")
  case True
  let ?c = "publishEvent H ''cchls-server''
    (NewStreamStartedEvent (now_of H c0) (cc_channel st) (''publisher-'' @ cc_channel st)) c0"
  show ?thesis
    using True by (intro exI [of _ ?c])
      (simp add: cchls_integrated_handler_def cchls_handler_def cc_publish_def Let_def newFunc_def publishEvent_kept)
next
  case False
  then show ?thesis
    by (intro exI [of _ c0]) (auto simp: cchls_integrated_handler_def cchls_handler_def Let_def)
qed

text \<open>
  C18. The integrated cchls is the plain one with a messaging client: on every sequence of requests it gives the same
  responses, goes through the same channels and starts the same downloads; a client that is not there stays away.
\<close>

theorem cchls_equivalent:
  "\<exists>c. serve_requests (cchls_integrated_handler H) reqs (st\<lparr>cc_client := c0\<rparr>) =
       apsnd (cc_client_update (\<lambda>_. c)) (serve_requests cchls_handler reqs st) \<and> (c = None) = (c0 = None)"
proof (induction reqs arbitrary: st c0)
  case Nil
  show ?case by (intro exI [of _ c0]) simp
next
  case (Cons req reqs)
  obtain form_ok query where req: "req = (form_ok, query)" by (cases req)
  obtain resp st1 where plain: "cchls_handler form_ok query st = (resp, st1)" by (cases "cchls_handler form_ok query st")
  from cchls_handlers_agree [of H form_ok query c0 st] obtain c1 where
    "cchls_integrated_handler H form_ok query (st\<lparr>cc_client := c0\<rparr>) = (resp, st1\<lparr>cc_client := c1\<rparr>)" "(c1 = None) = (c0 = None)"
    by (auto simp: plain)
  with Cons.IH [of c1 st1] show ?case by (auto simp: req plain split: prod.splits)
qed

lemma ded_plain:
  assumes "form_ok" "channel \<noteq> []"
  shows "fst (dedHandler H form_ok channel st) = fst (dedHandler_plain form_ok channel st)"
    "hn_streams (snd (dedHandler H form_ok channel st)) = hn_streams (snd (dedHandler_plain form_ok channel st))"
    "hn_root (snd (dedHandler H form_ok channel st)) = hn_root st"
  using assms by (simp_all add: dedHandler_def dedHandler_plain_def incrementViewer_def hn_publish_def Let_def)

lemma decrement_increment: "viewers channel (decrementViewer H channel (incrementViewer H channel st)) =
    (if viewers channel st \<ge> 0 then viewers channel st else viewers channel st + 1)"
  by (simp add: decrementViewer_def incrementViewer_def hn_publish_def viewers_def Let_def split: option.split)

section \<open>The process of hlsnew\<close>

text \<open>A request, and the turn of a goroutine that a request started.\<close>

datatype hls_event = EvDed bool string | EvStream string

fun hls_run :: "hls_env \<Rightarrow> hls_event list \<Rightarrow> Hlsnew \<Rightarrow> unit outcome \<times> Hlsnew" where
  "hls_run H [] st = (Ok (), st)"
| "hls_run H (EvDed form_ok channel # evs) st = hls_run H evs (snd (dedHandler H form_ok channel st))"
| "hls_run H (EvStream s # evs) st =
     (if s \<in> set (hn_streams st) then
        andthen (startStream H s (st\<lparr>hn_streams := remove1 s (hn_streams st)\<rparr>)) (\<lambda>_ st. hls_run H evs st)
      else hls_run H evs st)"

lemma startStream_cases:
  obtains (registered) d st' where "startStream H s st = (Ok (), st')" "hn_root st = None" "hn_root st' = Some d"
  | (crashed) st' where "startStream H s st = (Panic ''http: multiple registrations for /'', st')" "hn_root st \<noteq> None"
  by (cases "hn_root st") (auto simp: startStream_def http_Handle_root_def hn_publish_def Let_def)

lemma hls_run_append: "hls_run H (evs @ evs') st = andthen (hls_run H evs st) (\<lambda>_ st. hls_run H evs' st)"
proof (induction H evs st rule: hls_run.induct)
  case (3 H s evs st)
  then show ?case
    by (cases rule: startStream_cases [of H s "st\<lparr>hn_streams := remove1 s (hn_streams st)\<rparr>"]) simp_all
qed simp_all

lemma hls_run_root: "hls_run H evs st = (Ok (), st') \<Longrightarrow> hn_root st \<noteq> None \<Longrightarrow> hn_root st' \<noteq> None"
proof (induction H evs st rule: hls_run.induct)
  case (2 H form_ok channel evs st)
  then show ?case by (simp add: dedHandler_def incrementViewer_def hn_publish_def Let_def split: if_splits)
next
  case (3 H s evs st)
  then show ?case
    by (cases rule: startStream_cases [of H s "st\<lparr>hn_streams := remove1 s (hn_streams st)\<rparr>"]) (auto split: if_splits)
qed simp

lemma ded_stream:
  assumes "channel \<noteq> []"
  shows "hls_run H [EvDed True channel, EvStream channel] st = (Ok (), st') \<Longrightarrow> hn_root st = None \<and> hn_root st' \<noteq> None"
    "hn_root st \<noteq> None \<Longrightarrow> fst (hls_run H [EvDed True channel, EvStream channel] st) = Panic ''http: multiple registrations for /''"
proof -
  let ?st = "snd (dedHandler H True channel st)"
  let ?st1 = "?st\<lparr>hn_streams := remove1 channel (hn_streams ?st)\<rparr>"
  have st: "channel \<in> set (hn_streams ?st)" "hn_root ?st1 = hn_root st"
    using assms by (simp_all add: dedHandler_def incrementViewer_def hn_publish_def Let_def)
  show "hls_run H [EvDed True channel, EvStream channel] st = (Ok (), st') \<Longrightarrow> hn_root st = None \<and> hn_root st' \<noteq> None"
    "hn_root st \<noteq> None \<Longrightarrow> fst (hls_run H [EvDed True channel, EvStream channel] st) = Panic ''http: multiple registrations for /''"
    using st by (cases rule: startStream_cases [of H channel ?st1]; simp)+
qed

text \<open>
  C38. The HLS server survives one viewer: once the stream of a request has been started, the next request for a channel,
  the same or another, ends the process, whatever else happened before and between.
\<close>

theorem second_viewer_stops_server:
  assumes "ch1 \<noteq> []" "ch2 \<noteq> []"
  shows "\<exists>m. fst (hls_run H (evs @ [EvDed True ch1, EvStream ch1] @ evs' @ [EvDed True ch2, EvStream ch2]) st) = Panic m"
proof -
  have noerr: "fst (hls_run H evs st) \<noteq> Err e" for evs st e
  proof (induction H evs st rule: hls_run.induct)
    case (3 H s evs st)
    then show ?case
      by (cases rule: startStream_cases [of H s "st\<lparr>hn_streams := remove1 s (hn_streams st)\<rparr>"]) simp_all
  qed simp_all
  have go: "(\<exists>m. fst (hls_run H (xs @ ys) st) = Panic m) \<or> (\<exists>st2. hls_run H xs st = (Ok (), st2) \<and>
      hls_run H (xs @ ys) st = hls_run H ys st2)" for xs ys st
    using noerr [of xs st] by (cases "hls_run H xs st"; cases "fst (hls_run H xs st)") (auto simp: hls_run_append)
  let ?first = "[EvDed True ch1, EvStream ch1]" and ?second = "[EvDed True ch2, EvStream ch2]"
  have "\<exists>m. fst (hls_run H (?first @ evs' @ ?second) st2) = Panic m" for st2
    using go [of ?first "evs' @ ?second" st2]
  proof
    assume "\<exists>st3. hls_run H ?first st2 = (Ok (), st3) \<and> hls_run H (?first @ evs' @ ?second) st2 = hls_run H (evs' @ ?second) st3"
    then obtain st3 where st3: "hn_root st3 \<noteq> None" "hls_run H (?first @ evs' @ ?second) st2 = hls_run H (evs' @ ?second) st3"
      using ded_stream(1) [OF assms(1)] by blast
    from go [of evs' ?second st3] show ?thesis
      using hls_run_root [of H evs' st3] ded_stream(2) [OF assms(2)] st3 by metis
  qed
  with go [of evs "?first @ evs' @ ?second" st] show ?thesis by auto
qed

definition sampleHls :: hls_env where
  "sampleHls = \<lparr>he_msg = sampleMsgEnv, json_event = (\<lambda>_. Ok []), homeDir = [], filepath_Join = concat, os_MkdirAll = (\<lambda>_. None),
     os_Mkdir = (\<lambda>_. None), ffmpeg = (\<lambda>_ _. None), err_text = (\<lambda>_. []), decimal = (\<lambda>_. [])\<rparr>"

theorem second_viewer_stops_server_witness:
  "\<exists>m. fst (hls_run sampleHls [EvDed True ''a'', EvStream ''a'', EvDed False [], EvDed True ''b'', EvStream ''b'']
      \<lparr>viewerCounts = [], hn_root = None, hn_streams = [], hn_client = None\<rparr>) = Panic m"
  using second_viewer_stops_server [of "''a''" "''b''" sampleHls "[]" "[EvDed False []]"] by (simp del: hls_run.simps)

end
