(* ===== verification/Processes.thy ===== *)
theory Processes
  imports Hls "HOL-Library.Multiset"
begin

text \<open>
  The HLS servers as processes: their \<open>main\<close>, and for cchls the goroutines of its requests, its downloads and its
  calls of hlsnew, which run in any order. A schedule is the list of their turns; a download takes two, before and after
  ffmpeg runs.
\<close>

section \<open>The goroutines of cchls\<close>

text \<open>
  The channels whose call of hlsnew was started and has not run, and those for which ffmpeg runs, beside the state of the
  handlers, which has the downloads that were started and have not run.
\<close>

record cc_proc =
  cp_st :: Cchls
  cp_calling :: "string list"
  cp_running :: "string list"

datatype cc_turn = Request bool string | Download string | Call string | FfmpegEnds string

definition publish_now :: "hls_env \<Rightarrow> (i64 \<Rightarrow> StreamingEvent) \<Rightarrow> Cchls \<Rightarrow> Cchls" where
  "publish_now H ev st = cc_publish H (ev (now_of H (cc_client st))) st"

definition download_dir :: "hls_env \<Rightarrow> string \<Rightarrow> string" where
  "download_dir H s = filepath_Join H [homeDir H, ''Downloads'', ''segments'', s]"

definition begin_download :: "hls_env \<Rightarrow> string \<Rightarrow> cc_proc \<Rightarrow> cc_proc" where
  "begin_download H s P =
     (case os_MkdirAll H (download_dir H s) of
        Some e \<Rightarrow> P
      | None \<Rightarrow> P\<lparr>cp_st := publish_now H (\<lambda>now. NewHLSReadyEvent now s (''http://localhost:9002/'' @ s @ ''/index.m3u8'')) (cp_st P),
          cp_calling := cp_calling P @ [s], cp_running := cp_running P @ [s]\<rparr>)"

definition end_download :: "hls_env \<Rightarrow> string \<Rightarrow> cc_proc \<Rightarrow> cc_proc" where
  "end_download H s P =
     (let pathName = filepath_Join H [download_dir H s, ''index.m3u8'']; url = ''rtmp://localhost:1935/appname/'' @ s in
      P\<lparr>cp_running := remove1 s (cp_running P),
        cp_st := publish_now H (\<lambda>now. NewStreamStoppedEvent now s
          (case ffmpeg H url pathName of Some e \<Rightarrow> ''ffmpeg error: '' @ err_text H e | None \<Rightarrow> ''ffmpeg completed'')) (cp_st P)\<rparr>)"

fun cc_step :: "hls_env \<Rightarrow> cc_turn \<Rightarrow> cc_proc \<Rightarrow> cc_proc" where
  "cc_step H (Request form_ok query) P = P\<lparr>cp_st := snd (cchls_integrated_handler H form_ok query (cp_st P))\<rparr>"
| "cc_step H (Download s) P =
     (if s \<in> set (cc_downloads (cp_st P)) then
        begin_download H s (P\<lparr>cp_st := (cp_st P)\<lparr>cc_downloads := remove1 s (cc_downloads (cp_st P))\<rparr>\<rparr>)
      else P)"
| "cc_step H (Call s) P =
     (if s \<in> set (cp_calling P) then P\<lparr>cp_calling := remove1 s (cp_calling P), cp_st := callAPI s (cp_st P)\<rparr> else P)"
| "cc_step H (FfmpegEnds s) P = (if s \<in> set (cp_running P) then end_download H s P else P)"

definition cc_run :: "hls_env \<Rightarrow> cc_turn list \<Rightarrow> cc_proc \<Rightarrow> cc_proc" where
  "cc_run H ts P = fold (cc_step H) ts P"

text \<open>The plain server: no events, another directory, \<open>callAPI\<close> without a channel, and \<open>log.Fatal\<close> when ffmpeg fails.\<close>

definition begin_download_plain :: "hls_env \<Rightarrow> string \<Rightarrow> cc_proc \<Rightarrow> cc_proc" where
  "begin_download_plain H s P =
     (case os_Mkdir H (''/Users/vatsalpatel/Downloads/segments/'' @ s) of
        Some e \<Rightarrow> P
      | None \<Rightarrow> P\<lparr>cp_calling := cp_calling P @ [s], cp_running := cp_running P @ [s]\<rparr>)"

definition end_download_plain :: "hls_env \<Rightarrow> string \<Rightarrow> cc_proc \<Rightarrow> unit outcome \<times> cc_proc" where
  "end_download_plain H s P =
     (let P = P\<lparr>cp_running := remove1 s (cp_running P)\<rparr> in
      (case ffmpeg H (''rtmp://localhost:1935/appname/'' @ s) (''/Users/vatsalpatel/Downloads/segments/'' @ s @ ''/index.m3u8'') of
         Some e \<Rightarrow> (Panic ''exit status 1'', P)
       | None \<Rightarrow> (Ok (), P)))"

fun cc_step_plain :: "hls_env \<Rightarrow> cc_turn \<Rightarrow> cc_proc \<Rightarrow> unit outcome \<times> cc_proc" where
  "cc_step_plain H (Request form_ok query) P = (Ok (), P\<lparr>cp_st := snd (cchls_handler form_ok query (cp_st P))\<rparr>)"
| "cc_step_plain H (Download s) P =
     (Ok (), if s \<in> set (cc_downloads (cp_st P)) then
        begin_download_plain H s (P\<lparr>cp_st := (cp_st P)\<lparr>cc_downloads := remove1 s (cc_downloads (cp_st P))\<rparr>\<rparr>)
      else P)"
| "cc_step_plain H (Call s) P =
     (Ok (), if s \<in> set (cp_calling P) then P\<lparr>cp_calling := remove1 s (cp_calling P), cp_st := callAPI_plain (cp_st P)\<rparr> else P)"
| "cc_step_plain H (FfmpegEnds s) P = (if s \<in> set (cp_running P) then end_download_plain H s P else (Ok (), P))"

fun cc_run_plain :: "hls_env \<Rightarrow> cc_turn list \<Rightarrow> cc_proc \<Rightarrow> unit outcome \<times> cc_proc" where
  "cc_run_plain H [] P = (Ok (), P)"
| "cc_run_plain H (t # ts) P = andthen (cc_step_plain H t P) (\<lambda>_ P. cc_run_plain H ts P)"

text \<open>The turns of one download in a row are \<open>startDownload\<close>.\<close>

lemma turns_startDownload:
  assumes "cp_st P = st\<lparr>cc_downloads := s # cc_downloads st\<rparr>" "os_MkdirAll H (download_dir H s) = None"
  shows "cp_st (cc_run H [Download s, Call s, FfmpegEnds s] P) = startDownload H s st"
  using assms
  by (simp add: cc_run_def begin_download_def end_download_def startDownload_def download_dir_def publish_now_def Let_def
      cc_publish_def callAPI_def split: option.split)

section \<open>main\<close>

text \<open>
  The processes run until \<open>ListenAndServe\<close> returns, which ends \<open>main\<close> and with it every goroutine; the integrated ones
  disconnect their client then.
\<close>

definition cc_start :: "MsgClient option \<Rightarrow> cc_proc" where
  "cc_start client = \<lparr>cp_st = \<lparr>cc_channel = [], cc_downloads = [], cc_calls = [], cc_client = client\<rparr>,
     cp_calling = [], cp_running = []\<rparr>"

definition disconnect_client :: "go_err option \<Rightarrow> MsgClient option \<Rightarrow> MsgClient option" where
  "disconnect_client closed client = map_option (\<lambda>c. snd (MsgClient_Disconnect closed c)) client"

definition cchls_plain_main :: "hls_env \<Rightarrow> cc_turn list \<Rightarrow> unit outcome \<times> cc_proc" where
  "cchls_plain_main H ts = cc_run_plain H ts (cc_start None)"

definition cchls_main :: "hls_env \<Rightarrow> go_err option \<Rightarrow> go_err option \<Rightarrow> cc_turn list \<Rightarrow> cc_proc" where
  "cchls_main H dialed closed ts =
     (let P = cc_run H ts (cc_start (initMessaging dialed)) in
      P\<lparr>cp_st := cc_client_update (disconnect_client closed) (cp_st P)\<rparr>)"

definition hlsnew_main :: "hls_env \<Rightarrow> go_err option \<Rightarrow> go_err option \<Rightarrow> hls_event list \<Rightarrow> unit outcome \<times> Hlsnew" where
  "hlsnew_main H dialed closed evs =
     andthen (hls_run H evs \<lparr>viewerCounts = [], hn_root = None, hn_streams = [], hn_client = initMessaging dialed\<rparr>) (\<lambda>_ st.
       (Ok (), hn_client_update (disconnect_client closed) st))"

text \<open>The plain hlsnew has the same turns, without counts and events.\<close>

fun hls_run_plain :: "hls_event list \<Rightarrow> Hlsnew \<Rightarrow> unit outcome \<times> Hlsnew" where
  "hls_run_plain [] st = (Ok (), st)"
| "hls_run_plain (EvDed form_ok channel # evs) st = hls_run_plain evs (snd (dedHandler_plain form_ok channel st))"
| "hls_run_plain (EvStream s # evs) st =
     (if s \<in> set (hn_streams st) then
        andthen (startStream_plain s (st\<lparr>hn_streams := remove1 s (hn_streams st)\<rparr>)) (\<lambda>_ st. hls_run_plain evs st)
      else hls_run_plain evs st)"

definition hlsnew_plain_main :: "hls_event list \<Rightarrow> unit outcome \<times> Hlsnew" where
  "hlsnew_plain_main evs = hls_run_plain evs \<lparr>viewerCounts = [], hn_root = None, hn_streams = [], hn_client = None\<rparr>"

text \<open>Both start the same streams and end in the same way; the integrated one counts its viewers besides.\<close>

lemma dedHandlers_agree:
  "hn_streams (snd (dedHandler H form_ok channel st)) = hn_streams (snd (dedHandler_plain form_ok channel st'))"
  "hn_root (snd (dedHandler H form_ok channel st)) = hn_root st" "hn_root (snd (dedHandler_plain form_ok channel st')) = hn_root st'"
  if "hn_streams st = hn_streams st'"
  using that by (simp_all add: dedHandler_def dedHandler_plain_def incrementViewer_def hn_publish_def Let_def)

lemma hls_runs_agree:
  "hn_streams st = hn_streams st' \<Longrightarrow> (hn_root st = None) = (hn_root st' = None) \<Longrightarrow>
   fst (hls_run H evs st) = fst (hls_run_plain evs st') \<and>
   hn_streams (snd (hls_run H evs st)) = hn_streams (snd (hls_run_plain evs st'))"
proof (induction H evs st arbitrary: st' rule: hls_run.induct)
  case (2 H form_ok channel evs st)
  then show ?case using dedHandlers_agree [OF 2(2)] by simp
next
  case (3 H s evs st)
  let ?drop = "\<lambda>st. st\<lparr>hn_streams := remove1 s (hn_streams st)\<rparr>"
  show ?case
  proof (cases "s \<in> set (hn_streams st)")
    case True
    show ?thesis
    proof (cases rule: startStream_cases [of H s "?drop st"])
      case (registered d st1)
      obtain st1' where plain: "startStream_plain s (?drop st') = (Ok (), st1')" "hn_streams st1' = hn_streams (?drop st')" "hn_root st1' \<noteq> None"
        using 3(4) registered(2) by (auto simp: startStream_plain_def http_Handle_root_def)
      have "hn_streams st1 = hn_streams (?drop st)"
        using registered(1) by (auto simp: startStream_def http_Handle_root_def hn_publish_def Let_def split: option.splits)
      have "fst (hls_run H evs st1) = fst (hls_run_plain evs st1') \<and>
          hn_streams (snd (hls_run H evs st1)) = hn_streams (snd (hls_run_plain evs st1'))"
        by (rule 3(1) [OF True]) (use plain registered 3(3) \<open>hn_streams st1 = hn_streams (?drop st)\<close> in simp_all)
      with plain registered 3(3) True show ?thesis by simp
    next
      case (crashed st1)
      then have "hn_streams st1 = hn_streams (?drop st)"
        by (auto simp: startStream_def http_Handle_root_def hn_publish_def Let_def split: option.splits)
      with crashed 3(3,4) True show ?thesis by (auto simp: startStream_plain_def http_Handle_root_def split: option.splits)
    qed
  qed (use 3 in simp)
qed simp

section \<open>Which channels hlsnew is called for\<close>

definition call_url :: "string \<Rightarrow> string" where
  "call_url channel = ''http://localhost:9001/ded?channel='' @ channel"

lemma callAPI_url: "callAPI s st = st\<lparr>cc_calls := cc_calls st @ [call_url s]\<rparr>"
  by (simp add: callAPI_def call_url_def)

text \<open>The channels that the start requests of a schedule find set.\<close>

fun started :: "string \<Rightarrow> cc_turn list \<Rightarrow> string list" where
  "started channel [] = []"
| "started channel (Request form_ok query # ts) =
     (if \<not> form_ok then started channel ts
      else if query = ''$tart'' then channel # started channel ts else started query ts)"
| "started channel (_ # ts) = started channel ts"

definition owed :: "cc_proc \<Rightarrow> string multiset" where
  "owed P = mset (cc_calls (cp_st P)) + image_mset call_url (mset (cp_calling P) + mset (cc_downloads (cp_st P)))"

lemma publish_now_frame:
  "cc_channel (publish_now H ev st) = cc_channel st" "cc_downloads (publish_now H ev st) = cc_downloads st"
  "cc_calls (publish_now H ev st) = cc_calls st"
  by (simp_all add: publish_now_def cc_publish_def)

lemma integrated_frame:
  "cc_channel (snd (cchls_integrated_handler H form_ok query st)) =
     (if form_ok \<and> query \<noteq> ''$tart'' then query else cc_channel st)"
  "cc_calls (snd (cchls_integrated_handler H form_ok query st)) = cc_calls st"
  "cc_downloads (snd (cchls_integrated_handler H form_ok query st)) =
     (if form_ok \<and> query = ''$tart'' then cc_downloads st @ [cc_channel st] else cc_downloads st)"
  by (simp_all add: cchls_integrated_handler_def cc_publish_def newFunc_def Let_def)

lemma owed_step:
  "owed (cc_step H t P) + image_mset call_url (mset (started (cc_channel (cp_st (cc_step H t P))) ts)) \<subseteq>#
     owed P + image_mset call_url (mset (started (cc_channel (cp_st P)) (t # ts)))"
proof (cases t)
  case (Request form_ok query)
  then show ?thesis by (simp add: owed_def integrated_frame)
next
  case (Download s)
  show ?thesis
  proof (cases "s \<in> set (cc_downloads (cp_st P))")
    case True
    then obtain M where "mset (cc_downloads (cp_st P)) = add_mset s M" by (meson mset_add in_multiset_in_set)
    with True show ?thesis by (simp add: Download owed_def begin_download_def publish_now_frame split: option.split)
  qed (simp add: Download)
next
  case (Call s)
  show ?thesis
  proof (cases "s \<in> set (cp_calling P)")
    case True
    then obtain M where "mset (cp_calling P) = add_mset s M" by (meson mset_add in_multiset_in_set)
    with True show ?thesis by (simp add: Call owed_def callAPI_url)
  qed (simp add: Call)
next
  case (FfmpegEnds s)
  then show ?thesis by (simp add: owed_def end_download_def publish_now_frame Let_def)
qed

lemma owed_run: "owed (cc_run H ts P) \<subseteq># owed P + image_mset call_url (mset (started (cc_channel (cp_st P)) ts))"
proof (induction ts arbitrary: P)
  case (Cons t ts)
  have "owed (cc_run H (t # ts) P) = owed (cc_run H ts (cc_step H t P))" by (simp add: cc_run_def)
  with subset_mset.order_trans [OF Cons.IH [of "cc_step H t P"] owed_step [of H t P ts]] show ?case by (simp only:)
qed (simp add: cc_run_def)

text \<open>
  C19. Whatever order its goroutines run in, the integrated cchls calls hlsnew at most once for every start request it
  answered, and for the channel of that request. The plain server calls it for the channel that was set last: when
  another channel is requested before the call runs, the call is for that one, and none is for the channel that plays.
\<close>

theorem calls_of_started:
  assumes "a \<noteq> ''$tart''" "b \<noteq> ''$tart''" "os_Mkdir H (''/Users/vatsalpatel/Downloads/segments/'' @ a) = None"
  shows "mset (cc_calls (cp_st (cchls_main H dialed closed ts))) \<subseteq># mset (map call_url (started [] ts)) \<and>
    cc_calls (cp_st (snd (cchls_plain_main H
      [Request True a, Request True ''$tart'', Download a, Request True b, Call a]))) = [call_url b]"
proof
  have "owed (cc_run H ts (cc_start (initMessaging dialed))) \<subseteq># mset (map call_url (started [] ts))"
    using owed_run [of H ts "cc_start (initMessaging dialed)"] by (simp add: cc_start_def owed_def)
  then show "mset (cc_calls (cp_st (cchls_main H dialed closed ts))) \<subseteq># mset (map call_url (started [] ts))"
    by (auto simp: cchls_main_def owed_def Let_def intro: subset_mset.order_trans [OF mset_subset_eq_add_left])
  show "cc_calls (cp_st (snd (cchls_plain_main H
      [Request True a, Request True ''$tart'', Download a, Request True b, Call a]))) = [call_url b]"
    using assms by (simp add: cchls_plain_main_def cc_start_def cchls_handler_def newFunc_def begin_download_plain_def
      callAPI_plain_def call_url_def Let_def)
qed

theorem calls_of_started_witness:
  "mset (cc_calls (cp_st (cchls_main sampleHls None None
      [Request True ''a'', Request True ''$tart'', Download ''a'', Request True ''b'', Call ''a'']))) \<subseteq>#
     mset (map call_url [''a'']) \<and>
   cc_calls (cp_st (snd (cchls_plain_main sampleHls
      [Request True ''a'', Request True ''$tart'', Download ''a'', Request True ''b'', Call ''a'']))) = [call_url ''b'']"
  using calls_of_started [of "''a''" "''b''" sampleHls None None
      "[Request True ''a'', Request True ''$tart'', Download ''a'', Request True ''b'', Call ''a'']"]
  by (simp add: sampleHls_def)

end
