(* ===== verification/Client.thy ===== *)
theory Client
  imports Conn
begin

text \<open>
  client_conn.go: the client's side of a connection. The message loop runs in a goroutine of its own
  and leaves its error in \<open>lastErr\<close>, which every call looks at first. \<open>Connect\<close> and \<open>CreateStream\<close> wait
  for the loop to answer their transaction, so each is what happens before the wait and after it.
\<close>

record 'u ClientConn =
  cc_conn :: "'u Conn"
  cc_lastErr :: "go_err option"

type_synonym ('u, 'a) client_op = "'u ClientConn \<Rightarrow> 'a outcome \<times> 'u ClientConn"

definition on_conn :: "('u Conn \<Rightarrow> 'a outcome \<times> 'u Conn) \<Rightarrow> ('u, 'a) client_op" where
  "on_conn f cc = (case f (cc_conn cc) of (res, c) \<Rightarrow> (res, cc\<lparr>cc_conn := c\<rparr>))"

section \<open>Setting up\<close>

text \<open>A failure closes the connection, with whatever closing returns; \<open>pick\<close> and \<open>rwc_Close\<close> are as for \<open>Conn_Close\<close>.\<close>

definition closing ::
  "'u runtime \<Rightarrow> (int \<Rightarrow> wait_case) \<Rightarrow> go_err option \<Rightarrow> string \<Rightarrow> 'a outcome \<times> 'u Conn \<Rightarrow> 'a outcome \<times> 'u Conn" where
  "closing rt pick rwc_Close msg p =
     (case p of
        (Err e, c) \<Rightarrow> (Err (Wrap e msg), snd (Conn_Close rt pick rwc_Close c))
      | (res, c) \<Rightarrow> (res, c))"

definition newClientConnWithSetup ::
  "'u runtime \<Rightarrow> hs_env \<Rightarrow> (int \<Rightarrow> wait_case) \<Rightarrow> go_err option \<Rightarrow> 'u Conn \<Rightarrow> 'u ClientConn outcome \<times> 'u Conn" where
  "newClientConnWithSetup rt env pick rwc_Close c =
     (case HandshakeWithServer (SkipHandshakeVerification (rt_cfg rt)) env
             \<lparr>hs_r = reader (cs_r (conn_in c)), hs_w = cs_w (w_out (conn_w c))\<rparr> of
        (res, h) \<Rightarrow>
          let c = c\<lparr>conn_in := (conn_in c)\<lparr>cs_r := (cs_r (conn_in c))\<lparr>reader := hs_r h\<rparr>\<rparr>,
                    conn_w := (conn_w c)\<lparr>w_out := (w_out (conn_w c))\<lparr>cs_w := hs_w h\<rparr>\<rparr>\<rparr> in
          andthen (closing rt pick rwc_Close ''Failed to handshake'' (res, c)) (\<lambda>_ c.
          andthen (closing rt pick rwc_Close ''Failed to create control stream''
                     (on_streams (streams_Create ControlStreamID) c)) (\<lambda>_ c.
          andthen (ChangeState ControlStreamID streamStateClientNotConnected c) (\<lambda>_ c.
            (Ok \<lparr>cc_conn = c, cc_lastErr = None\<rparr>, c)))))"

text \<open>client.go: \<open>net_Dial\<close> is what dialling an address over TCP gives, a transport and a writer to it.\<close>

definition DialWithDialer ::
  "'u runtime \<Rightarrow> hs_env \<Rightarrow> (int \<Rightarrow> wait_case) \<Rightarrow> go_err option \<Rightarrow>
     (string \<Rightarrow> (transport \<times> ChunkStreamerWriter) outcome) \<Rightarrow> string \<Rightarrow> string \<Rightarrow> 'u \<Rightarrow> 'u ClientConn outcome" where
  "DialWithDialer rt env pick rwc_Close net_Dial protocol addr usr =
     (if protocol \<noteq> ''rtmp'' then Err (Errorf ''Unknown protocol: %s'' [ArgStr protocol])
      else bindr (net_Dial addr) (\<lambda>(r, w).
        fst (newClientConnWithSetup rt env pick rwc_Close (newConn r w (ConnConfig_normalize (rt_cfg rt)) usr))))"

text \<open>\<open>Dial\<close> uses the dialer of package net as it is.\<close>

definition Dial ::
  "'u runtime \<Rightarrow> hs_env \<Rightarrow> (int \<Rightarrow> wait_case) \<Rightarrow> go_err option \<Rightarrow>
     (string \<Rightarrow> (transport \<times> ChunkStreamerWriter) outcome) \<Rightarrow> string \<Rightarrow> string \<Rightarrow> 'u \<Rightarrow> 'u ClientConn outcome" where
  "Dial = DialWithDialer"

section \<open>The message loop and its error\<close>

definition LastError :: "'u ClientConn \<Rightarrow> go_err option" where
  "LastError cc = cc_lastErr cc"

definition setLastError :: "go_err \<Rightarrow> 'u ClientConn \<Rightarrow> 'u ClientConn" where
  "setLastError err cc = cc\<lparr>cc_lastErr := Some err\<rparr>"

lemmas last_error [simp] = LastError_def setLastError_def

definition startHandleMessageLoop :: "'u runtime \<Rightarrow> 'u ClientConn \<Rightarrow> 'u ClientConn" where
  "startHandleMessageLoop rt cc =
     (case handleMessageLoop rt (cc_conn cc) of
        (Err e, c) \<Rightarrow> setLastError e (cc\<lparr>cc_conn := c\<rparr>)
      | (_, c) \<Rightarrow> cc\<lparr>cc_conn := c\<rparr>)"

definition controllable :: "('u, unit) client_op" where
  "controllable cc =
     ((case LastError cc of None \<Rightarrow> Ok () | Some e \<Rightarrow> Err (Wrap e ''Client is in error state'')), cc)"

section \<open>Calls\<close>

definition control_stream :: "('u, Stream) client_op" where
  "control_stream cc = (streams_At ControlStreamID (conn_streams (cc_conn cc)), cc)"

text \<open>A stream method that changes the stream: the table holds the stream itself.\<close>

definition on_stream ::
  "Stream \<Rightarrow> (Stream \<times> 'u world \<Rightarrow> 'a outcome \<times> (Stream \<times> 'u world)) \<Rightarrow> ('u, 'a) client_op" where
  "on_stream s f cc =
     (case f (s, conn_w (cc_conn cc)) of
        (res, (s', w)) \<Rightarrow>
          (res, cc\<lparr>cc_conn := (cc_conn cc)\<lparr>conn_w := w,
                     conn_streams := putStream (streamID s) s' (conn_streams (cc_conn cc))\<rparr>\<rparr>))"

definition ClientConn_Connect :: "'u runtime \<Rightarrow> NetConnectionConnectCommand option \<Rightarrow> ('u, unit) client_op" where
  "ClientConn_Connect rt body cc =
     andthen (controllable cc) (\<lambda>_ cc.
     andthen (control_stream cc) (\<lambda>s cc. on_stream s (Connect_send rt body) cc))"

definition ClientConn_Connect_end :: "'u runtime \<Rightarrow> transaction \<Rightarrow> (unit, amf_body) client_result outcome" where
  "ClientConn_Connect_end rt t =
     bindr (Connect_result rt t) (\<lambda>r.
       Ok (case r of Accepted _ \<Rightarrow> Accepted () | Rejected tid result \<Rightarrow> Rejected tid result))"

definition ClientConn_CreateStream :: "'u runtime \<Rightarrow> u32 \<Rightarrow> ('u, unit) client_op" where
  "ClientConn_CreateStream rt chunk_size cc =
     andthen (controllable cc) (\<lambda>_ cc.
     andthen (control_stream cc) (\<lambda>s cc. on_stream s (CreateStream_send rt chunk_size) cc))"

definition ClientConn_CreateStream_end :: "'u runtime \<Rightarrow> transaction \<Rightarrow> ('u, (Stream, u32) client_result) client_op" where
  "ClientConn_CreateStream_end rt t cc =
     andthen (CreateStream_result rt t, cc) (\<lambda>r cc.
       (case r of
          Rejected tid sid \<Rightarrow> (Ok (Rejected tid sid), cc)
        | Accepted sid \<Rightarrow>
            andthen (on_conn (on_streams (streams_Create sid)) cc) (\<lambda>s cc. (Ok (Accepted s), cc))))"

definition ClientConn_DeleteStream :: "'u runtime \<Rightarrow> u32 \<Rightarrow> ('u, unit) client_op" where
  "ClientConn_DeleteStream rt sid cc =
     andthen (controllable cc) (\<lambda>_ cc.
     andthen (control_stream cc) (\<lambda>s cc.
     andthen (streams_At sid (conn_streams (cc_conn cc)), cc) (\<lambda>_ cc.
     andthen (on_conn (on_world (Stream_DeleteStream rt s sid)) cc) (\<lambda>_ cc.
       on_conn (on_streams (streams_Delete sid)) cc))))"

definition ClientConn_Close :: "'u runtime \<Rightarrow> (int \<Rightarrow> wait_case) \<Rightarrow> go_err option \<Rightarrow> ('u, unit) client_op" where
  "ClientConn_Close rt pick rwc_Close = on_conn (Conn_Close rt pick rwc_Close)"

section \<open>A command and its answer\<close>

lemma Connect_send_cases:
  assumes "Connect_send rt body (s, w) = (res, (s', w'))"
  obtains (busy) e where "map_of (trs s) 1 \<noteq> None" "res = Err e" "s' = s" "w' = w"
  | (made) "map_of (trs s) 1 = None" "s' = s\<lparr>trs := set_key 1 newTransaction (trs s)\<rparr>"
  using assms by (cases "map_of (trs s) 1") (auto simp: Connect_send_def transactions_Create_def Let_def split: prod.splits)

lemma handleReply_known:
  assumes "map_of (trs s) tid = Some newTransaction"
  shows "\<exists>t'. handleReply s name tid enc body c =
      (Ok (), c\<lparr>conn_streams := putStream (streamID s) (s\<lparr>trs := del_key tid (trs s)\<rparr>) (conn_streams c)\<rparr>, Some t') \<and>
    tr_done t' \<and> tr_commandName t' = name \<and> tr_encoding t' = enc \<and> tr_body t' = body"
  using assms
  by (simp add: handleReply_def transactions_At_def Reply_def newTransaction_def transactions_Delete_def)

end
