(* ===== verification/ClientProps.thy ===== *)
theory ClientProps
  imports Client SampleConn
begin

text \<open>
  Properties of a client connection: what a reply does, what a failed call leaves behind, and what a
  client's own streams do with media.
\<close>

text \<open>
  C26. A connect that was sent is answered by the reply to transaction 1: the message loop takes the
  reply, the waiting call gets the decoded result, as an acceptance or a rejection by the reply's name,
  and the transaction is gone, so that the client can connect again. A reply to a transaction that
  nobody waits for is an error and changes nothing.
\<close>

theorem connect_answered:
  assumes "Connect_send rt body (s, w) = (Ok (), (s', w'))"
    and "name = ''_result'' \<or> name = ''_error''"
    and "fst (DecodeBodyConnectResult (rt_lib rt) (rt_ms rt) reply) = Ok result"
  shows "(\<exists>t c' . handleReply s' name 1 EncodingTypeAMF0 reply c = (Ok (), c', Some t) \<and>
      Connect_result rt t = Ok (if name = ''_error'' then Rejected 1 result else Accepted result) \<and>
      (\<exists>s2. stream_at c' (streamID s) = Some s2 \<and> map_of (trs s2) = map_of (trs s))) \<and>
    (\<forall>tid. tid \<noteq> 1 \<longrightarrow> map_of (trs s) tid = None \<longrightarrow>
      (\<exists>e. handleReply s' name tid EncodingTypeAMF0 reply c = (Err (Wrap e ''Got response to the unexpected transaction''), c, None)))"
  using assms(1)
proof (cases rule: Connect_send_cases)
  case made
  have at: "map_of (trs s') 1 = Some newTransaction" "streamID s' = streamID s" using made(2) by simp_all
  obtain t' where t': "handleReply s' name 1 EncodingTypeAMF0 reply c =
      (Ok (), c\<lparr>conn_streams := putStream (streamID s') (s'\<lparr>trs := del_key 1 (trs s')\<rparr>) (conn_streams c)\<rparr>, Some t')"
    "tr_commandName t' = name" "tr_encoding t' = EncodingTypeAMF0" "tr_body t' = reply"
    using handleReply_known [OF at(1)] by blast
  have "Connect_result rt t' = Ok (if name = ''_error'' then Rejected 1 result else Accepted result)"
    using assms(3) by (simp add: Connect_result_def t' NewAMF_def EncodingTypeAMF0_def EncodingTypeAMF3_def)
  moreover have "map_of (del_key 1 (trs s')) = map_of (trs s)" using made by (simp add: fun_eq_iff)
  ultimately show ?thesis using t'(1) made at(2)
    by (auto simp: putStream_def handleReply_def transactions_At_def)
qed simp

definition clientControl :: Stream where
  "clientControl = with_state streamStateClientNotConnected (newStream 0)"

lemma sample_client_send:
  "\<exists>s' w'. Connect_send sampleRt None (clientControl, conn_w (sampleConn [])) = (Ok (), (s', w'))"
proof -
  let ?s = "clientControl\<lparr>trs := set_key 1 newTransaction (trs clientControl)\<rparr>"
  have s: "encTy ?s = EncodingTypeAMF0" "map_of (trs clientControl) 1 = None"
    by (simp_all add: clientControl_def with_state_def newStream_def)
  obtain w' where "writeCommandMessage sampleRt ?s 3 0 ''connect'' 1 (NetConnectionConnect zeroConnectCommand)
      (conn_w (sampleConn [])) = (Ok (), w')"
    by (rule sample_command [of "conn_w (sampleConn [])" 3 "NetConnectionConnect zeroConnectCommand" ?s 0 "''connect''" 1])
      (simp_all add: sampleConn_open s(1))
  then show ?thesis using s(2) by (simp add: Connect_send_def transactions_Create_def Let_def)
qed

theorem connect_answered_witness:
  "\<exists>s' w' t c' result. Connect_send sampleRt None (clientControl, conn_w (sampleConn [])) = (Ok (), (s', w')) \<and>
     handleReply s' ''_error'' 1 EncodingTypeAMF0 [] (sampleConn []) = (Ok (), c', Some t) \<and>
     Connect_result sampleRt t = Ok (Rejected 1 result)"
proof -
  obtain s' w' where s: "Connect_send sampleRt None (clientControl, conn_w (sampleConn [])) = (Ok (), (s', w'))"
    using sample_client_send by blast
  obtain r where "fst (DecodeBodyConnectResult (rt_lib sampleRt) (rt_ms sampleRt) []) = Ok r"
    by (simp add: sampleRt_def plainAmf_def sampleMs_def DecodeBodyConnectResult_def dec_err_def reconstruct_def zeroConnectResult_def
        ConnectResult_FromArgs_def arg_def)
  from connect_answered [OF s _ this, of "''_error''" "sampleConn []"] s show ?thesis by auto
qed

text \<open>
  A connect that could not be written leaves its transaction behind: from then on every connect on
  the connection fails before it writes anything, whatever the network does.
\<close>

lemma failed_connect_leaks:
  assumes "Connect_send rt body (s, w) = (Err e, (s', w'))"
  shows "\<exists>e'. Connect_send rt2 body' (s', w2) = (Err e', (s', w2))"
  using assms
  by (cases rule: Connect_send_cases)
    (auto simp: Connect_send_def transactions_Create_def split: option.splits)

lemma failed_connect_leaks_witness:
  "\<exists>e s' w' e'. Connect_send (sampleRt\<lparr>rt_turn := \<lambda>csid out. (out, WaitCtx DeadlineExceeded)\<rparr>) None
      (clientControl, conn_w (sampleConn [])) = (Err e, (s', w')) \<and>
    Connect_send sampleRt None (s', conn_w (sampleConn [])) = (Err e', (s', conn_w (sampleConn [])))"
proof -
  let ?rt = "sampleRt\<lparr>rt_turn := \<lambda>csid out. (out, WaitCtx DeadlineExceeded)\<rparr>"
  have lib: "rt_lib sampleRt = plainAmf" by (simp add: sampleRt_def)
  let ?out = "w_out (conn_w (sampleConn []))"
  obtain out' where p: "prepareChunkWriter 3 ?out = (Ok (newWriter 3), out')"
    using open_out_room [OF sampleConn_open, of "[]"]
    by (simp add: prepareChunkWriter_def) (simp add: sampleConn_def newConn_def Let_def NewChunkStreamer_out_def)
  then have wr: "\<exists>out2. \<forall>m. Write plainAmf 3 0 m (WaitCtx DeadlineExceeded) ?out =
      (Err (Wrap DeadlineExceeded ''Failed to wait chunk writer''), out2)"
    by (simp add: Write_def Write_reset_def NewChunkWriter_def wrap_err_def)
  then obtain e out2 where wr: "\<And>m. Write plainAmf 3 0 m (WaitCtx DeadlineExceeded) ?out = (Err e, out2)" by blast
  have s: "encTy clientControl = EncodingTypeAMF0" "trs clientControl = []"
    by (simp_all add: clientControl_def with_state_def newStream_def)
  obtain s' w' where "Connect_send ?rt None (clientControl, conn_w (sampleConn [])) = (Err e, (s', w'))"
    by (simp add: Connect_send_def transactions_Create_def s writeCommandMessage_def lib EncodeBodyAnyValues_def plain_args
        Stream_Write_def Let_def del: encode_args.simps)
      (simp add: NewAMF_def EncodingTypeAMF0_def EncodingTypeAMF3_def wr)
  moreover from failed_connect_leaks [OF this, of sampleRt None "conn_w (sampleConn [])"] obtain e' where
    "Connect_send sampleRt None (s', conn_w (sampleConn [])) = (Err e', (s', conn_w (sampleConn [])))" by blast
  ultimately show ?thesis by metis
qed


definition createdReply :: transaction where
  "createdReply = \<lparr>tr_commandName = ''_result'', tr_encoding = 0, tr_body = 5 # snd (amf_enc sampleAmf (AUint32 1)),
     tr_lastErr = None, tr_done = True\<rparr>"


end
