(* ===== verification/ServerProps.thy ===== *)
theory ServerProps
  imports CallbackOrder SampleConn
begin

text \<open>
  What the server answers: the exchange after connect, the replies to createStream and what stays in
  the table of streams, and the statuses after publish.
\<close>

section \<open>Writes in a row\<close>

lemma on_world_Ok:
  assumes "on_world f c = (res, c')"
  obtains w where "f (conn_w c) = (res, w)" "c' = c\<lparr>conn_w := w\<rparr>"
  using assms by (auto simp: on_world_def split: prod.splits)

lemma written:
  assumes "on_world (Stream_Write rt sid csid ts m) c = (res, c')"
  shows "w_log (conn_w c') = w_log (conn_w c) @ (if is_Ok res then [(sid, csid, ts, m)] else [])"
    "io_step c c'"
proof -
  from on_world_Ok [OF assms] obtain w where "Stream_Write rt sid csid ts m (conn_w c) = (res, w)" "c' = c\<lparr>conn_w := w\<rparr>" .
  with Stream_Write_log show "w_log (conn_w c') = w_log (conn_w c) @ (if is_Ok res then [(sid, csid, ts, m)] else [])" by force
  show "io_step c c'" by (rule io_written [OF assms])
qed

lemma wrote_command:
  assumes "on_world (writeCommandMessage rt s csid ts name tid body) c = (Ok u, c')"
  obtains bs where "EncodeBodyAnyValues (rt_lib rt) (Some body) [] = (Ok (), bs)"
    "w_log (conn_w c') = w_log (conn_w c) @ [(streamID s, csid, ts, CommandMessage name tid (encTy s) bs)]" "io_step c c'"
proof -
  from on_world_Ok [OF assms] obtain w where
    w: "writeCommandMessage rt s csid ts name tid body (conn_w c) = (Ok u, w)" "c' = c\<lparr>conn_w := w\<rparr>" .
  have io: "io_step c c'"
    by (rule io_command [OF assms])
  from w(1) show thesis
  proof (cases rule: writeCommandMessage_log)
    case (wrote bs)
    with w(2) io that show thesis by simp
  qed simp
qed

lemmas write_defs = WriteWinAckSize_def WriteSetPeerBandwidth_def WriteUserCtrl_def

section \<open>connect\<close>

definition connect_answers :: "'u runtime \<Rightarrow> Stream \<Rightarrow> int \<Rightarrow> u32 \<Rightarrow> (u32 \<times> int \<times> u32 \<times> message) list \<Rightarrow> bool" where
  "connect_answers rt s csid ts ms \<longleftrightarrow>
     (\<exists>ack bw limit result bs.
        ms = [(streamID s, 2, ts, WinAckSize ack), (streamID s, 2, ts, SetPeerBandwidth bw limit),
              (streamID s, 2, ts, UserCtrl (UserCtrlEventStreamBegin (streamID s))),
              (streamID s, csid, ts, CommandMessage ''_result'' 1 (encTy s) bs)] \<and>
        result = newConnectSuccessResult rt \<and>
        EncodeBodyAnyValues (rt_lib rt) (Some (NetConnectionConnectResult (fst result) (snd result))) [] = (Ok (), bs))"

lemma connect_accepted:
  assumes "on_world (OnConnect (userHandler rt) ts cmd) c = (Ok (), c1)"
    and "serverControlNotConnected_connect rt s csid ts cmd c = (Ok (), c')" "stream_at c (streamID s) = Some s"
  obtains c5 where "connect_answers rt s csid ts (drop (length (w_log (conn_w c1))) (w_log (conn_w c5)))"
    "take (length (w_log (conn_w c1))) (w_log (conn_w c5)) = w_log (conn_w c1)" "io_step c1 c5"
    "c' = c5\<lparr>conn_streams := putStream (streamID s) (with_state streamStateServerConnected s) (conn_streams c5)\<rparr>"
proof -
  from assms(1,2) obtain c2 c3 c4 c5 u2 u3 u4 u5 ack bw limit where
    w: "on_world (WriteWinAckSize rt s 2 ts ack) c1 = (Ok u2, c2)"
      "on_world (WriteSetPeerBandwidth rt s 2 ts bw limit) c2 = (Ok u3, c3)"
      "on_world (WriteUserCtrl rt s 2 ts (UserCtrlEventStreamBegin (streamID s))) c3 = (Ok u4, c4)"
    and r: "on_world (ReplyConnect_with rt s csid ts (newConnectSuccessResult rt)) c4 = (Ok u5, c5)"
    and ch: "ChangeState (streamID s) streamStateServerConnected c5 = (Ok (), c')"
    by (auto simp: serverControlNotConnected_connect_def Let_def bindo_Ok_iff ctrlMsgChunkStreamID_def)
  note logs = w [unfolded write_defs, THEN written(1)] and ios = w [unfolded write_defs, THEN written(2)]
  let ?r = "newConnectSuccessResult rt"
  have code: "Code (snd ?r) = NetConnectionConnectCodeSuccess"
    by (simp add: newConnectSuccessResult_def connect_result_def Let_def)
  from r obtain bs where bs: "EncodeBodyAnyValues (rt_lib rt) (Some (NetConnectionConnectResult (fst ?r) (snd ?r))) [] = (Ok (), bs)"
      "w_log (conn_w c5) = w_log (conn_w c4) @ [(streamID s, csid, ts, CommandMessage ''_result'' 1 (encTy s) bs)]" "io_step c4 c5"
    unfolding ReplyConnect_with_def ReplyConnect_def by (auto simp: Let_def code elim: wrote_command)
  have log: "w_log (conn_w c5) = w_log (conn_w c1) @
      [(streamID s, 2, ts, WinAckSize ack), (streamID s, 2, ts, SetPeerBandwidth bw limit),
       (streamID s, 2, ts, UserCtrl (UserCtrlEventStreamBegin (streamID s))),
       (streamID s, csid, ts, CommandMessage ''_result'' 1 (encTy s) bs)]"
    using logs bs(2) by simp
  have io: "io_step c1 c5" using ios bs(3) io_trans by blast
  have "stream_at c5 (streamID s) = Some s"
    using assms(3) on_world_streams [OF assms(1)] io_streams [OF io] by simp
  from ChangeState_at [OF this, of streamStateServerConnected] ch show thesis
    using that [of c5] log bs(1) io by (simp add: connect_answers_def settable_def)
qed

text \<open>
  C6. A connect that the handler accepts: when handling it succeeds, the client was sent the
  acknowledgement window, the peer bandwidth, stream begin and the successful result, in this order and
  nothing else, and the stream is connected. When the handler refuses, the stream stays as it was, at
  most one message was sent, the failed result, and handling fails, which ends the connection.
\<close>

theorem connect_exchange:
  assumes "stream_at c (streamID s) = Some s"
    and "on_world (OnConnect (userHandler rt) ts cmd) c = (res, c1)"
    and "serverControlNotConnected_onCommand rt s csid ts tid (NetConnectionConnect cmd) c = (res', c')"
  shows "(res = Ok () \<and> res' = Ok () \<longrightarrow>
      connect_answers rt s csid ts (drop (length (w_log (conn_w c1))) (w_log (conn_w c'))) \<and>
      stream_at c' (streamID s) = Some (with_state streamStateServerConnected s)) \<and>
    (\<forall>e. res = Err e \<longrightarrow> is_Ok res' = False \<and> conn_streams c' = conn_streams c \<and>
      (w_log (conn_w c') = w_log (conn_w c1) \<or>
       (\<exists>bs. res' = Err e \<and> w_log (conn_w c') =
          w_log (conn_w c1) @ [(streamID s, csid, ts, CommandMessage ''_error'' 1 (encTy s) bs)])))"
proof (intro conjI impI allI)
  assume "res = Ok () \<and> res' = Ok ()"
  then have "serverControlNotConnected_connect rt s csid ts cmd c = (Ok (), c')"
    using assms(3) by (auto simp: serverControlNotConnected_onCommand_def deferred_reply_def split: prod.splits outcome.splits)
  from connect_accepted [OF _ this assms(1), of c1] assms(2) \<open>res = Ok () \<and> res' = Ok ()\<close> obtain c5 where
    "connect_answers rt s csid ts (drop (length (w_log (conn_w c1))) (w_log (conn_w c5)))"
    "c' = c5\<lparr>conn_streams := putStream (streamID s) (with_state streamStateServerConnected s) (conn_streams c5)\<rparr>" by auto
  then show "connect_answers rt s csid ts (drop (length (w_log (conn_w c1))) (w_log (conn_w c')))"
    "stream_at c' (streamID s) = Some (with_state streamStateServerConnected s)"
    by (simp_all add: putStream_def)
next
  fix e assume e: "res = Err e"
  let ?r = "newConnectErrorResult rt"
  have code: "Code (snd ?r) = NetConnectionConnectCodeFailed"
    "NetConnectionConnectCodeFailed \<noteq> NetConnectionConnectCodeSuccess" "NetConnectionConnectCodeFailed \<noteq> NetConnectionConnectCodeClosed"
    by (simp_all add: newConnectErrorResult_def connect_result_def Let_def NetConnectionConnectCodeFailed_def
        NetConnectionConnectCodeSuccess_def NetConnectionConnectCodeClosed_def)
  have fail: "serverControlNotConnected_connect rt s csid ts cmd c = (Err e, c1)"
    using assms(2) e by (simp add: serverControlNotConnected_connect_def)
  obtain o2 c2 where rp: "on_world (ReplyConnect_with rt s csid ts ?r) c1 = (o2, c2)" by fastforce
  have res': "is_Ok res' = False \<and> c' = c2 \<and> (is_Ok o2 \<longrightarrow> res' = Err e)"
    using assms(3) fail rp by (cases o2) (auto simp: serverControlNotConnected_onCommand_def deferred_reply_def)
  from rp obtain w where w: "writeCommandMessage rt s csid ts ''_error'' 1 (NetConnectionConnectResult (fst ?r) (snd ?r)) (conn_w c1) = (o2, w)"
    "c2 = c1\<lparr>conn_w := w\<rparr>"
    unfolding ReplyConnect_with_def ReplyConnect_def by (auto simp: Let_def code elim: on_world_Ok)
  show "is_Ok res' = False" using res' by simp
  show "conn_streams c' = conn_streams c" using res' w(2) on_world_streams [OF assms(2)] by simp
  from w(1) show "w_log (conn_w c') = w_log (conn_w c1) \<or>
       (\<exists>bs. res' = Err e \<and> w_log (conn_w c') =
          w_log (conn_w c1) @ [(streamID s, csid, ts, CommandMessage ''_error'' 1 (encTy s) bs)])"
    by (cases rule: writeCommandMessage_log) (use res' w(2) in auto)
qed


definition controlStream :: Stream where
  "controlStream = with_state streamStateServerNotConnected (newStream 0)"

lemma sample_connect:
  assumes "open_out (w_out (conn_w c))" "csid \<in> {2, 3}" "stream_at c 0 = Some controlStream"
  shows "\<exists>c'. serverControlNotConnected_onCommand sampleRt controlStream csid ts tid (NetConnectionConnect cmd) c = (Ok (), c')"
proof -
  let ?s = controlStream
  have ty: "TypeID (WinAckSize n) = Ok 5" "TypeID (SetPeerBandwidth n l) = Ok 6" "TypeID (UserCtrl ev) = Ok 4" for n l ev by simp_all
  have en: "fst (Encode plainAmf (WinAckSize n) b) = Ok ()" "fst (Encode plainAmf (SetPeerBandwidth n l) b) = Ok ()"
    "fst (Encode plainAmf (UserCtrl (UserCtrlEventStreamBegin i)) b) = Ok ()" for n l i b by simp_all
  have two: "ctrlMsgChunkStreamID \<in> {2, 3}" by (simp add: ctrlMsgChunkStreamID_def)
  let ?self = "\<lambda>w. selfState (w_out w)"
  obtain w1 where w1: "Stream_Write sampleRt 0 ctrlMsgChunkStreamID ts (WinAckSize (ackWindowSize (?self (conn_w c)))) (conn_w c) = (Ok (), w1)"
    "open_out (w_out w1)" using sample_Stream_Write [OF assms(1) two en(1) ty(1), of 0 ts] by blast
  obtain w2 where w2: "Stream_Write sampleRt 0 ctrlMsgChunkStreamID ts
      (SetPeerBandwidth (bandwidthWindowSize (?self w1)) (bandwidthLimitType (?self w1))) w1 = (Ok (), w2)"
    "open_out (w_out w2)" using sample_Stream_Write [OF w1(2) two en(2) ty(2), of 0 ts] by blast
  obtain w3 where w3: "Stream_Write sampleRt 0 ctrlMsgChunkStreamID ts (UserCtrl (UserCtrlEventStreamBegin 0)) w2 = (Ok (), w3)"
    "open_out (w_out w3)" using sample_Stream_Write [OF w2(2) two en(3) ty(3), of 0 ts] by blast
  let ?r = "newConnectSuccessResult sampleRt"
  obtain w4 where w4: "writeCommandMessage sampleRt ?s csid ts ''_result'' 1 (NetConnectionConnectResult (fst ?r) (snd ?r)) w3 = (Ok (), w4)"
    by (rule sample_command [OF w3(2) assms(2), of "NetConnectionConnectResult (fst ?r) (snd ?r)" ?s ts "''_result''" 1])
      (simp_all add: controlStream_def with_state_def newStream_def)
  have rc: "ReplyConnect_with sampleRt ?s csid ts ?r w3 = (Ok (), w4)"
    using w4 by (simp add: ReplyConnect_with_def ReplyConnect_def Let_def newConnectSuccessResult_def connect_result_def)
  have sid: "streamID ?s = 0" by (simp add: controlStream_def with_state_def newStream_def)
  have cb: "OnConnect (userHandler sampleRt) ts cmd w = (Ok (), w)" for w :: "unit world"
    by (simp add: userHandler_def sampleRt_def sampleConnCfg_def ConnConfig_normalize_def DefaultHandler_def Let_def)
  have "serverControlNotConnected_connect sampleRt ?s csid ts cmd c =
      ChangeState 0 streamStateServerConnected (c\<lparr>conn_w := w4\<rparr>)"
    using w1(1) w2(1) w3(1)
    by (simp add: serverControlNotConnected_connect_def on_world_def cb write_defs sid rc Let_def)
  moreover have "stream_at (c\<lparr>conn_w := w4\<rparr>) 0 = Some ?s" using assms(3) by simp
  ultimately show ?thesis
    using ChangeState_at [of "c\<lparr>conn_w := w4\<rparr>" 0 ?s streamStateServerConnected]
    by (simp add: serverControlNotConnected_onCommand_def deferred_reply_def settable_def)
qed

theorem connect_exchange_witness:
  "\<exists>c'. serverControlNotConnected_onCommand sampleRt controlStream 3 0 1 (NetConnectionConnect zeroConnectCommand)
      (sampleConn [(0, controlStream)]) = (Ok (), c') \<and>
    connect_answers sampleRt controlStream 3 0 (w_log (conn_w c')) \<and>
    stream_at c' 0 = Some (with_state streamStateServerConnected controlStream)"
proof -
  let ?c = "sampleConn [(0, controlStream)]"
  have at: "stream_at ?c (streamID controlStream) = Some controlStream"
    by (simp add: controlStream_def with_state_def newStream_def)
  have cb: "on_world (OnConnect (userHandler sampleRt) 0 zeroConnectCommand) ?c = (Ok (), ?c)"
    by (simp add: userHandler_def sampleRt_def sampleConnCfg_def ConnConfig_normalize_def DefaultHandler_def Let_def on_world_def)
  have "w_log (conn_w ?c) = []" by (simp add: sampleConn_def newConn_def Let_def)
  moreover obtain c' where run: "serverControlNotConnected_onCommand sampleRt controlStream 3 0 1 (NetConnectionConnect zeroConnectCommand) ?c = (Ok (), c')"
    using sample_connect [OF sampleConn_open, of 3 "[(0, controlStream)]" 0 1 zeroConnectCommand] by auto
  ultimately show ?thesis
    using connect_exchange [OF at cb run] by (auto simp: controlStream_def with_state_def newStream_def)
qed


section \<open>createStream\<close>

lemma reply_create_log:
  assumes "on_world (ReplyCreateStream rt s csid ts tid new) c = (Ok u, c')"
  shows "\<exists>bs. EncodeBodyAnyValues (rt_lib rt) (Some (NetConnectionCreateStreamResult (case new of None \<Rightarrow> 0 | Some n \<Rightarrow> n))) [] = (Ok (), bs) \<and>
    w_log (conn_w c') = w_log (conn_w c) @ [(streamID s, csid, ts, CommandMessage
      (if new = None then ''_error'' else ''_result'') tid (encTy s) bs)]"
proof (cases new)
  case None
  with assms have "on_world (writeCommandMessage rt s csid ts ''_error'' tid (NetConnectionCreateStreamResult 0)) c = (Ok u, c')"
    by (simp add: on_world_def ReplyCreateStream_def)
  from wrote_command [OF this] None show ?thesis by auto
next
  case (Some n)
  with assms have "on_world (writeCommandMessage rt s csid ts ''_result'' tid (NetConnectionCreateStreamResult n)) c = (Ok u, c')"
    by (simp add: on_world_def ReplyCreateStream_def)
  from wrote_command [OF this] Some show ?thesis by auto
qed

lemma reply_create_streams:
  "on_world (ReplyCreateStream rt s csid ts tid new) c = (res, c') \<Longrightarrow> conn_streams c' = conn_streams c"
  by (rule on_world_streams)

definition same_table :: "'u Conn \<Rightarrow> 'u Conn \<Rightarrow> bool" where
  "same_table c c' \<longleftrightarrow> map_of (strm_map (conn_streams c')) = map_of (strm_map (conn_streams c))"

lemma deferred_table:
  assumes "deferred_reply reply body c = (res, c')" "body c = (res1, c1)" "same_table c c1"
    and "\<And>c. conn_streams (snd (reply c)) = conn_streams c"
  shows "same_table c c'"
proof -
  obtain o2 c2 where "reply c1 = (o2, c2)" by fastforce
  moreover from this assms(4) [of c1] have "conn_streams c2 = conn_streams c1" by simp
  ultimately show ?thesis using assms(1-3)
    by (cases res1; cases o2) (auto simp: deferred_reply_def same_table_def)
qed

definition created :: "'u runtime \<Rightarrow> Stream \<Rightarrow> int \<Rightarrow> u32 \<Rightarrow> i64 \<Rightarrow> 'u Conn \<Rightarrow> 'u Conn \<Rightarrow> 'u Conn \<Rightarrow> bool" where
  "created rt s csid ts tid c c1 c' \<longleftrightarrow>
     (\<exists>new bs. stream_at c new = None \<and>
        map_of (strm_map (conn_streams c')) = (map_of (strm_map (conn_streams c)))(new \<mapsto> with_state streamStateServerInactive (newStream new)) \<and>
        EncodeBodyAnyValues (rt_lib rt) (Some (NetConnectionCreateStreamResult new)) [] = (Ok (), bs) \<and>
        w_log (conn_w c') = w_log (conn_w c1) @ [(streamID s, csid, ts, CommandMessage ''_result'' tid (encTy s) bs)])"

definition refused :: "'u runtime \<Rightarrow> Stream \<Rightarrow> int \<Rightarrow> u32 \<Rightarrow> i64 \<Rightarrow> 'u Conn \<Rightarrow> 'u Conn \<Rightarrow> 'u Conn \<Rightarrow> bool" where
  "refused rt s csid ts tid c c1 c' \<longleftrightarrow>
     \<not> is_Ok (fst (CreateIfAvailable (conn_streams c))) \<and> same_table c c' \<and>
     (\<exists>bs. EncodeBodyAnyValues (rt_lib rt) (Some (NetConnectionCreateStreamResult 0)) [] = (Ok (), bs) \<and>
        w_log (conn_w c') = w_log (conn_w c1) @ [(streamID s, csid, ts, CommandMessage ''_error'' tid (encTy s) bs)])"

lemma createStream_cases:
  assumes "on_world (OnCreateStream (userHandler rt) ts) c = (Ok (), c1)"
    and "serverControlConnected_createStream rt s csid ts tid c = (res, c')"
  shows "(res = Ok () \<and> (created rt s csid ts tid c c1 c' \<or> refused rt s csid ts tid c c1 c')) \<or>
    (\<exists>e. res = Err e \<and> same_table c c') \<or> (\<exists>m. res = Panic m)"
proof -
  have ss1: "conn_streams c1 = conn_streams c" using on_world_streams [OF assms(1)] .
  obtain o2 ss where cr: "CreateIfAvailable (conn_streams c1) = (o2, ss)" by fastforce
  then have oc: "on_streams CreateIfAvailable c1 = (o2, c1\<lparr>conn_streams := ss\<rparr>)" by (simp add: on_streams_def)
  from cr show ?thesis
  proof (cases rule: CreateIfAvailable_cases)
    case (full e)
    obtain o3 c3 where rp: "on_world (ReplyCreateStream rt s csid ts tid None) c1 = (o3, c3)" by fastforce
    have run: "serverControlConnected_createStream rt s csid ts tid c =
        (case o3 of Err e1 \<Rightarrow> (Err (Wrap e ''Failed to reply response''), c3) | _ \<Rightarrow> (o3, c3))"
      using assms(1) oc full rp by (cases o3) (simp_all add: serverControlConnected_createStream_def)
    have ss3: "conn_streams c3 = conn_streams c" using reply_create_streams [OF rp] ss1 by simp
    show ?thesis
    proof (cases o3)
      case (Ok u)
      with reply_create_log [of rt s csid ts tid None c1 u c3] rp have
        "\<exists>bs. EncodeBodyAnyValues (rt_lib rt) (Some (NetConnectionCreateStreamResult 0)) [] = (Ok (), bs) \<and>
          w_log (conn_w c3) = w_log (conn_w c1) @ [(streamID s, csid, ts, CommandMessage ''_error'' tid (encTy s) bs)]" by simp
      with cr full ss1 ss3 run Ok assms(2) show ?thesis by (simp add: refused_def same_table_def)
    qed (use run assms(2) ss3 in \<open>auto simp: same_table_def\<close>)
  next
    case (made new n)
    let ?c2 = "c1\<lparr>conn_streams := ss\<rparr>"
    have on: "on_streams (streams_Create n) c1 = (Ok new, ?c2)" using made by (simp add: on_streams_def)
    note c2 = on_streams_Create [OF on]
    have id: "streamID new = n" using c2(1) by (simp add: newStream_def)
    have at: "stream_at ?c2 n = Some (newStream n)" unfolding c2(2) by (simp add: putStream_def)
    define c3 where "c3 = ?c2\<lparr>conn_streams := putStream n (with_state streamStateServerInactive (newStream n)) (conn_streams ?c2)\<rparr>"
    have ch: "ChangeState n streamStateServerInactive ?c2 = (Ok (), c3)"
      using ChangeState_at [OF at, of streamStateServerInactive] by (simp add: settable_def c3_def)
    obtain o4 c4 where rp: "on_world (ReplyCreateStream rt s csid ts tid (Some n)) c3 = (o4, c4)" by fastforce
    have run: "serverControlConnected_createStream rt s csid ts tid c =
        (case o4 of Err e \<Rightarrow> (Err e, snd (on_streams (streams_Delete n) c4)) | _ \<Rightarrow> (o4, c4))"
      using assms(1) oc made id ch rp by (cases o4) (simp_all add: serverControlConnected_createStream_def)
    have m4: "map_of (strm_map (conn_streams c4)) =
        (map_of (strm_map (conn_streams c)))(n \<mapsto> with_state streamStateServerInactive (newStream n))"
      using reply_create_streams [OF rp] ss1 unfolding c3_def c2(2) by (simp add: putStream_def)
    have free: "stream_at c n = None" using c2(3) ss1 by simp
    show ?thesis
    proof (cases o4)
      case (Ok u)
      with reply_create_log [of rt s csid ts tid "Some n" c3 u c4] rp have
        "\<exists>bs. EncodeBodyAnyValues (rt_lib rt) (Some (NetConnectionCreateStreamResult n)) [] = (Ok (), bs) \<and>
          w_log (conn_w c4) = w_log (conn_w c1) @ [(streamID s, csid, ts, CommandMessage ''_result'' tid (encTy s) bs)]"
        by (simp add: c3_def)
      with m4 free run Ok assms(2) show ?thesis by (auto simp: created_def)
    next
      case (Err e)
      have "same_table c (snd (on_streams (streams_Delete n) c4))"
        using m4 free by (simp add: same_table_def on_streams_def streams_Delete_def with_state_def newStream_def fun_eq_iff)
      with run Err assms(2) show ?thesis by simp
    qed (use run assms(2) in simp)
  qed
qed

lemma create_stream_outcome:
  assumes "on_world (OnCreateStream (userHandler rt) ts) c = (Ok (), c1)"
    and "serverControlConnected_onCommand rt s csid ts tid NetConnectionCreateStream c = (res, c')"
  shows "(res = Ok () \<and> (created rt s csid ts tid c c1 c' \<or> refused rt s csid ts tid c c1 c')) \<or>
    (\<exists>e. res = Err e \<and> same_table c c') \<or> (\<exists>m. res = Panic m)"
proof -
  obtain res1 c2 where b: "serverControlConnected_createStream rt s csid ts tid c = (res1, c2)" by fastforce
  note cs = createStream_cases [OF assms(1) b]
  have d: "deferred_reply (on_world (ReplyCreateStream rt s csid ts tid None))
      (serverControlConnected_createStream rt s csid ts tid) c = (res, c')"
    using assms(2) by (simp add: serverControlConnected_onCommand_def)
  show ?thesis
  proof (cases res1)
    case (Err e)
    with cs have st: "same_table c c2" by simp
    have "conn_streams (snd (on_world (ReplyCreateStream rt s csid ts tid None) c)) = conn_streams c" for c :: "'a Conn"
      by (metis on_world_streams prod.collapse)
    from deferred_table [OF d b st this] d b Err show ?thesis
      by (auto simp: deferred_reply_def split: prod.splits outcome.splits)
  qed (use cs d b in \<open>auto simp: deferred_reply_def\<close>)
qed

text \<open>
  C7. A createStream that the handler accepts: when handling it succeeds, either an inactive stream
  was created under an id that was free and the client was told this id, or no stream is free, no
  stream changed, and the client was told of the failure. When handling fails, also because the answer
  could not be sent, the table has the streams it had.
\<close>

theorem create_stream_exchange:
  assumes "on_world (OnCreateStream (userHandler rt) ts) c = (Ok (), c1)"
    and "serverControlConnected_onCommand rt s csid ts tid NetConnectionCreateStream c = (res, c')"
  shows "(res = Ok () \<and> (created rt s csid ts tid c c1 c' \<or> refused rt s csid ts tid c c1 c')) \<or>
    (\<exists>e. res = Err e \<and> same_table c c') \<or> (\<exists>m. res = Panic m)"
  by (rule create_stream_outcome [OF assms])

definition connectedStream :: Stream where
  "connectedStream = with_state streamStateServerConnected (newStream 0)"

lemma sample_created:
  fixes rt :: "unit runtime"
  assumes "userHandler rt = DefaultHandler"
    and "\<And>w. open_out (w_out w) \<Longrightarrow>
      \<exists>w'. writeCommandMessage rt connectedStream 3 0 ''_result'' tid (NetConnectionCreateStreamResult 1) w = (Ok (), w')"
  shows "\<exists>c'. serverControlConnected_onCommand rt connectedStream 3 0 tid NetConnectionCreateStream
      (sampleConn [(0, connectedStream)]) = (Ok (), c')"
    "on_world (OnCreateStream (userHandler rt) 0) (sampleConn [(0, connectedStream)]) = (Ok (), sampleConn [(0, connectedStream)])"
    "is_Ok (fst (CreateIfAvailable (conn_streams (sampleConn [(0, connectedStream)]))))"
proof -
  let ?c = "sampleConn [(0, connectedStream)]" and ?s = connectedStream
  show cb: "on_world (OnCreateStream (userHandler rt) 0) ?c = (Ok (), ?c)"
    by (simp add: assms(1) DefaultHandler_def Let_def on_world_def)
  have lim: "strm_limit (conn_streams ?c) = 0xffffffff" "strm_map (conn_streams ?c) = [(0, ?s)]"
    by (simp_all add: sampleConn_def newConn_def newStreams_def Let_def sampleConnCfg_def ConnConfig_normalize_def
        normalize_def zeroConfig_def)
  have cr: "CreateIfAvailable (conn_streams ?c) = streams_Create 1 (conn_streams ?c)"
  proof -
    have "k = 0" if "0 \<le> k \<and> k < 1" for k :: int using that by simp
    moreover have "taken (conn_streams ?c) 0" by (simp add: taken_def lim)
    ultimately have "\<forall>k. 0 \<le> k \<and> k < 1 \<longrightarrow> taken (conn_streams ?c) k" by metis
    moreover have "\<not> taken (conn_streams ?c) 1" by (simp add: taken_def lim)
    ultimately show ?thesis
      using create_first_least [of "conn_streams ?c" 0 1 "nat (strm_limit (conn_streams ?c))"]
      by (simp add: CreateIfAvailable_def lim)
  qed
  show "is_Ok (fst (CreateIfAvailable (conn_streams ?c)))"
    unfolding cr by (simp add: streams_Create_def lim)
  obtain ss where mk: "on_streams CreateIfAvailable ?c = (Ok (newStream 1), ?c\<lparr>conn_streams := ss\<rparr>)"
    unfolding on_streams_def cr by (simp add: streams_Create_def lim)
  let ?c2 = "?c\<lparr>conn_streams := ss\<rparr>"
  obtain c3 where ch: "ChangeState 1 streamStateServerInactive ?c2 = (Ok (), c3)" "conn_w c3 = conn_w ?c"
    by (cases "stream_at ?c2 1") (auto simp: ChangeState_def)
  obtain w4 where "writeCommandMessage rt ?s 3 0 ''_result'' tid (NetConnectionCreateStreamResult 1) (conn_w c3) = (Ok (), w4)"
    using assms(2) [of "conn_w c3"] by (auto simp: ch(2) sampleConn_open)
  then have "on_world (ReplyCreateStream rt ?s 3 0 tid (Some 1)) c3 = (Ok (), c3\<lparr>conn_w := w4\<rparr>)"
    by (simp add: on_world_def ReplyCreateStream_def)
  then have "serverControlConnected_createStream rt ?s 3 0 tid ?c = (Ok (), c3\<lparr>conn_w := w4\<rparr>)"
    using cb mk ch(1) by (simp add: serverControlConnected_createStream_def newStream_def)
  then show "\<exists>c'. serverControlConnected_onCommand rt ?s 3 0 tid NetConnectionCreateStream ?c = (Ok (), c')"
    by (simp add: serverControlConnected_onCommand_def deferred_reply_def)
qed

lemma sample_default: "userHandler sampleRt = DefaultHandler" "userHandler amfRt = DefaultHandler"
  by (simp_all add: userHandler_def amfRt_def sampleRt_def sampleConnCfg_def ConnConfig_normalize_def)

theorem create_stream_exchange_witness:
  "\<exists>c'. serverControlConnected_onCommand sampleRt connectedStream 3 0 4 NetConnectionCreateStream
      (sampleConn [(0, connectedStream)]) = (Ok (), c') \<and>
    created sampleRt connectedStream 3 0 4 (sampleConn [(0, connectedStream)]) (sampleConn [(0, connectedStream)]) c'"
proof -
  have enc: "encTy connectedStream = EncodingTypeAMF0" by (simp add: connectedStream_def with_state_def newStream_def)
  have wr: "\<exists>w'. writeCommandMessage sampleRt connectedStream 3 0 ''_result'' 4 (NetConnectionCreateStreamResult 1) w = (Ok (), w')"
    if "open_out (w_out w)" for w
    by (rule sample_command [OF that, of 3 "NetConnectionCreateStreamResult 1" connectedStream 0 "''_result''" 4]) (auto simp: enc)
  note sc = sample_created [OF sample_default(1) wr]
  from sc(1) obtain c' where run: "serverControlConnected_onCommand sampleRt connectedStream 3 0 4 NetConnectionCreateStream
      (sampleConn [(0, connectedStream)]) = (Ok (), c')" by blast
  have "\<not> refused sampleRt connectedStream 3 0 4 (sampleConn [(0, connectedStream)]) c1 c'" for c1
    using sc(3) by (simp add: refused_def)
  with create_stream_exchange [OF sc(2) run] run show ?thesis by blast
qed


section \<open>publish and play\<close>

lemma notified:
  assumes "on_world (NotifyStatus rt s csid ts body) c = (Ok u, c')"
  obtains bs where "EncodeBodyAnyValues (rt_lib rt) (Some body) [] = (Ok (), bs)"
    "w_log (conn_w c') = w_log (conn_w c) @ [(streamID s, csid, ts, CommandMessage ''onStatus'' 0 (encTy s) bs)]" "io_step c c'"
  using assms wrote_command [of rt s csid ts "''onStatus''" 0 body c u c'] by (auto simp: NotifyStatus_def [abs_def])

definition status_sent :: "'u runtime \<Rightarrow> Stream \<Rightarrow> int \<Rightarrow> u32 \<Rightarrow> amf_body \<Rightarrow> 'u Conn \<Rightarrow> 'u Conn \<Rightarrow> bool" where
  "status_sent rt s csid ts body c c' \<longleftrightarrow>
     (\<exists>bs. EncodeBodyAnyValues (rt_lib rt) (Some body) [] = (Ok (), bs) \<and>
        w_log (conn_w c') = w_log (conn_w c) @ [(streamID s, csid, ts, CommandMessage ''onStatus'' 0 (encTy s) bs)])"

lemma publish_outcome:
  assumes "stream_at c (streamID s) = Some s"
    and "on_world (OnPublish (userHandler rt) (streamID s) ts name ty) c = (res, c1)"
    and "serverDataInactive_onCommand rt s csid ts (NetStreamPublish name ty) c = (res', c')"
  shows "(res' = Ok () \<longrightarrow> res = Ok () \<and>
      status_sent rt s csid ts (NetStreamOnStatus ''status'' ''NetStream.Publish.Start'' ''Publish succeeded.'') c1 c' \<and>
      stream_at c' (streamID s) = Some (with_state streamStateServerPublish s) \<and>
      w_http (conn_w c') = w_http (conn_w c1) @ [''http://localhost:7001/data?channel=$tart'']) \<and>
    (\<forall>e. res = Err e \<longrightarrow> is_Ok res' = False \<and> conn_streams c' = conn_streams c \<and> w_http (conn_w c') = w_http (conn_w c1) \<and>
      (w_log (conn_w c') = w_log (conn_w c1) \<or> res' = Err e \<and>
        status_sent rt s csid ts (NetStreamOnStatus ''error'' ''NetStream.Publish.Failed'' ''Publish failed.'') c1 c'))"
proof -
  let ?ok = "newOnStatus NetStreamOnStatusCodePublishStart ''Publish succeeded.''"
  let ?bad = "newOnStatus NetStreamOnStatusCodePublishFailed ''Publish failed.''"
  have st: "?ok = NetStreamOnStatus ''status'' ''NetStream.Publish.Start'' ''Publish succeeded.''"
    "?bad = NetStreamOnStatus ''error'' ''NetStream.Publish.Failed'' ''Publish failed.''"
    by (simp_all add: newOnStatus_def NetStreamOnStatusCodePublishStart_def NetStreamOnStatusCodePublishFailed_def
        NetStreamOnStatusCodeConnectFailed_def NetStreamOnStatusCodePlayFailed_def NetStreamOnStatusCodePublishBadName_def
        NetStreamOnStatusLevelStatus_def NetStreamOnStatusLevelError_def)
  note ss1 = on_world_streams [OF assms(2)]
  note run = assms(3) [unfolded serverDataInactive_onCommand_def amf_body.case inactive_accept_def assms(2) prod.case]
  show ?thesis
  proof (cases res)
    case (Ok u)
    show ?thesis
    proof (cases "res' = Ok ()")
      case True
      with run Ok obtain u2 c2 where n: "on_world (NotifyStatus rt s csid ts ?ok) c1 = (Ok u2, c2)"
        and ch: "andthen (ChangeState (streamID s) streamStateServerPublish c2) (\<lambda>_ c. on_world myApi c) = (Ok (), c')"
        by (auto simp: bindo_Ok_iff)
      from n obtain bs where log: "EncodeBodyAnyValues (rt_lib rt) (Some ?ok) [] = (Ok (), bs)"
        "w_log (conn_w c2) = w_log (conn_w c1) @ [(streamID s, csid, ts, CommandMessage ''onStatus'' 0 (encTy s) bs)]" "io_step c1 c2"
        by (rule notified)
      have "w_http (snd (NotifyStatus rt s csid ts ?ok (conn_w c1))) = w_http (conn_w c1)" by (simp add: NotifyStatus_def frame)
      with n have http: "w_http (conn_w c2) = w_http (conn_w c1)" by (auto simp: on_world_def split: prod.splits)
      have "stream_at c2 (streamID s) = Some s" using assms(1) ss1 io_streams [OF log(3)] by simp
      from ChangeState_at [OF this, of streamStateServerPublish] ch log(1,2) http Ok True show ?thesis
        by (auto simp: settable_def on_world_def myApi_def status_sent_def putStream_def st)
    qed (use Ok in simp)
  next
    case (Err e)
    obtain o2 c2 where n: "on_world (NotifyStatus rt s csid ts ?bad) c1 = (o2, c2)" by fastforce
    have c': "is_Ok res' = False \<and> c' = c2 \<and> (is_Ok o2 \<longrightarrow> res' = Err e)"
      using run Err n by (cases o2) auto
    have "w_http (snd (NotifyStatus rt s csid ts ?bad (conn_w c1))) = w_http (conn_w c1)" by (simp add: NotifyStatus_def frame)
    with n have http: "w_http (conn_w c2) = w_http (conn_w c1)" by (auto simp: on_world_def split: prod.splits)
    from on_world_Ok [OF n] obtain w where
      w: "writeCommandMessage rt s csid ts ''onStatus'' 0 ?bad (conn_w c1) = (o2, w)" "c2 = c1\<lparr>conn_w := w\<rparr>"
      by (auto simp: NotifyStatus_def)
    from w(1) have "w_log w = w_log (conn_w c1) \<or> is_Ok o2 \<and> status_sent rt s csid ts ?bad c1 c2"
      by (cases rule: writeCommandMessage_log) (use w(2) in \<open>auto simp: status_sent_def\<close>)
    with Err c' http w(2) ss1 show ?thesis by (auto simp: st)
  qed (use run in auto)
qed

text \<open>
  C9. A publish on an inactive stream: when handling it succeeds, the handler accepted it, the client
  was sent exactly the status Publish.Start, the stream publishes, and the notification URL was
  requested once. When the handler refuses, the stream stays inactive, nothing is requested, the status
  sent, if any, is Publish.Failed, and handling fails with the handler's error, which ends the connection.
\<close>

theorem publish_exchange:
  assumes "stream_at c (streamID s) = Some s"
    and "on_world (OnPublish (userHandler rt) (streamID s) ts name ty) c = (res, c1)"
    and "serverDataInactive_onCommand rt s csid ts (NetStreamPublish name ty) c = (res', c')"
  shows "(res' = Ok () \<longrightarrow> res = Ok () \<and>
      status_sent rt s csid ts (NetStreamOnStatus ''status'' ''NetStream.Publish.Start'' ''Publish succeeded.'') c1 c' \<and>
      stream_at c' (streamID s) = Some (with_state streamStateServerPublish s) \<and>
      w_http (conn_w c') = w_http (conn_w c1) @ [''http://localhost:7001/data?channel=$tart'']) \<and>
    (\<forall>e. res = Err e \<longrightarrow> is_Ok res' = False \<and> conn_streams c' = conn_streams c \<and> w_http (conn_w c') = w_http (conn_w c1) \<and>
      (w_log (conn_w c') = w_log (conn_w c1) \<or> res' = Err e \<and>
        status_sent rt s csid ts (NetStreamOnStatus ''error'' ''NetStream.Publish.Failed'' ''Publish failed.'') c1 c'))"
  by (rule publish_outcome [OF assms])

definition inactiveStream :: Stream where
  "inactiveStream = with_state streamStateServerInactive (newStream 1)"

theorem publish_exchange_witness:
  "\<exists>c'. serverDataInactive_onCommand sampleRt inactiveStream 3 0 (NetStreamPublish ''key'' ''live'')
      (sampleConn [(1, inactiveStream)]) = (Ok (), c') \<and>
    stream_at c' 1 = Some (with_state streamStateServerPublish inactiveStream) \<and>
    w_http (conn_w c') = [''http://localhost:7001/data?channel=$tart'']"
proof -
  let ?c = "sampleConn [(1, inactiveStream)]" and ?s = inactiveStream
  let ?ok = "newOnStatus NetStreamOnStatusCodePublishStart ''Publish succeeded.''"
  have s: "streamID ?s = 1" "encTy ?s = EncodingTypeAMF0" by (simp_all add: inactiveStream_def with_state_def newStream_def)
  have at: "stream_at ?c (streamID ?s) = Some ?s" by (simp add: s)
  have cb: "on_world (OnPublish (userHandler sampleRt) (streamID ?s) 0 ''key'' ''live'') ?c = (Ok (), ?c)"
    by (simp add: userHandler_def sampleRt_def sampleConnCfg_def ConnConfig_normalize_def DefaultHandler_def Let_def on_world_def)
  obtain w4 where "writeCommandMessage sampleRt ?s 3 0 ''onStatus'' 0 ?ok (conn_w ?c) = (Ok (), w4)"
    by (rule sample_command [of "conn_w ?c" 3 ?ok ?s 0 "''onStatus''" 0]) (simp_all add: sampleConn_open s newOnStatus_def)
  then have n: "on_world (NotifyStatus sampleRt ?s 3 0 ?ok) ?c = (Ok (), ?c\<lparr>conn_w := w4\<rparr>)"
    by (simp add: on_world_def NotifyStatus_def)
  have "stream_at (?c\<lparr>conn_w := w4\<rparr>) 1 = Some ?s" by simp
  from ChangeState_at [OF this, of streamStateServerPublish] obtain c' where
    run: "serverDataInactive_onCommand sampleRt ?s 3 0 (NetStreamPublish ''key'' ''live'') ?c = (Ok (), c')"
    using cb n s by (auto simp: serverDataInactive_onCommand_def inactive_accept_def settable_def on_world_def myApi_def)
  have "w_http (conn_w ?c) = []" by (simp add: sampleConn_def newConn_def Let_def)
  with publish_exchange [OF at cb run] run s show ?thesis by auto
qed

end
