(* ===== verification/ConnProps.thy ===== *)
theory ConnProps
  imports SampleConn
begin

text \<open>
  Properties of the message loop: how many messages for streams that do not exist a connection takes, and how
  the loop ends.
\<close>

fun handle_all :: "'u runtime \<Rightarrow> (int \<times> u32 \<times> ChunkMessage) list \<Rightarrow> 'u conn_op" where
  "handle_all rt [] c = (Ok (), c)"
| "handle_all rt ((csid, ts, m) # ms) c = andthen (handleMessage rt csid ts m c) (\<lambda>_ c. handle_all rt ms c)"

lemma handle_all_append: "handle_all rt (xs @ ys) c = andthen (handle_all rt xs c) (\<lambda>_ c. handle_all rt ys c)"
proof (induction rt xs c rule: handle_all.induct)
  case (2 rt csid ts m ms c)
  then show ?case by (cases rule: bindo_cases [of "handleMessage rt csid ts m c"]) simp_all
qed simp

definition for_no_stream :: "'u Conn \<Rightarrow> int \<times> u32 \<times> ChunkMessage \<Rightarrow> bool" where
  "for_no_stream c x \<longleftrightarrow> stream_at c (StreamID (snd (snd x))) = None"

lemma ignore_one:
  assumes "IgnoreMessagesOnNotExistStream (rt_cfg rt)" "for_no_stream c (csid, ts, m)"
  shows "ignoredMessages c < IgnoreMessagesOnNotExistStreamThreshold (rt_cfg rt) \<Longrightarrow>
      handleMessage rt csid ts m c = (Ok (), c\<lparr>ignoredMessages := ignoredMessages c + 1\<rparr>)"
    "\<not> ignoredMessages c < IgnoreMessagesOnNotExistStreamThreshold (rt_cfg rt) \<Longrightarrow>
      \<exists>e. handleMessage rt csid ts m c = (Err e, c)"
  using assms by (simp_all add: handleMessage_def streams_At_def for_no_stream_def)

lemma ignored_all:
  assumes "IgnoreMessagesOnNotExistStream (rt_cfg rt)" "list_all (for_no_stream c) ms"
    and "unat (ignoredMessages c) + length ms \<le> unat (IgnoreMessagesOnNotExistStreamThreshold (rt_cfg rt))"
  shows "handle_all rt ms c = (Ok (), c\<lparr>ignoredMessages := ignoredMessages c + of_nat (length ms)\<rparr>)"
  using assms(2,3)
proof (induction ms arbitrary: c)
  case (Cons x ms)
  obtain csid ts m where x: "x = (csid, ts, m)" by (metis prod.exhaust)
  let ?c = "c\<lparr>ignoredMessages := ignoredMessages c + 1\<rparr>"
  have lt: "ignoredMessages c < IgnoreMessagesOnNotExistStreamThreshold (rt_cfg rt)"
    using Cons.prems(2) by (simp add: word_less_nat_alt)
  moreover have "unat (IgnoreMessagesOnNotExistStreamThreshold (rt_cfg rt)) < 2 ^ 32"
    by (rule order_less_le_trans [OF unsigned_less]) simp
  ultimately have u: "unat (ignoredMessages c + 1) = unat (ignoredMessages c) + 1"
    by (simp add: unat_word_ariths word_less_nat_alt)
  have "list_all (for_no_stream ?c) ms" using Cons.prems(1) by (simp add: for_no_stream_def [abs_def])
  from Cons.IH [OF this] u Cons.prems(2)
  have "handle_all rt ms ?c = (Ok (), ?c\<lparr>ignoredMessages := ignoredMessages ?c + of_nat (length ms)\<rparr>)" by simp
  moreover have "handleMessage rt csid ts m c = (Ok (), ?c)"
    using ignore_one(1) [OF assms(1) _ lt, of csid ts m] Cons.prems(1) x by simp
  ultimately show ?case by (simp add: x add.assoc)
qed simp



section \<open>The loop ends\<close>

text \<open>The loop cut off after a number of rounds: \<open>None\<close> when it would go on.\<close>

fun rounds :: "nat \<Rightarrow> 'u runtime \<Rightarrow> 'u Conn \<Rightarrow> (unit outcome \<times> 'u Conn) option" where
  "rounds 0 rt c = None"
| "rounds (Suc n) rt c =
     (case loop_round rt c of (None, c) \<Rightarrow> rounds n rt c | (Some res, c) \<Rightarrow> Some (res, c))"

lemma rounds_enough:
  "length (csr_pending (cs_r (conn_in c))) < n \<Longrightarrow> rounds n rt c = Some (runHandleMessageLoop rt c)"
proof (induction n arbitrary: c)
  case (Suc n)
  obtain res c1 where r: "loop_round rt c = (res, c1)" by fastforce
  show ?case
  proof (cases res)
    case None
    with round_consumes r Suc.prems have "length (csr_pending (cs_r (conn_in c1))) < n" by fastforce
    with Suc.IH r None show ?thesis by (simp add: loop_by_round [of rt c])
  qed (simp add: r loop_by_round [of rt c])
qed simp

lemma loop_Ok: "runHandleMessageLoop rt c = (Ok (), c') \<Longrightarrow> streamer_Done c' \<and> streamer_Err c' = None"
proof (induction "length (csr_pending (cs_r (conn_in c)))" arbitrary: c rule: less_induct)
  case less
  obtain res c1 where r: "loop_round rt c = (res, c1)" by fastforce
  show ?case
  proof (cases res)
    case None
    with less.prems r have "runHandleMessageLoop rt c1 = (Ok (), c')" by (simp add: loop_by_round [of rt c])
    then show ?thesis by (rule less.hyps [OF round_consumes [OF r [unfolded None]]])
  next
    case (Some res')
    with less.prems r have "res' = Ok ()" "c1 = c'" by (simp_all add: loop_by_round [of rt c])
    with Some r show ?thesis by (auto simp: loop_round_def split: if_splits option.splits prod.splits outcome.splits)
  qed
qed

text \<open>
  C20. The message loop of a connection ends, whatever the peer sent, the handler does and other goroutines write: after at
  most one round more than there are bytes to read. It ends without an error only when the streamer has stopped
  without one, and a panic of a handler is its error, never a panic of the goroutine.
\<close>

theorem message_loop_ends:
  "rounds (Suc (length (csr_pending (cs_r (conn_in c))))) rt c = Some (runHandleMessageLoop rt c) \<and>
   (case handleMessageLoop rt c of
      (Ok _, c') \<Rightarrow> streamer_Done c' \<and> streamer_Err c' = None
    | (Err e, c') \<Rightarrow> c' = snd (runHandleMessageLoop rt c)
    | (Panic m, c') \<Rightarrow> False)"
proof
  show "rounds (Suc (length (csr_pending (cs_r (conn_in c))))) rt c = Some (runHandleMessageLoop rt c)"
    by (rule rounds_enough) simp
  show "case handleMessageLoop rt c of
      (Ok _, c') \<Rightarrow> streamer_Done c' \<and> streamer_Err c' = None
    | (Err e, c') \<Rightarrow> c' = snd (runHandleMessageLoop rt c)
    | (Panic m, c') \<Rightarrow> False"
    using loop_Ok [of rt c] by (auto simp: handleMessageLoop_def split: prod.split outcome.split)
qed

end
