(* ===== verification/Session.thy ===== *)
theory Session
  imports ClientProps ServerProps ConnProps
begin

text \<open>
  A client and a server of the package against each other, at the level of messages: what one writes is
  handed to the other's \<open>handleMessage\<close> in order, which is what the chunk streams do with it (theory ChunkDelivery).
\<close>

section \<open>Delivering what was written\<close>

type_synonym log_entry = "u32 \<times> int \<times> u32 \<times> message"

definition as_read :: "log_entry \<Rightarrow> int \<times> u32 \<times> ChunkMessage" where
  "as_read x = (case x of (sid, csid, ts, m) \<Rightarrow> (csid, ts, \<lparr>StreamID = sid, Message = m\<rparr>))"

definition deliver :: "'u runtime \<Rightarrow> log_entry list \<Rightarrow> 'u conn_op" where
  "deliver rt ms = handle_all rt (map as_read ms)"

lemma deliver_simps [simp]:
  "deliver rt [] c = (Ok (), c)"
  "deliver rt ((sid, csid, ts, m) # ms) c =
     andthen (handleMessage rt csid ts \<lparr>StreamID = sid, Message = m\<rparr> c) (\<lambda>_ c. deliver rt ms c)"
  by (simp_all add: deliver_def as_read_def)

lemma deliver_append: "deliver rt (ms @ ms') c = andthen (deliver rt ms c) (\<lambda>_ c. deliver rt ms' c)"
  by (simp add: deliver_def handle_all_append)

text \<open>A command that both sides know reaches the state's handler with the body it was sent with.\<close>

lemma command_name: "command_of b = Some name \<Longrightarrow> name \<noteq> ''_result'' \<and> name \<noteq> ''_error''"
  by (cases b) auto

lemma command_reaches:
  assumes "command_of b = Some name" "wf_body b" "amf_string_law (rt_lib rt)" "amf_nil_law (rt_lib rt)" "amf_uint32_law (rt_lib rt)"
    and "EncodeBodyAnyValues (rt_lib rt) (Some b) [] = (Ok (), bs)" "stream_at c sid = Some s"
    and "stateHandler_onCommand rt s csid ts tid b c = (Ok (), c')"
  shows "handleMessage rt csid ts \<lparr>StreamID = sid, Message = CommandMessage name tid EncodingTypeAMF0 bs\<rparr> c = (Ok (), c')"
proof -
  from body_decoded [OF assms(1-5), of "[]" "rt_ms rt" tid "[]"] assms(6)
  have dec: "CmdBodyDecoderFor (rt_lib rt) (rt_ms rt) name tid bs = (Ok b, [])" by auto
  with command_name [OF assms(1)] assms(7,8) show ?thesis
    by (simp add: handleMessage_def streams_At_def Handle_def handleCommand_def or_unknown_def)
      (simp add: NewAMF_def EncodingTypeAMF0_def EncodingTypeAMF3_def)
qed

section \<open>createStream\<close>

lemma CreateStream_sent:
  assumes "CreateStream_send rt n (s, w) = (Ok (), (s', w'))"
  obtains pre bs where "w_log w' = w_log w @ pre @ [(streamID s, 3, 0, CommandMessage ''createStream'' 2 (encTy s) bs)]"
    "EncodeBodyAnyValues (rt_lib rt) (Some NetConnectionCreateStream) [] = (Ok (), bs)"
    "s' = s\<lparr>trs := set_key 2 newTransaction (trs s)\<rparr>" "map_of (trs s) 2 = None"
    "pre = [] \<or> pre = [(streamID s, 2, 0, SetChunkSize n)]"
proof -
  let ?w0 = "w\<lparr>w_out := (w_out w)\<lparr>selfState := (selfState (w_out w))\<lparr>chunkSize := n\<rparr>\<rparr>\<rparr>"
  obtain w1 pre where w1: "w_log w1 = w_log w @ pre" "pre = [] \<or> pre = [(streamID s, 2, 0, SetChunkSize n)]"
    and rest: "(case transactions_Create 2 (trs s) of
          (Err e, ts) \<Rightarrow> (Err e, (s\<lparr>trs := ts\<rparr>, w1))
        | (Panic m, ts) \<Rightarrow> (Panic m, (s\<lparr>trs := ts\<rparr>, w1))
        | (Ok t, ts) \<Rightarrow> (case writeCommandMessage rt (s\<lparr>trs := ts\<rparr>) 3 0 ''createStream'' 2 NetConnectionCreateStream w1 of
               (res, w) \<Rightarrow> (res, (s\<lparr>trs := ts\<rparr>, w)))) = (Ok (), (s', w'))"
  proof (cases "n > 0 \<and> n \<noteq> chunkSize (selfState (w_out w))")
    case True
    with assms obtain w1 where p: "WriteSetChunkSize rt s n ?w0 = (Ok (), w1)"
      and rest: "(case transactions_Create 2 (trs s) of
          (Err e, ts) \<Rightarrow> (Err e, (s\<lparr>trs := ts\<rparr>, w1))
        | (Panic m, ts) \<Rightarrow> (Panic m, (s\<lparr>trs := ts\<rparr>, w1))
        | (Ok t, ts) \<Rightarrow> (case writeCommandMessage rt (s\<lparr>trs := ts\<rparr>) 3 0 ''createStream'' 2 NetConnectionCreateStream w1 of
               (res, w) \<Rightarrow> (res, (s\<lparr>trs := ts\<rparr>, w)))) = (Ok (), (s', w'))"
      unfolding CreateStream_send_def Let_def by (auto simp: bindo_Ok_iff)
    from p have "Stream_Write rt (streamID s) 2 0 (SetChunkSize n) ?w0 = (Ok (), w1)"
      by (simp add: WriteSetChunkSize_def split: if_splits)
    from Stream_Write_log [OF this] rest that show thesis by simp
  next
    case False
    with assms that [of w "[]"] show thesis unfolding CreateStream_send_def Let_def by auto
  qed
  from rest have tr: "map_of (trs s) 2 = None" "s' = s\<lparr>trs := set_key 2 newTransaction (trs s)\<rparr>"
    by (auto simp: transactions_Create_def split: option.splits prod.splits)
  with rest have "writeCommandMessage rt s' 3 0 ''createStream'' 2 NetConnectionCreateStream w1 = (Ok (), w')"
    by (auto simp: transactions_Create_def split: prod.splits)
  then show thesis
  proof (cases rule: writeCommandMessage_log)
    case (wrote bs)
    with w1 tr that show thesis by simp
  qed simp
qed

text \<open>The two answers of the server, read by the call that waits.\<close>

lemma CreateStream_result_of:
  assumes "amf_nil_law (rt_lib rt)" "amf_uint32_law (rt_lib rt)"
    and "EncodeBodyAnyValues lib (Some (NetConnectionCreateStreamResult sid)) [] = (Ok (), bs)" "lib = rt_lib rt"
    and "tr_encoding t = EncodingTypeAMF0" "tr_body t = bs"
  shows "CreateStream_result rt t = Ok (if tr_commandName t = ''_error'' then Rejected 2 sid else Accepted sid)"
proof -
  have "bs = snd (amf_enc lib ANil) @ snd (amf_enc lib (AUint32 sid)) @ []"
    using assms(1-4) by (simp add: EncodeBodyAnyValues_def body_writes)
  then have "DecodeBodyCreateStreamResult (rt_lib rt) (rt_ms rt) bs = (Ok (NetConnectionCreateStreamResult sid), [])"
    using DecodeBodyStreamID_rt [OF assms(1,2) FromArgs_stream_id(1), where rest = "[]"] assms(4)
    by (simp add: DecodeBodyCreateStreamResult_def)
  then show ?thesis
    by (simp add: CreateStream_result_def assms(5,6)) (simp add: NewAMF_def EncodingTypeAMF0_def EncodingTypeAMF3_def)
qed

lemma createStream_callback:
  assumes "serverControlConnected_onCommand rt s csid ts tid NetConnectionCreateStream c = (Ok (), c')"
  obtains c1 where "on_world (OnCreateStream (userHandler rt) ts) c = (Ok (), c1)"
proof (cases "on_world (OnCreateStream (userHandler rt) ts) c")
  case (Pair res c1)
  with assms that show thesis
    by (cases res) (auto simp: serverControlConnected_onCommand_def deferred_reply_def serverControlConnected_createStream_def
        split: prod.splits outcome.splits)
qed

text \<open>What the client sent makes the server handle a createStream.\<close>

lemma createStream_delivered:
  assumes "CreateStream_send rtC n (s, w) = (Ok (), (s', w'))" "streamID s = 0" "encTy s = EncodingTypeAMF0"
    and "w_log w' = w_log w @ ms"
    and "stream_at c0 0 = Some ss" "sh_handler ss = Some streamStateServerConnected"
    and "deliver rtS (butlast ms) c = (Ok (), c0)"
    and "serverControlConnected_onCommand rtS ss 3 0 2 NetConnectionCreateStream c0 = (Ok (), c')"
    and "rt_lib rtC = lib" "rt_lib rtS = lib" "amf_string_law lib" "amf_nil_law lib" "amf_uint32_law lib"
  shows "deliver rtS ms c = (Ok (), c')" "s' = s\<lparr>trs := set_key 2 newTransaction (trs s)\<rparr>" "map_of (trs s) 2 = None"
proof -
  from CreateStream_sent [OF assms(1)] obtain pre bs where sent:
    "w_log w' = w_log w @ pre @ [(streamID s, 3, 0, CommandMessage ''createStream'' 2 (encTy s) bs)]"
    "EncodeBodyAnyValues (rt_lib rtC) (Some NetConnectionCreateStream) [] = (Ok (), bs)"
    "s' = s\<lparr>trs := set_key 2 newTransaction (trs s)\<rparr>" "map_of (trs s) 2 = None" .
  have ms: "ms = pre @ [(0, 3, 0, CommandMessage ''createStream'' 2 EncodingTypeAMF0 bs)]"
    using sent(1) assms(2-4) by simp
  have srv: "stateHandler_onCommand rtS ss 3 0 2 NetConnectionCreateStream c0 = (Ok (), c')"
    using assms(6,8) by (simp add: stateHandler_onCommand_def)
  have "handleMessage rtS 3 0 \<lparr>StreamID = 0, Message = CommandMessage ''createStream'' 2 EncodingTypeAMF0 bs\<rparr> c0 = (Ok (), c')"
    by (rule command_reaches [where b = NetConnectionCreateStream and s = ss]) (use assms sent(2) srv in simp_all)
  with assms(7) show "deliver rtS ms c = (Ok (), c')" by (simp add: ms deliver_append)
  show "s' = s\<lparr>trs := set_key 2 newTransaction (trs s)\<rparr>" "map_of (trs s) 2 = None" by (rule sent(3,4))+
qed

text \<open>The reply to a createStream resolves the call that waits for it, and frees the transaction.\<close>

lemma createStream_answered:
  assumes "map_of (trs s) 2 = None" "s' = s\<lparr>trs := set_key 2 newTransaction (trs s)\<rparr>"
    and "EncodeBodyAnyValues lib (Some (NetConnectionCreateStreamResult sid)) [] = (Ok (), body)"
    and "rt_lib rt = lib" "amf_nil_law lib" "amf_uint32_law lib"
  obtains c2 t s2 where "handleReply s' name 2 EncodingTypeAMF0 body cc = (Ok (), c2, Some t)"
    "CreateStream_result rt t = Ok (if name = ''_error'' then Rejected 2 sid else Accepted sid)"
    "stream_at c2 (streamID s) = Some s2" "map_of (trs s2) = map_of (trs s)"
proof -
  let ?s2 = "s'\<lparr>trs := del_key 2 (trs s')\<rparr>"
  let ?c2 = "cc\<lparr>conn_streams := putStream (streamID s') ?s2 (conn_streams cc)\<rparr>"
  have "map_of (trs s') 2 = Some newTransaction" by (simp add: assms(2))
  from handleReply_known [OF this, of name EncodingTypeAMF0 body cc] obtain t where
    t: "handleReply s' name 2 EncodingTypeAMF0 body cc = (Ok (), ?c2, Some t)"
    "tr_commandName t = name" "tr_encoding t = EncodingTypeAMF0" "tr_body t = body" by blast
  show thesis
  proof (rule that [OF t(1)])
    show "stream_at ?c2 (streamID s) = Some ?s2" by (simp add: putStream_def assms(2))
    show "map_of (trs ?s2) = map_of (trs s)" using assms(1) by (simp add: assms(2) fun_eq_iff)
    show "CreateStream_result rt t = Ok (if name = ''_error'' then Rejected 2 sid else Accepted sid)"
      unfolding t(2) [symmetric]
      by (rule CreateStream_result_of [where lib = lib and bs = body]) (use assms(3-6) t(3,4) in simp_all)
  qed
qed

text \<open>
  C8. createStream between the two sides. The server takes what the client wrote, the answer it wrote last resolves the
  client's call, and both agree: on the id of a stream that is new and inactive on the server, or on the refusal, after which
  the server has the streams it had. The client's transaction is free again.
\<close>

theorem stream_agreed:
  assumes "CreateStream_send rtC n (s, w) = (Ok (), (s', w'))" "streamID s = 0" "encTy s = EncodingTypeAMF0"
    and "w_log w' = w_log w @ ms"
    and "stream_at c0 0 = Some ss" "streamID ss = 0" "encTy ss = EncodingTypeAMF0" "sh_handler ss = Some streamStateServerConnected"
    and "deliver rtS (butlast ms) c = (Ok (), c0)"
    and "serverControlConnected_onCommand rtS ss 3 0 2 NetConnectionCreateStream c0 = (Ok (), c')"
    and "rt_lib rtC = lib" "rt_lib rtS = lib" "amf_string_law lib" "amf_nil_law lib" "amf_uint32_law lib"
  shows "deliver rtS ms c = (Ok (), c') \<and>
    (\<exists>name bs c2 t. last (w_log (conn_w c')) = (0, 3, 0, CommandMessage name 2 EncodingTypeAMF0 bs) \<and>
      handleReply s' name 2 EncodingTypeAMF0 bs cc = (Ok (), c2, Some t) \<and>
      (case CreateStream_result rtC t of
         Ok (Accepted new) \<Rightarrow> stream_at c0 new = None \<and> stream_at c' new = Some (with_state streamStateServerInactive (newStream new))
       | Ok (Rejected tid sid) \<Rightarrow> tid = 2 \<and> sid = 0 \<and> same_table c0 c'
       | _ \<Rightarrow> False) \<and>
      (\<exists>s2. stream_at c2 0 = Some s2 \<and> map_of (trs s2) = map_of (trs s)))"
proof -
  note sent = createStream_delivered [OF assms(1-5,8-15)]
  note answer = createStream_answered [OF sent(3,2) _ assms(11,14,15), where cc = cc, unfolded assms(2)]
  from createStream_callback [OF assms(10)] obtain c1 where cb: "on_world (OnCreateStream (userHandler rtS) 0) c0 = (Ok (), c1)" .
  from create_stream_outcome [OF cb assms(10)] show ?thesis
  proof (elim disjE conjE exE)
    assume "created rtS ss 3 0 2 c0 c1 c'"
    then obtain new body where cr: "stream_at c0 new = None"
      "map_of (strm_map (conn_streams c')) = (map_of (strm_map (conn_streams c0)))(new \<mapsto> with_state streamStateServerInactive (newStream new))"
      "EncodeBodyAnyValues lib (Some (NetConnectionCreateStreamResult new)) [] = (Ok (), body)"
      "last (w_log (conn_w c')) = (0, 3, 0, CommandMessage ''_result'' 2 EncodingTypeAMF0 body)"
      by (auto simp: created_def assms(6,7,12))
    from answer [OF cr(3), where name = "''_result''"] obtain c2 t s2 where
      "handleReply s' ''_result'' 2 EncodingTypeAMF0 body cc = (Ok (), c2, Some t)" "CreateStream_result rtC t = Ok (Accepted new)"
      "stream_at c2 0 = Some s2" "map_of (trs s2) = map_of (trs s)" by auto
    then show ?thesis using cr(1,2,4) sent(1)
      by (intro conjI exI [of _ "''_result''"] exI [of _ body] exI [of _ c2] exI [of _ t]) auto
  next
    assume "refused rtS ss 3 0 2 c0 c1 c'"
    then obtain body where rf: "same_table c0 c'"
      "EncodeBodyAnyValues lib (Some (NetConnectionCreateStreamResult 0)) [] = (Ok (), body)"
      "last (w_log (conn_w c')) = (0, 3, 0, CommandMessage ''_error'' 2 EncodingTypeAMF0 body)"
      by (auto simp: refused_def assms(6,7,12))
    from answer [OF rf(2), where name = "''_error''"] obtain c2 t s2 where
      "handleReply s' ''_error'' 2 EncodingTypeAMF0 body cc = (Ok (), c2, Some t)" "CreateStream_result rtC t = Ok (Rejected 2 0)"
      "stream_at c2 0 = Some s2" "map_of (trs s2) = map_of (trs s)" by auto
    then show ?thesis using rf(1,3) sent(1)
      by (intro conjI exI [of _ "''_error''"] exI [of _ body] exI [of _ c2] exI [of _ t]) auto
  qed simp_all
qed

theorem stream_agreed_witness:
  "\<exists>s' w' ms c' name bs c2 t. CreateStream_send amfRt 0 (clientControl, conn_w (sampleConn [])) = (Ok (), (s', w')) \<and>
    deliver amfRt ms (sampleConn [(0, connectedStream)]) = (Ok (), c') \<and>
    handleReply s' name 2 EncodingTypeAMF0 bs (sampleConn []) = (Ok (), c2, Some t) \<and>
    is_Ok (CreateStream_result amfRt t)"
proof -
  let ?c = "sampleConn [(0, connectedStream)]" and ?s = "clientControl\<lparr>trs := set_key 2 newTransaction []\<rparr>"
  have enc: "encTy ?s = EncodingTypeAMF0" "encTy clientControl = EncodingTypeAMF0" "encTy connectedStream = EncodingTypeAMF0"
    "trs clientControl = []" "streamID clientControl = 0" "streamID connectedStream = 0"
    "sh_handler connectedStream = Some streamStateServerConnected"
    by (simp_all add: connectedStream_def clientControl_def with_state_def newStream_def)
  have lib: "rt_lib amfRt = sampleAmf" by (simp add: amfRt_def)
  have e1: "EncodeBodyAnyValues sampleAmf (Some NetConnectionCreateStream) [] = (Ok (), snd (amf_enc sampleAmf ANil))"
    by (simp add: EncodeBodyAnyValues_def amf_write_nil [OF sampleAmf_nil])
  have e2: "EncodeBodyAnyValues sampleAmf (Some (NetConnectionCreateStreamResult 1)) [] =
      (Ok (), snd (amf_enc sampleAmf ANil) @ snd (amf_enc sampleAmf (AUint32 1)))"
    by (simp add: EncodeBodyAnyValues_def amf_write_nil [OF sampleAmf_nil] amf_write_uint32 [OF sampleAmf_uint32])
  have turn: "rt_turn amfRt = sampleTurn" by (simp add: amfRt_def sampleRt_def)
  obtain w' where w': "writeCommandMessage amfRt ?s 3 0 ''createStream'' 2 NetConnectionCreateStream (conn_w (sampleConn [])) = (Ok (), w')"
    by (rule turned_command [OF turn sampleConn_open _ _ _ enc(1), of 3 NetConnectionCreateStream]) (auto simp: lib e1 amf_encode simp del: Encode.simps)
  then have snd: "CreateStream_send amfRt 0 (clientControl, conn_w (sampleConn [])) = (Ok (), (?s, w'))"
    by (simp add: CreateStream_send_def transactions_Create_def enc(4))
  from w' obtain bs where "w_log w' = w_log (conn_w (sampleConn [])) @ [(0, 3, 0, CommandMessage ''createStream'' 2 EncodingTypeAMF0 bs)]"
    by (cases rule: writeCommandMessage_log) (simp_all add: enc)
  then obtain ms where ms: "w_log w' = w_log (conn_w (sampleConn [])) @ ms" "butlast ms = []" by simp
  have wr: "\<exists>w'. writeCommandMessage amfRt connectedStream 3 0 ''_result'' 2 (NetConnectionCreateStreamResult 1) w = (Ok (), w')"
    if "open_out (w_out w)" for w
    by (rule turned_command [OF turn that _ _ _ enc(3), of 3 "NetConnectionCreateStreamResult 1"]) (auto simp: lib e2 amf_encode simp del: Encode.simps)
  from sample_created(1) [OF sample_default(2) wr] obtain c' where
    run: "serverControlConnected_onCommand amfRt connectedStream 3 0 2 NetConnectionCreateStream ?c = (Ok (), c')" by blast
  have at: "stream_at ?c 0 = Some connectedStream" and none: "deliver amfRt (butlast ms) ?c = (Ok (), ?c)" by (simp_all add: ms(2))
  note agreed = stream_agreed [OF snd enc(5,2) ms(1) at enc(6,3,7) none run lib lib sampleAmf_string sampleAmf_nil sampleAmf_uint32, of "sampleConn []"]
  then obtain name bs c2 t where "handleReply ?s name 2 EncodingTypeAMF0 bs (sampleConn []) = (Ok (), c2, Some t)"
    "is_Ok (CreateStream_result amfRt t)" by (fastforce split: outcome.splits)
  with agreed snd show ?thesis by blast
qed

section \<open>publish\<close>

text \<open>The client has no decoder for a status: it is an unknown command, which the connection forgives.\<close>

lemma status_dropped:
  assumes "amf_progress_law (rt_lib rt)" "stream_at cc sid = Some s" "name \<notin> fst ` set (CmdBodyDecoders (rt_lib rt) (rt_ms rt))"
    "name \<noteq> ''_result''" "name \<noteq> ''_error''"
  shows "handleMessage rt csid ts \<lparr>StreamID = sid, Message = CommandMessage name tid EncodingTypeAMF0 bs\<rparr> cc = (Ok (), cc)"
proof -
  have "map_of (CmdBodyDecoders (rt_lib rt) (rt_ms rt)) name = None" using assms(3) by (simp add: map_of_eq_None_iff)
  moreover obtain vs r0 e r' where "decode_objs (rt_lib rt) (Suc (length bs)) bs [] = (Ok ([] @ vs), r')"
      "amf_dec_any (rt_lib rt) r0 = (Err e, r')"
    using decode_objs_stops [OF assms(1), of bs "Suc (length bs)" "[]"] by blast
  ultimately have "CmdBodyDecoderFor (rt_lib rt) (rt_ms rt) name tid bs = (Err (UnknownCommandBodyDecodeError name tid vs), r')"
    by (simp add: CmdBodyDecoderFor_def del: decode_objs.simps)
  with assms(2,4,5) show ?thesis
    by (simp add: handleMessage_def streams_At_def Handle_def handleCommand_def)
      (simp add: NewAMF_def EncodingTypeAMF0_def EncodingTypeAMF3_def)
qed

text \<open>
  C10. What a client publishes on its stream reaches the server's handler on the stream of the same id, with the name and the
  type it gave, and when the server takes it the stream publishes there. But the client's call has returned by then, and the
  status that answers it, be it of success or of refusal, is dropped by the client and changes nothing.
\<close>

theorem publish_unheard:
  assumes "Stream_Publish rtC s (Some (name, ty)) w = (Ok (), w')" "encTy s = EncodingTypeAMF0" "length name \<le> 0xffff" "length ty \<le> 0xffff"
    and "stream_at c (streamID s) = Some ss" "streamID ss = streamID s" "sh_handler ss = Some streamStateServerInactive"
    and "serverDataInactive_onCommand rtS ss 3 0 (NetStreamPublish name ty) c = (Ok (), c')"
    and "rt_lib rtC = lib" "rt_lib rtS = lib" "amf_string_law lib" "amf_nil_law lib" "amf_uint32_law lib" "amf_progress_law lib"
    and "stream_at cc (streamID s) \<noteq> None"
  shows "deliver rtS (drop (length (w_log w)) (w_log w')) c = (Ok (), c') \<and>
    is_Ok (fst (OnPublish (userHandler rtS) (streamID s) 0 name ty (conn_w c))) \<and>
    stream_at c' (streamID s) = Some (with_state streamStateServerPublish ss) \<and>
    (\<exists>bs. last (w_log (conn_w c')) = (streamID s, 3, 0, CommandMessage ''onStatus'' 0 (encTy ss) bs)) \<and>
    handleMessage rtC csid ts \<lparr>StreamID = streamID s, Message = CommandMessage ''onStatus'' 0 EncodingTypeAMF0 status\<rparr> cc = (Ok (), cc)"
proof -
  from assms(1) have "writeCommandMessage rtC s 3 0 ''publish'' 0 (NetStreamPublish name ty) w = (Ok (), w')"
    by (simp add: Stream_Publish_def)
  then obtain bs where sent: "EncodeBodyAnyValues (rt_lib rtC) (Some (NetStreamPublish name ty)) [] = (Ok (), bs)"
      "w_log w' = w_log w @ [(streamID s, 3, 0, CommandMessage ''publish'' 0 EncodingTypeAMF0 bs)]"
    using assms(2) by (cases rule: writeCommandMessage_log) auto
  have at: "stateHandler_onCommand rtS ss 3 0 0 (NetStreamPublish name ty) c = (Ok (), c')"
    using assms(7,8) by (simp add: stateHandler_onCommand_def)
  have "handleMessage rtS 3 0 \<lparr>StreamID = streamID s, Message = CommandMessage ''publish'' 0 EncodingTypeAMF0 bs\<rparr> c = (Ok (), c')"
    by (rule command_reaches [where b = "NetStreamPublish name ty" and s = ss]) (use assms sent(1) at in simp_all)
  then have del: "deliver rtS (drop (length (w_log w)) (w_log w')) c = (Ok (), c')" by (simp add: sent(2))
  obtain res c1 where cb: "on_world (OnPublish (userHandler rtS) (streamID ss) 0 name ty) c = (res, c1)" by fastforce
  from publish_outcome [OF _ cb assms(8)] assms(5,6) have ok: "res = Ok ()"
    "status_sent rtS ss 3 0 (NetStreamOnStatus ''status'' ''NetStream.Publish.Start'' ''Publish succeeded.'') c1 c'"
    "stream_at c' (streamID s) = Some (with_state streamStateServerPublish ss)" by auto
  have "is_Ok (fst (OnPublish (userHandler rtS) (streamID s) 0 name ty (conn_w c)))"
    using cb ok(1) assms(6) by (auto simp: on_world_def split: prod.splits)
  moreover have "\<exists>bs. last (w_log (conn_w c')) = (streamID s, 3, 0, CommandMessage ''onStatus'' 0 (encTy ss) bs)"
    using ok(2) assms(6) by (auto simp: status_sent_def)
  moreover from assms(15) obtain sc where "stream_at cc (streamID s) = Some sc" by blast
  from status_dropped [OF _ this, of rtC "''onStatus''" csid ts 0 status] have
    "handleMessage rtC csid ts \<lparr>StreamID = streamID s, Message = CommandMessage ''onStatus'' 0 EncodingTypeAMF0 status\<rparr> cc = (Ok (), cc)"
    using assms(9,14) by (simp add: CmdBodyDecoders_def)
  ultimately show ?thesis using del ok(3) by blast
qed

definition mapAmf :: amf0_lib where
  "mapAmf = sampleAmf\<lparr>amf_enc := (\<lambda>v. case v of AMap _ \<Rightarrow> (Ok (), [3]) | _ \<Rightarrow> amf_enc sampleAmf v)\<rparr>"

lemma mapAmf_laws: "amf_string_law mapAmf" "amf_nil_law mapAmf" "amf_uint32_law mapAmf" "amf_progress_law mapAmf"
  using sampleAmf_string sampleAmf_nil sampleAmf_uint32 sampleAmf_progress
  by (simp_all add: mapAmf_def amf_string_law_def amf_nil_law_def amf_uint32_law_def amf_progress_law_def)

lemma publish_accepted:
  assumes "on_world (OnPublish (userHandler rt) (streamID s) ts name ty) c = (Ok (), c1)" "stream_at c1 (streamID s) = Some s"
    "writeCommandMessage rt s csid ts ''onStatus'' 0
       (newOnStatus NetStreamOnStatusCodePublishStart ''Publish succeeded.'') (conn_w c1) = (Ok (), w)"
  shows "\<exists>c'. serverDataInactive_onCommand rt s csid ts (NetStreamPublish name ty) c = (Ok (), c')"
proof -
  let ?ok = "newOnStatus NetStreamOnStatusCodePublishStart ''Publish succeeded.''"
  have n: "on_world (NotifyStatus rt s csid ts ?ok) c1 = (Ok (), c1\<lparr>conn_w := w\<rparr>)"
    by (simp add: on_world_def NotifyStatus_def assms(3))
  have "stream_at (c1\<lparr>conn_w := w\<rparr>) (streamID s) = Some s" using assms(2) by simp
  from ChangeState_at [OF this, of streamStateServerPublish] show ?thesis
    using assms(1) n by (auto simp: serverDataInactive_onCommand_def inactive_accept_def settable_def on_world_def myApi_def)
qed

theorem publish_unheard_witness:
  "\<exists>rt w' c'. Stream_Publish rt inactiveStream (Some (''key'', ''live'')) (conn_w (sampleConn [])) = (Ok (), w') \<and>
    deliver rt (drop (length (w_log (conn_w (sampleConn [])))) (w_log w')) (sampleConn [(1, inactiveStream)]) = (Ok (), c') \<and>
    stream_at c' 1 = Some (with_state streamStateServerPublish inactiveStream) \<and>
    handleMessage rt 3 0 \<lparr>StreamID = 1, Message = CommandMessage ''onStatus'' 0 EncodingTypeAMF0 [5, 3]\<rparr> (sampleConn [(1, newStream 1)]) =
      (Ok (), sampleConn [(1, newStream 1)])"
proof -
  let ?rt = "sampleRt\<lparr>rt_lib := mapAmf\<rparr>" and ?s = inactiveStream and ?c = "sampleConn [(1, inactiveStream)]"
  let ?ok = "newOnStatus NetStreamOnStatusCodePublishStart ''Publish succeeded.''"
  have s: "streamID ?s = 1" "encTy ?s = EncodingTypeAMF0" "sh_handler ?s = Some streamStateServerInactive"
    by (simp_all add: inactiveStream_def with_state_def newStream_def)
  have rt: "rt_turn ?rt = sampleTurn" "rt_lib ?rt = mapAmf" "userHandler ?rt = DefaultHandler"
    using sample_default(1) by (simp_all add: sampleRt_def userHandler_def)
  have enc: "fst (Encode mapAmf (CommandMessage name 0 EncodingTypeAMF0 bs) b) = Ok ()" if "length name \<le> 0xffff" for name bs b
    using that by (simp add: encodeCommandMessage_def NewAMF_def EncodingTypeAMF0_def EncodingTypeAMF3_def amf_write_def mapAmf_def sampleAmf_def)
  have body: "\<exists>bs. EncodeBodyAnyValues mapAmf (Some b) [] = (Ok (), bs)" if "b \<in> {NetStreamPublish ''key'' ''live'', ?ok}" for b
    using that by (auto simp: EncodeBodyAnyValues_def newOnStatus_def amf_write_def mapAmf_def sampleAmf_def)
  have writes: "\<exists>w'. writeCommandMessage ?rt ?s 3 0 name 0 b (conn_w (sampleConn ss)) = (Ok (), w')"
    if "b \<in> {NetStreamPublish ''key'' ''live'', ?ok}" "length name \<le> 0xffff" for name b ss
  proof -
    from body [OF that(1)] obtain bs where bs: "EncodeBodyAnyValues mapAmf (Some b) [] = (Ok (), bs)" by blast
    show ?thesis
      by (rule turned_command [OF rt(1) sampleConn_open [of ss] _ _ _ s(2), of 3 b bs name 0 0]) (auto simp: rt(2) bs enc [OF that(2)] simp del: Encode.simps)
  qed
  from writes [of "NetStreamPublish ''key'' ''live''" "''publish''" "[]"] obtain w' where
    w': "Stream_Publish ?rt ?s (Some (''key'', ''live'')) (conn_w (sampleConn [])) = (Ok (), w')" by (auto simp: Stream_Publish_def)
  from writes [of ?ok "''onStatus''" "[(1, ?s)]"] obtain w4 where
    "writeCommandMessage ?rt ?s 3 0 ''onStatus'' 0 ?ok (conn_w ?c) = (Ok (), w4)" by auto
  moreover have "on_world (OnPublish (userHandler ?rt) (streamID ?s) 0 ''key'' ''live'') ?c = (Ok (), ?c)" "stream_at ?c (streamID ?s) = Some ?s"
    by (simp_all add: rt(3) s(1) DefaultHandler_def Let_def on_world_def)
  ultimately obtain c' where
    run: "serverDataInactive_onCommand ?rt ?s 3 0 (NetStreamPublish ''key'' ''live'') ?c = (Ok (), c')"
    using publish_accepted [of ?rt ?s] by blast
  have at: "stream_at ?c (streamID ?s) = Some ?s" "stream_at (sampleConn [(1, newStream 1)]) (streamID ?s) \<noteq> None" by (simp_all add: s(1))
  from publish_unheard [OF w' s(2) _ _ at(1) refl s(3) run rt(2,2) mapAmf_laws at(2), of 3 0 "[5, 3]"] w' show ?thesis
    by (auto simp: s(1) intro!: exI [of _ ?rt])
qed

end
