(* ===== verification/Platform.thy ===== *)
theory Platform
  imports RelayNet Processes Server Session
begin

text \<open>
  The platform as a whole: the relay with its connections and its key service, cchls and hlsnew, and the HTTP requests
  between them, which are delivered in any order. The relay's key service asks cchls for the channel of a new key, the
  RTMP server tells cchls that something was published, cchls tells hlsnew which channel to serve.
\<close>

section \<open>The relay's main\<close>

definition zeroConnConfig :: "'u ConnConfig" where
  "zeroConnConfig = \<lparr>cHandler = None, SkipHandshakeVerification = False, IgnoreMessagesOnNotExistStream = False,
     IgnoreMessagesOnNotExistStreamThreshold = 0, ReaderBufferSize = 0, WriterBufferSize = 0, ControlState = zeroConfig,
     RPreset = None\<rparr>"

definition relay_OnConnect :: "('a, 'v, 's) relay_env \<Rightarrow> nat \<Rightarrow> ('a, 'v, 's) relay ConnConfig" where
  "relay_OnConnect E h = zeroConnConfig\<lparr>cHandler := Some (relayHandler E h),
     ControlState := zeroConfig\<lparr>cfgDefaultBandwidthWindowSize := 6 * 1024 * 1024 div 8\<rparr>\<rparr>"

text \<open>
  \<open>main\<close> resolves the address, listens and serves; \<open>log.Panicf\<close> ends it. \<open>None\<close> is that it serves. The key
  service runs beside it, and reports that it cannot listen.
\<close>

definition relay_main ::
  "go_err option \<Rightarrow> nat outcome \<Rightarrow> (nat \<Rightarrow> unit outcome) \<Rightarrow> accept_event list \<Rightarrow> string option \<times> Server" where
  "relay_main resolved listened lc es =
     (case resolved of
        Some e \<Rightarrow> (Some ''Failed: %+v'', NewServer)
      | None \<Rightarrow>
          (case listened of
             Ok l \<Rightarrow> (case Server_Serve lc l es NewServer of
                (None, srv) \<Rightarrow> (None, srv)
              | (Some e, srv) \<Rightarrow> (Some ''Failed: %+v'', srv))
           | _ \<Rightarrow> (Some ''Failed: %+v'', NewServer)))"

definition startApi :: "go_err option \<Rightarrow> string list" where
  "startApi listened = (case listened of Some e \<Rightarrow> [''Error starting server:''] | None \<Rightarrow> [])"

text \<open>Nothing closes the relay's server: once it listens it serves every connection, whatever Accept does.\<close>

lemma relay_main_serves:
  assumes "CloseCalled \<notin> set es"
  shows "fst (relay_main None (Ok l) lc es) = None"
    "served (snd (relay_main None (Ok l) lc es)) = concat (map (\<lambda>e. case e of Accepted_conn c \<Rightarrow> [c] | _ \<Rightarrow> []) es)"
proof -
  let ?conns = "\<lambda>es. concat (map (\<lambda>e. case e of Accepted_conn c \<Rightarrow> [c] | _ \<Rightarrow> []) es)"
  have "fst (accept_loop lc es srv) = None \<and> served (snd (accept_loop lc es srv)) = served srv @ ?conns es"
    if "CloseCalled \<notin> set es" "\<not> closed_server srv" for srv
    using that
    by (induction lc es srv rule: accept_loop.induct)
      (auto simp: getDoneChLocked_def closed_server_def split: option.split)
  from this [OF assms, of "NewServer\<lparr>srv_listener := Some l\<rparr>"]
  have "fst (Server_Serve lc l es NewServer) = None" "served (snd (Server_Serve lc l es NewServer)) = ?conns es"
    by (simp_all add: Server_Serve_def registerListener_def NewServer_def closed_server_def)
  then show "fst (relay_main None (Ok l) lc es) = None" "served (snd (relay_main None (Ok l) lc es)) = ?conns es"
    by (cases "Server_Serve lc l es NewServer"; simp add: relay_main_def)+
qed

section \<open>Requests of the RTMP server\<close>

fun event_conn :: "net_event \<Rightarrow> nat option" where
  "event_conn (Serves h pick e) = Some h"
| "event_conn (Handles h csid ts m) = Some h"
| "event_conn (Acks h n) = Some h"
| "event_conn (Idles h) = Some h"
| "event_conn (Ends h pick e) = Some h"
| "event_conn (Asks rnd form_ok channel) = None"

definition http_of :: "('a, 'v, 's) net \<Rightarrow> nat \<Rightarrow> string list" where
  "http_of N h = w_http (conn_w (net_conns N h))"

definition net_fired ::
  "('a, 'v, 's) relay_env \<Rightarrow> (nat \<Rightarrow> ('a, 'v, 's) relay runtime) \<Rightarrow> net_event \<Rightarrow> ('a, 'v, 's) net \<Rightarrow> string list" where
  "net_fired E rts e N =
     (case e of
        Asks rnd form_ok channel \<Rightarrow> snd (fst (handler rnd form_ok channel (net_relay N)))
      | _ \<Rightarrow> (case event_conn e of
           Some h \<Rightarrow> drop (length (http_of N h)) (http_of (snd (net_step E rts e N)) h)
         | None \<Rightarrow> []))"

lemma fired_on_relay: "w_http (snd (on_relay f w)) = w_http w"
  by (simp add: on_relay_def split: prod.split)

lemma on_relay_http: "on_world (on_relay f) c = (res, c1) \<Longrightarrow> w_http (conn_w c1) = w_http (conn_w c)"
  using fired_on_relay [of f "conn_w c"] by (auto simp: on_world_def split: prod.splits)

interpretation fires: loop_inv "relay_runtime E h rt" "\<lambda>c. fired us (w_http (conn_w c))"
proof (unfold_locales, goal_cases)
  case (1 c c')
  then show ?case by (auto simp: io_step_def intro: fired_trans)
next
  case (8 c sid s ts cmd res c1 c2)
  then show ?case by (auto simp: relayHandler_def DefaultHandler_def Let_def on_world_def io_step_def intro: fired_trans)
next
  case (9 c sid s ts res c1 new c2)
  then show ?case by (auto simp: relayHandler_def DefaultHandler_def Let_def on_world_def on_streams_def split: prod.splits)
next
  case (11 c sid s ts name ty res c1 c2)
  have "w_http (conn_w c1) = w_http (conn_w c)" using 11(4) by (simp add: relayHandler_def on_relay_http)
  with 11(1) show ?case by (auto simp: io_step_def intro: fired_trans)
next
  case (12 c sid s ts name start res c1 c2)
  have "w_http (conn_w c1) = w_http (conn_w c)" using 12(4) by (simp add: relayHandler_def on_relay_http)
  with 12(1) show ?case by (auto simp: io_step_def intro: fired_trans)
qed (auto simp: io_step_def on_streams_def relayHandler_def DefaultHandler_def Let_def on_world_def fired_on_relay split_def)

lemma turn_fired:
  assumes "\<And>c us. fired us (w_http (conn_w c)) \<Longrightarrow> fired us (w_http (conn_w (snd (f c))))"
  shows "fired (http_of N k) (http_of (snd (turn_of rts h f N)) k)"
proof -
  have "fired (w_http (conn_w c)) (w_http (conn_w (snd (f c))))" for c using assms by simp
  from this [of "with_relay (net_relay N) (net_conns N h)"] show ?thesis
    by (auto simp: http_of_def turn_of_def forward_frame with_relay_def split: prod.split)
qed

lemma fired_Close:
  "fired us (w_http (conn_w c)) \<Longrightarrow> fired us (w_http (conn_w (snd (Conn_Close (relay_runtime E h rt) pick rwc_Close c))))"
  by (auto simp: Conn_Close_def relayHandler_def on_world_def on_relay_def relay_OnClose_def ChunkStreamer_Close_def Let_def)

lemma fired_round:
  "fired us (w_http (conn_w c)) \<Longrightarrow> fired us (w_http (conn_w (snd (serve_round (relay_runtime E h rt) pick rwc_Close c))))"
  by (erule serve_round_keeps [where Q = "\<lambda>c. fired us (w_http (conn_w c))"]) (erule fires.loop_round_P fired_Close)+

lemma net_step_fired: "fired (http_of N k) (http_of (snd (net_step E rts e N)) k)"
proof (cases e)
  case (Serves h pick rwc_Close)
  have "fired (http_of N k) (http_of (snd (turn_of rts h (serve_round (relay_runtime E h (rts h)) pick rwc_Close) N)) k)"
    by (rule turn_fired) (rule fired_round)
  then show ?thesis by (simp add: Serves)
next
  case (Handles h csid ts m)
  have "fired (http_of N k) (http_of (snd (turn_of rts h (handleMessage (relay_runtime E h (rts h)) csid ts m) N)) k)"
    by (rule turn_fired) (rule fires.handleMessage_P)
  then show ?thesis by (simp add: Handles)
next
  case (Acks h n)
  have "fired (http_of N k) (http_of (snd (turn_of rts h (on_world (sendAck (rts h) n)) N)) k)"
    by (rule turn_fired) (simp add: on_world_def sendAck_def frame split_def)
  then show ?thesis by (simp add: Acks)
next
  case (Idles h)
  have "fired (http_of N k) (http_of (snd (turn_of rts h (\<lambda>c. (Ok (), idle (rts h) c)) N)) k)"
    by (rule turn_fired) (simp add: idle_def)
  then show ?thesis by (simp add: Idles)
next
  case (Ends h pick rwc_Close)
  have "fired (http_of N k) (http_of (snd (turn_of rts h (Conn_Close (relay_runtime E h (rts h)) pick rwc_Close) N)) k)"
    by (rule turn_fired) (rule fired_Close)
  then show ?thesis by (simp add: Ends)
qed (simp add: http_of_def)

definition key_url :: "string \<Rightarrow> string" where
  "key_url channel = ''http://localhost:7001/data?channel='' @ channel"

lemma start_key: "start_url = key_url ''$tart''"
  by (simp add: start_url_def key_url_def)

text \<open>The channel a key was given for.\<close>

fun key_channel :: "net_event \<Rightarrow> string list" where
  "key_channel (Asks rnd form_ok channel) = (if form_ok \<and> channel \<noteq> [] then [channel] else [])"
| "key_channel _ = []"

lemma net_fired_starts: "event_conn e \<noteq> None \<Longrightarrow> \<exists>n. net_fired E rts e N = replicate n start_url"
  using net_step_fired [of N "the (event_conn e)" E rts e]
  by (cases e) (auto simp: net_fired_def fired_def simp del: net_step.simps)

lemma net_fired_urls: "set (net_fired E rts e N) \<subseteq> insert start_url (key_url ` set (key_channel e))"
proof (cases "event_conn e")
  case None
  then show ?thesis by (cases e) (auto simp: net_fired_def handler_def key_url_def Let_def)
next
  case (Some h)
  with net_fired_starts [of e E rts N] show ?thesis by fastforce
qed

section \<open>The platform\<close>

text \<open>hlsnew is \<open>None\<close> when it has crashed. The two lists are the requests under way.\<close>

record ('a, 'v, 's) platform =
  pf_net :: "('a, 'v, 's) net"
  pf_cchls :: cc_proc
  pf_hlsnew :: "Hlsnew option"
  pf_to_cchls :: "string list"
  pf_to_hlsnew :: "string list"

datatype pf_event = OnRelay net_event | ToCchls nat | OnCchls cc_turn | ToHlsnew nat | Streams string

definition without :: "nat \<Rightarrow> 'x list \<Rightarrow> 'x list" where
  "without k xs = take k xs @ drop (Suc k) xs"

text \<open>\<open>query\<close> is what net/url makes of a request's URL: whether its form parses, and the channel it names.\<close>

fun pf_step ::
  "('a, 'v, 's) relay_env \<Rightarrow> (nat \<Rightarrow> ('a, 'v, 's) relay runtime) \<Rightarrow> hls_env \<Rightarrow> (string \<Rightarrow> bool \<times> string) \<Rightarrow>
     pf_event \<Rightarrow> ('a, 'v, 's) platform \<Rightarrow> ('a, 'v, 's) platform" where
  "pf_step E rts H query (OnRelay e) P =
     P\<lparr>pf_net := snd (net_step E rts e (pf_net P)), pf_to_cchls := pf_to_cchls P @ net_fired E rts e (pf_net P)\<rparr>"
| "pf_step E rts H query (ToCchls k) P =
     (if k < length (pf_to_cchls P) then
        (case query (pf_to_cchls P ! k) of (form_ok, channel) \<Rightarrow>
           P\<lparr>pf_to_cchls := without k (pf_to_cchls P), pf_cchls := cc_step H (Request form_ok channel) (pf_cchls P)\<rparr>)
      else P)"
| "pf_step E rts H query (OnCchls t) P =
     (let Q = cc_step H t (pf_cchls P) in
      P\<lparr>pf_cchls := Q,
        pf_to_hlsnew := pf_to_hlsnew P @ drop (length (cc_calls (cp_st (pf_cchls P)))) (cc_calls (cp_st Q))\<rparr>)"
| "pf_step E rts H query (ToHlsnew k) P =
     (if k < length (pf_to_hlsnew P) then
        (case query (pf_to_hlsnew P ! k) of (form_ok, channel) \<Rightarrow>
           P\<lparr>pf_to_hlsnew := without k (pf_to_hlsnew P),
             pf_hlsnew := map_option (\<lambda>st. snd (dedHandler H form_ok channel st)) (pf_hlsnew P)\<rparr>)
      else P)"
| "pf_step E rts H query (Streams s) P =
     (case pf_hlsnew P of
        Some st \<Rightarrow>
          if s \<in> set (hn_streams st) then
            (case startStream H s (st\<lparr>hn_streams := remove1 s (hn_streams st)\<rparr>) of
               (Ok _, st) \<Rightarrow> P\<lparr>pf_hlsnew := Some st\<rparr>
             | _ \<Rightarrow> P\<lparr>pf_hlsnew := None\<rparr>)
          else P
      | None \<Rightarrow> P)"

definition pf_run ::
  "('a, 'v, 's) relay_env \<Rightarrow> (nat \<Rightarrow> ('a, 'v, 's) relay runtime) \<Rightarrow> hls_env \<Rightarrow> (string \<Rightarrow> bool \<times> string) \<Rightarrow>
     pf_event list \<Rightarrow> ('a, 'v, 's) platform \<Rightarrow> ('a, 'v, 's) platform" where
  "pf_run E rts H query es P = fold (pf_step E rts H query) es P"

definition pf_start :: "('a, 'v, 's) net \<Rightarrow> MsgClient option \<Rightarrow> MsgClient option \<Rightarrow> ('a, 'v, 's) platform" where
  "pf_start N cc hn = \<lparr>pf_net = N, pf_cchls = cc_start cc,
     pf_hlsnew = Some \<lparr>viewerCounts = [], hn_root = None, hn_streams = [], hn_client = hn\<rparr>,
     pf_to_cchls = [], pf_to_hlsnew = []\<rparr>"

text \<open>The channels somebody asked for: those of the keys that were given, and of requests to cchls from elsewhere.\<close>

fun asked_by :: "pf_event \<Rightarrow> string list" where
  "asked_by (OnRelay e) = key_channel e"
| "asked_by (OnCchls (Request form_ok channel)) = (if form_ok \<and> channel \<noteq> ''$tart'' then [channel] else [])"
| "asked_by _ = []"

definition asked :: "pf_event list \<Rightarrow> string set" where
  "asked es = set (concat (map asked_by es))"

text \<open>A channel whose name a URL carries as it is.\<close>

definition plain_query :: "(string \<Rightarrow> bool \<times> string) \<Rightarrow> string \<Rightarrow> bool" where
  "plain_query query channel \<longleftrightarrow> query (key_url channel) = (True, channel) \<and> query (call_url channel) = (True, channel)"

definition segments_dir :: "hls_env \<Rightarrow> string \<Rightarrow> string" where
  "segments_dir H s = filepath_Join H [homeDir H, ''Downloads'', ''segments'', s]"

definition cc_inv :: "string set \<Rightarrow> cc_proc \<Rightarrow> bool" where
  "cc_inv A Q \<longleftrightarrow> cc_channel (cp_st Q) \<in> insert [] A \<and> set (cc_downloads (cp_st Q)) \<subseteq> insert [] A \<and>
     set (cp_calling Q) \<subseteq> insert [] A"

definition hn_inv :: "hls_env \<Rightarrow> string set \<Rightarrow> Hlsnew \<Rightarrow> bool" where
  "hn_inv H A st \<longleftrightarrow> set (hn_streams st) \<subseteq> A \<and> set_option (hn_root st) \<subseteq> segments_dir H ` A"

definition pf_inv :: "hls_env \<Rightarrow> string set \<Rightarrow> ('a, 'v, 's) platform \<Rightarrow> bool" where
  "pf_inv H A P \<longleftrightarrow> set (pf_to_cchls P) \<subseteq> insert start_url (key_url ` A) \<and> cc_inv A (pf_cchls P) \<and>
     set (pf_to_hlsnew P) \<subseteq> call_url ` insert [] A \<and> pred_option (hn_inv H A) (pf_hlsnew P)"

lemma set_without: "set (without k xs) \<subseteq> set xs"
  by (auto simp: without_def dest: in_set_takeD in_set_dropD)

lemma cc_request_inv: "cc_inv A Q \<Longrightarrow> channel \<in> insert ''$tart'' (insert [] A) \<Longrightarrow> cc_inv A (cc_step H (Request True channel) Q)"
  by (auto simp: cc_inv_def integrated_frame)

lemma cc_turn_inv:
  assumes "cc_inv A Q" "set (asked_by (OnCchls t)) \<subseteq> A"
  shows "cc_inv A (cc_step H t Q)"
    "\<exists>us. cc_calls (cp_st (cc_step H t Q)) = cc_calls (cp_st Q) @ us \<and> set us \<subseteq> call_url ` insert [] A"
proof -
  have "cc_inv A (cc_step H t Q) \<and>
    (\<exists>us. cc_calls (cp_st (cc_step H t Q)) = cc_calls (cp_st Q) @ us \<and> set us \<subseteq> call_url ` insert [] A)"
  proof (cases t)
    case (Request form_ok channel)
    with assms show ?thesis by (auto simp: cc_inv_def integrated_frame)
  next
    case (Download s)
    then show ?thesis
      using assms(1) by (auto simp: cc_inv_def begin_download_def publish_now_frame dest: subsetD [OF set_remove1_subset] split: option.split)
  next
    case (Call s)
    then show ?thesis using assms(1) by (auto simp: cc_inv_def callAPI_url dest: subsetD [OF set_remove1_subset])
  next
    case (FfmpegEnds s)
    then show ?thesis using assms(1) by (simp add: cc_inv_def end_download_def publish_now_frame Let_def)
  qed
  then show "cc_inv A (cc_step H t Q)"
    "\<exists>us. cc_calls (cp_st (cc_step H t Q)) = cc_calls (cp_st Q) @ us \<and> set us \<subseteq> call_url ` insert [] A" by blast+
qed

lemma ded_inv: "hn_inv H A st \<Longrightarrow> channel \<in> insert [] A \<Longrightarrow> hn_inv H A (snd (dedHandler H form_ok channel st))"
  by (auto simp: hn_inv_def dedHandler_def incrementViewer_def hn_publish_def Let_def)

lemma stream_inv:
  "hn_inv H A st \<Longrightarrow> s \<in> set (hn_streams st) \<Longrightarrow> startStream H s (st\<lparr>hn_streams := remove1 s (hn_streams st)\<rparr>) = (Ok u, st') \<Longrightarrow>
   hn_inv H A st'"
  using set_remove1_subset [of s "hn_streams st"]
  by (auto simp: hn_inv_def startStream_def http_Handle_root_def hn_publish_def segments_dir_def Let_def split: option.splits)

lemma pf_step_inv:
  assumes "pf_inv H A P" "set (asked_by e) \<subseteq> A" "\<forall>channel \<in> insert ''$tart'' (insert [] A). plain_query query channel"
  shows "pf_inv H A (pf_step E rts H query e P)"
proof (cases e)
  case (OnRelay x)
  have "set (net_fired E rts x (pf_net P)) \<subseteq> insert start_url (key_url ` A)"
    using net_fired_urls [of E rts x "pf_net P"] assms(2) OnRelay by auto
  with assms(1) show ?thesis by (simp add: OnRelay pf_inv_def)
next
  case (ToCchls k)
  show ?thesis
  proof (cases "k < length (pf_to_cchls P)")
    case True
    then have "pf_to_cchls P ! k \<in> insert start_url (key_url ` A)" using assms(1) nth_mem unfolding pf_inv_def by blast
    then obtain channel where channel: "pf_to_cchls P ! k = key_url channel" "channel \<in> insert ''$tart'' (insert [] A)"
      by (auto simp: start_key)
    from assms(3) channel(2) have "plain_query query channel" by blast
    with channel(1) have "query (pf_to_cchls P ! k) = (True, channel)" by (simp add: plain_query_def)
    with True assms(1) cc_request_inv [OF _ channel(2)] show ?thesis
      using set_without [of k "pf_to_cchls P"] by (auto simp: ToCchls pf_inv_def)
  qed (use assms(1) in \<open>simp add: ToCchls\<close>)
next
  case (OnCchls t)
  from assms(1) have "cc_inv A (pf_cchls P)" by (simp add: pf_inv_def)
  note turn = cc_turn_inv [OF this assms(2) [unfolded OnCchls], of H]
  from turn(2) obtain us where "cc_calls (cp_st (cc_step H t (pf_cchls P))) = cc_calls (cp_st (pf_cchls P)) @ us"
    "set us \<subseteq> call_url ` insert [] A" by blast
  with turn(1) show ?thesis using assms(1) by (simp add: OnCchls pf_inv_def Let_def)
next
  case (ToHlsnew k)
  show ?thesis
  proof (cases "k < length (pf_to_hlsnew P)")
    case True
    then have "pf_to_hlsnew P ! k \<in> call_url ` insert [] A" using assms(1) nth_mem unfolding pf_inv_def by blast
    then obtain channel where channel: "pf_to_hlsnew P ! k = call_url channel" "channel \<in> insert [] A" by blast
    from assms(3) channel(2) have "plain_query query channel" by blast
    with channel(1) have "query (pf_to_hlsnew P ! k) = (True, channel)" by (simp add: plain_query_def)
    with True assms(1) ded_inv [OF _ channel(2), of H] show ?thesis
      using set_without [of k "pf_to_hlsnew P"] by (cases "pf_hlsnew P") (auto simp: ToHlsnew pf_inv_def)
  qed (use assms(1) in \<open>simp add: ToHlsnew\<close>)
next
  case (Streams s)
  show ?thesis
  proof (cases "pf_hlsnew P")
    case (Some st)
    then have "hn_inv H A st" using assms(1) by (simp add: pf_inv_def)
    with stream_inv [OF this] Some assms(1) show ?thesis
      by (auto simp: Streams pf_inv_def split: prod.split outcome.split)
  qed (use assms(1) in \<open>simp add: Streams\<close>)
qed

lemma pf_run_inv:
  assumes "pf_inv H A P" "asked es \<subseteq> A" "\<forall>channel \<in> insert ''$tart'' (insert [] A). plain_query query channel"
  shows "pf_inv H A (pf_run E rts H query es P)"
  using assms(1,2)
proof (induction es arbitrary: P)
  case (Cons e es)
  then have "pf_inv H A (pf_step E rts H query e P)" "asked es \<subseteq> A"
    using pf_step_inv [OF Cons.prems(1) _ assms(3)] by (auto simp: asked_def)
  from Cons.IH [OF this] show ?case by (simp add: pf_run_def)
qed (simp add: pf_run_def)

lemma pf_run_fired: "fired (http_of (pf_net P) h) (http_of (pf_net (pf_run E rts H query es P)) h)"
proof (induction es arbitrary: P)
  case (Cons e es)
  have "fired (http_of (pf_net P) h) (http_of (pf_net (pf_step E rts H query e P)) h)"
    by (cases e) (auto simp: net_step_fired Let_def split: prod.split option.split outcome.split simp del: net_step.simps)
  with Cons [of "pf_step E rts H query e P"] show ?case by (auto simp: pf_run_def intro: fired_trans)
qed (simp add: pf_run_def)


text \<open>A query parser for names without special characters.\<close>

definition sampleQuery :: "string \<Rightarrow> bool \<times> string" where
  "sampleQuery u = (True, if take 35 u = key_url [] then drop 35 u else drop 34 u)"

lemma sampleQuery_plain: "plain_query sampleQuery channel"
  by (simp add: plain_query_def sampleQuery_def key_url_def call_url_def)

definition sampleEvents :: "pf_event list" where
  "sampleEvents = [OnRelay (Asks (\<lambda>_. 0) True ''a''), ToCchls 0, OnCchls (Request True ''$tart''), OnCchls (Download ''a''),
     OnCchls (Call ''a''), ToHlsnew 0]"


section \<open>Which room a publication starts\<close>

lemma publication_fires:
  assumes "handleMessage (relay_runtime E h (rts h)) csid ts m (with_relay (net_relay N) (net_conns N h)) = (Ok (), c')"
    and "w_http (conn_w c') = http_of N h @ [start_url]" "\<not> isClosed (net_conns N h)"
  shows "net_fired E rts (Handles h csid ts m) N = [start_url]"
  using assms by (simp add: net_fired_def turn_of_def http_of_def forward_frame)

lemma key_asked:
  assumes "b \<noteq> []"
  shows "net_fired E rts (Asks rnd True b) N = [key_url b]"
    "net_conns (snd (net_step E rts (Asks rnd True b) N)) = net_conns N"
  using assms by (simp_all add: net_fired_def handler_def key_url_def Let_def)


definition roomRt :: "(unit, bool, nat) relay runtime" where
  "roomRt = \<lparr>rt_lib = mapAmf, rt_ms = sampleMs, rt_turn = sampleTurn, rt_idle = (\<lambda>out. out), rt_cfg = sampleConnCfg\<rparr>"

definition roomConn :: "(unit, bool, nat) relay Conn" where
  "roomConn = (let c = newConn (wire_of []) open_connection sampleConnCfg NewRelayService in
     c\<lparr>conn_streams := (conn_streams c)\<lparr>strm_map := [(1, inactiveStream)]\<rparr>\<rparr>)"


end
