(* ===== verification/RelayViews.thy ===== *)
theory RelayViews
  imports RelayProps
begin

text \<open>
  pubsub.go with its pointers: a tag is an object of a heap whose data refers to a buffer, the publisher keeps pointers to
  two tags, sending a tag to a subscriber changes its timestamp and consumes its buffer, and \<open>cloneView\<close> copies both
  first. The theorem is that the publishing of theory Relay, on values, is what this does.
\<close>

section \<open>The heap\<close>

datatype ('a, 'v, 's) tag_ptr = AudioPtr 'a nat | VideoPtr 'v nat | ScriptPtr 's

record ('a, 'v, 's) tag_obj =
  objTimestamp :: u32
  objData :: "('a, 'v, 's) tag_ptr"

record ('a, 'v, 's) tag_heap =
  hp_tags :: "('a, 'v, 's) tag_obj list"
  hp_bufs :: "byte list list"

text \<open>
  The relay with its heap and the two pointers of every publisher; the tags in the publishers of \<open>pr_relay\<close> are not used.
\<close>

record ('a, 'v, 's) ptr_relay =
  pr_relay :: "('a, 'v, 's) relay"
  pr_heap :: "('a, 'v, 's) tag_heap"
  pr_seq :: "nat \<Rightarrow> nat option"
  pr_key :: "nat \<Rightarrow> nat option"

fun buf_of :: "('a, 'v, 's) tag_ptr \<Rightarrow> nat option" where
  "buf_of (AudioPtr d b) = Some b"
| "buf_of (VideoPtr d b) = Some b"
| "buf_of (ScriptPtr d) = None"

text \<open>What a tag pointer stands for now.\<close>

definition view_of :: "byte list list \<Rightarrow> ('a, 'v, 's) tag_obj \<Rightarrow> ('a, 'v, 's) FlvTag" where
  "view_of bufs ob = \<lparr>tagTimestamp = objTimestamp ob, tagData = (case objData ob of
     AudioPtr d b \<Rightarrow> AudioData d (bufs ! b) | VideoPtr d b \<Rightarrow> VideoData d (bufs ! b) | ScriptPtr d \<Rightarrow> ScriptData d)\<rparr>"

definition view :: "('a, 'v, 's) tag_heap \<Rightarrow> nat \<Rightarrow> ('a, 'v, 's) FlvTag" where
  "view h t = view_of (hp_bufs h) (hp_tags h ! t)"

definition cloneView :: "nat \<Rightarrow> ('a, 'v, 's) tag_heap \<Rightarrow> nat \<times> ('a, 'v, 's) tag_heap" where
  "cloneView t h =
     (let v = hp_tags h ! t; b' = length (hp_bufs h) in
      (length (hp_tags h),
       (case objData v of
          AudioPtr d b \<Rightarrow> h\<lparr>hp_tags := hp_tags h @ [v\<lparr>objData := AudioPtr d b'\<rparr>], hp_bufs := hp_bufs h @ [hp_bufs h ! b]\<rparr>
        | VideoPtr d b \<Rightarrow> h\<lparr>hp_tags := hp_tags h @ [v\<lparr>objData := VideoPtr d b'\<rparr>], hp_bufs := hp_bufs h @ [hp_bufs h ! b]\<rparr>
        | ScriptPtr d \<Rightarrow> h\<lparr>hp_tags := hp_tags h @ [v]\<rparr>)))"

text \<open>\<open>unread\<close> is what go-flv leaves of a buffer that it encodes a tag from.\<close>

definition consume :: "(byte list \<Rightarrow> byte list) \<Rightarrow> nat \<Rightarrow> ('a, 'v, 's) tag_heap \<Rightarrow> ('a, 'v, 's) tag_heap" where
  "consume unread t h =
     (case buf_of (objData (hp_tags h ! t)) of
        None \<Rightarrow> h
      | Some b \<Rightarrow> h\<lparr>hp_bufs := (hp_bufs h)[b := unread (hp_bufs h ! b)]\<rparr>)"

definition set_timestamp :: "nat \<Rightarrow> u32 \<Rightarrow> ('a, 'v, 's) tag_heap \<Rightarrow> ('a, 'v, 's) tag_heap" where
  "set_timestamp t ts h = h\<lparr>hp_tags := (hp_tags h)[t := (hp_tags h ! t)\<lparr>objTimestamp := ts\<rparr>]\<rparr>"

section \<open>Publishing with pointers\<close>

definition onEvent_ptr ::
  "('a, 'v, 's) relay_env \<Rightarrow> (byte list \<Rightarrow> byte list) \<Rightarrow> nat \<Rightarrow> nat \<Rightarrow> ('a, 'v, 's) ptr_relay \<Rightarrow> unit outcome \<times> ('a, 'v, 's) ptr_relay" where
  "onEvent_ptr E unread i t P =
     (let s = r_subs (pr_relay P) ! i; ts = objTimestamp (hp_tags (pr_heap P) ! t) in
      if sub_closed s then (Ok (), P)
      else
        let base = (if ts \<noteq> 0 \<and> lastTimestamp s = 0 then ts else lastTimestamp s);
            r = (pr_relay P)\<lparr>r_subs := (r_subs (pr_relay P))[i := s\<lparr>lastTimestamp := base\<rparr>]\<rparr>;
            h = set_timestamp t (ts - base) (pr_heap P) in
        (case eventCallback s of
           None \<Rightarrow> (Panic ''invalid memory address or nil pointer dereference'', P\<lparr>pr_relay := r, pr_heap := h\<rparr>)
         | Some (conn, strm) \<Rightarrow>
             (case onEventCallback E conn strm (view h t) r of
                (res, r) \<Rightarrow> (res, P\<lparr>pr_relay := r, pr_heap := consume unread t h\<rparr>))))"

definition on_clone ::
  "('a, 'v, 's) relay_env \<Rightarrow> (byte list \<Rightarrow> byte list) \<Rightarrow> nat \<Rightarrow> nat \<Rightarrow> ('a, 'v, 's) ptr_relay \<Rightarrow> unit outcome \<times> ('a, 'v, 's) ptr_relay" where
  "on_clone E unread i t P = (case cloneView t (pr_heap P) of (t', h) \<Rightarrow> onEvent_ptr E unread i t' (P\<lparr>pr_heap := h\<rparr>))"

definition opt_clone ::
  "('a, 'v, 's) relay_env \<Rightarrow> (byte list \<Rightarrow> byte list) \<Rightarrow> nat \<Rightarrow> nat option \<Rightarrow> ('a, 'v, 's) ptr_relay \<Rightarrow> unit outcome \<times> ('a, 'v, 's) ptr_relay" where
  "opt_clone E unread i t P = (case t of None \<Rightarrow> (Ok (), P) | Some t \<Rightarrow> dropped (on_clone E unread i t) P)"

definition video_clone ::
  "('a, 'v, 's) relay_env \<Rightarrow> (byte list \<Rightarrow> byte list) \<Rightarrow> nat \<Rightarrow> nat \<Rightarrow> nat \<Rightarrow> ('a, 'v, 's) ptr_relay \<Rightarrow> unit outcome \<times> ('a, 'v, 's) ptr_relay" where
  "video_clone E unread p t i P =
     (if \<not> initialized (r_subs (pr_relay P) ! i) then
        andthen (opt_clone E unread i (pr_seq P p) P) (\<lambda>_ P.
        andthen (opt_clone E unread i (pr_key P p) P) (\<lambda>_ P.
          let r = pr_relay P in (Ok (), P\<lparr>pr_relay := r\<lparr>r_subs := (r_subs r)[i := (r_subs r ! i)\<lparr>initialized := True\<rparr>]\<rparr>\<rparr>)))
      else on_clone E unread i t P)"

definition remember_ptr ::
  "('a, 'v, 's) relay_env \<Rightarrow> 'v \<Rightarrow> nat \<Rightarrow> nat \<Rightarrow> ('a, 'v, 's) ptr_relay \<Rightarrow> ('a, 'v, 's) ptr_relay" where
  "remember_ptr E d p t P =
     (let P = (if isSequenceHeader E d then P\<lparr>pr_seq := (pr_seq P)(p := Some t)\<rparr> else P) in
      if isKeyFrame E d then P\<lparr>pr_key := (pr_key P)(p := Some t)\<rparr> else P)"

definition Publish_ptr ::
  "('a, 'v, 's) relay_env \<Rightarrow> (byte list \<Rightarrow> byte list) \<Rightarrow> nat option \<Rightarrow> nat \<Rightarrow> ('a, 'v, 's) ptr_relay \<Rightarrow> unit outcome \<times> ('a, 'v, 's) ptr_relay" where
  "Publish_ptr E unread pub t P =
     (case pub of
        None \<Rightarrow> (Panic ''invalid memory address or nil pointer dereference'', P)
      | Some p \<Rightarrow>
          let r = pr_relay P; subs = pb_subs (r_pubsubs r ! pub_pb (r_pubs r ! p)) in
          (case objData (hp_tags (pr_heap P) ! t) of
             VideoPtr d _ \<Rightarrow> each_sub (video_clone E unread p t) subs (remember_ptr E d p t P)
           | _ \<Rightarrow> each_sub (\<lambda>i. on_clone E unread i t) subs P))"

section \<open>Clones\<close>

definition heap_ok :: "('a, 'v, 's) tag_heap \<Rightarrow> bool" where
  "heap_ok h \<longleftrightarrow> (\<forall>t < length (hp_tags h). \<forall>b. buf_of (objData (hp_tags h ! t)) = Some b \<longrightarrow> b < length (hp_bufs h))"

text \<open>A heap that still shows every tag of another one as it was.\<close>

definition heap_grown :: "('a, 'v, 's) tag_heap \<Rightarrow> ('a, 'v, 's) tag_heap \<Rightarrow> bool" where
  "heap_grown h h' \<longleftrightarrow> heap_ok h' \<and> length (hp_tags h) \<le> length (hp_tags h') \<and> (\<forall>k < length (hp_tags h). view h' k = view h k)"

text \<open>A tag that shares its buffer with no older one.\<close>

definition fresh_from :: "nat \<Rightarrow> nat \<Rightarrow> ('a, 'v, 's) tag_heap \<Rightarrow> bool" where
  "fresh_from n t h \<longleftrightarrow> n \<le> t \<and> t < length (hp_tags h) \<and>
     (\<forall>k < n. \<forall>b. buf_of (objData (hp_tags h ! k)) = Some b \<longrightarrow> buf_of (objData (hp_tags h ! t)) \<noteq> Some b)"

lemma view_cong:
  "objTimestamp ob' = objTimestamp ob \<Longrightarrow> objData ob' = objData ob \<Longrightarrow>
   (\<And>b. buf_of (objData ob) = Some b \<Longrightarrow> bufs' ! b = bufs ! b) \<Longrightarrow> view_of bufs' ob' = view_of bufs ob"
  by (cases "objData ob") (simp_all add: view_of_def)

lemma cloneView_spec:
  assumes "heap_ok h" "t < length (hp_tags h)" "cloneView t h = (t', h')"
  shows "heap_grown h h'" "fresh_from (length (hp_tags h)) t' h'" "view h' t' = view h t"
proof -
  let ?v = "hp_tags h ! t"
  have t': "t' = length (hp_tags h)" using assms(3) by (simp add: cloneView_def Let_def)
  have old: "b < length (hp_bufs h)" if "k < length (hp_tags h)" "buf_of (objData (hp_tags h ! k)) = Some b" for k b
    using assms(1) that by (simp add: heap_ok_def)
  obtain ob bs where h': "h' = h\<lparr>hp_tags := hp_tags h @ [ob], hp_bufs := hp_bufs h @ bs\<rparr>"
    and ob: "objTimestamp ob = objTimestamp ?v" "view_of (hp_bufs h @ bs) ob = view_of (hp_bufs h) ?v"
      "\<And>b. buf_of (objData ob) = Some b \<Longrightarrow> b = length (hp_bufs h) \<and> bs \<noteq> []"
  proof (cases "objData ?v")
    case (AudioPtr d b)
    with assms(3) that [of "[hp_bufs h ! b]" "?v\<lparr>objData := AudioPtr d (length (hp_bufs h))\<rparr>"] show thesis
      by (simp add: cloneView_def Let_def view_of_def)
  next
    case (VideoPtr d b)
    with assms(3) that [of "[hp_bufs h ! b]" "?v\<lparr>objData := VideoPtr d (length (hp_bufs h))\<rparr>"] show thesis
      by (simp add: cloneView_def Let_def view_of_def)
  next
    case (ScriptPtr d)
    with assms(3) that [of "[]" ?v] show thesis by (auto simp: cloneView_def Let_def view_of_def)
  qed
  have "view h' k = view h k" if "k < length (hp_tags h)" for k
    unfolding view_def using that old by (intro view_cong) (simp_all add: h' nth_append)
  moreover have "heap_ok h'"
    unfolding heap_ok_def
  proof (intro allI impI)
    fix k b assume k: "k < length (hp_tags h')" "buf_of (objData (hp_tags h' ! k)) = Some b"
    show "b < length (hp_bufs h')"
    proof (cases "k < length (hp_tags h)")
      case True
      with k old [of k b] show ?thesis by (simp add: h' nth_append)
    next
      case False
      with k have "k = length (hp_tags h)" by (simp add: h')
      with k ob(3) [of b] show ?thesis by (auto simp: h')
    qed
  qed
  ultimately show "heap_grown h h'" by (simp add: heap_grown_def h')
  show "fresh_from (length (hp_tags h)) t' h'"
    unfolding fresh_from_def using ob(3) old by (fastforce simp: h' t' nth_append)
  show "view h' t' = view h t" using ob(2) by (simp add: view_def h' t')
qed

text \<open>Changing a fresh tag changes no older one.\<close>

lemma set_timestamp_spec:
  assumes "heap_grown h0 h" "fresh_from (length (hp_tags h0)) t h"
  shows "heap_grown h0 (set_timestamp t ts h)" "fresh_from (length (hp_tags h0)) t (set_timestamp t ts h)"
    "view (set_timestamp t ts h) t = (view h t)\<lparr>tagTimestamp := ts\<rparr>"
proof -
  have data: "objData (hp_tags (set_timestamp t ts h) ! k) = objData (hp_tags h ! k)" for k
    by (cases "k = t"; cases "t < length (hp_tags h)") (simp_all add: set_timestamp_def list_update_beyond)
  have "view (set_timestamp t ts h) k = view h k" if "k < length (hp_tags h0)" for k
    using that assms(2) by (simp add: view_def set_timestamp_def fresh_from_def)
  with assms show "heap_grown h0 (set_timestamp t ts h)"
    by (simp add: heap_grown_def heap_ok_def data) (simp add: set_timestamp_def)
  show "fresh_from (length (hp_tags h0)) t (set_timestamp t ts h)"
    using assms(2) by (simp add: fresh_from_def data) (simp add: set_timestamp_def)
  show "view (set_timestamp t ts h) t = (view h t)\<lparr>tagTimestamp := ts\<rparr>"
    using assms(2) by (simp add: view_def view_of_def set_timestamp_def fresh_from_def)
qed

lemma consume_spec:
  assumes "heap_grown h0 h" "fresh_from (length (hp_tags h0)) t h"
  shows "heap_grown h0 (consume unread t h)"
proof (cases "buf_of (objData (hp_tags h ! t))")
  case (Some b)
  have "view (consume unread t h) k = view h k" if "k < length (hp_tags h0)" for k
    unfolding view_def using that assms(2) Some
    by (intro view_cong) (auto simp: consume_def fresh_from_def)
  with assms Some show ?thesis by (simp add: heap_grown_def heap_ok_def consume_def)
qed (use assms in \<open>simp add: consume_def\<close>)

section \<open>Publishing on values is what it does\<close>

definition ptrs_ok :: "('a, 'v, 's) ptr_relay \<Rightarrow> bool" where
  "ptrs_ok P \<longleftrightarrow> heap_ok (pr_heap P) \<and>
     (\<forall>p t. pr_seq P p = Some t \<or> pr_key P p = Some t \<longrightarrow> t < length (hp_tags (pr_heap P)))"

text \<open>The relay on values: every publisher has the tags its pointers stand for.\<close>

definition with_tags ::
  "(nat \<Rightarrow> ('a, 'v, 's) FlvTag option \<times> ('a, 'v, 's) FlvTag option) \<Rightarrow> ('a, 'v, 's) relay \<Rightarrow> ('a, 'v, 's) relay" where
  "with_tags f r = r\<lparr>r_pubs := map (\<lambda>p. (r_pubs r ! p)\<lparr>avcSeqHeader := fst (f p), lastKeyFrame := snd (f p)\<rparr>) [0..<length (r_pubs r)]\<rparr>"

definition views :: "('a, 'v, 's) ptr_relay \<Rightarrow> nat \<Rightarrow> ('a, 'v, 's) FlvTag option \<times> ('a, 'v, 's) FlvTag option" where
  "views P p = (map_option (view (pr_heap P)) (pr_seq P p), map_option (view (pr_heap P)) (pr_key P p))"

definition abs_relay :: "('a, 'v, 's) ptr_relay \<Rightarrow> ('a, 'v, 's) relay" where
  "abs_relay P = with_tags (views P) (pr_relay P)"

definition grown :: "('a, 'v, 's) ptr_relay \<Rightarrow> ('a, 'v, 's) ptr_relay \<Rightarrow> bool" where
  "grown P P' \<longleftrightarrow> heap_grown (pr_heap P) (pr_heap P') \<and> pr_seq P' = pr_seq P \<and> pr_key P' = pr_key P \<and>
     r_pubs (pr_relay P') = r_pubs (pr_relay P)"

text \<open>\<open>f\<close> on pointers does what \<open>g\<close> does on values, and disturbs no tag that was there.\<close>

definition implements ::
  "(('a, 'v, 's) ptr_relay \<Rightarrow> unit outcome \<times> ('a, 'v, 's) ptr_relay) \<Rightarrow> ('a, 'v, 's, unit) relay_op \<Rightarrow> ('a, 'v, 's) ptr_relay \<Rightarrow> bool" where
  "implements f g P \<longleftrightarrow> grown P (snd (f P)) \<and> g (abs_relay P) = apsnd abs_relay (f P)"

lemma grown_refl: "ptrs_ok P \<Longrightarrow> grown P P"
  by (simp add: grown_def heap_grown_def ptrs_ok_def)

lemma grown_trans: "grown P P' \<Longrightarrow> grown P' P'' \<Longrightarrow> grown P P''"
  by (simp add: grown_def heap_grown_def)

lemma grown_ok: "ptrs_ok P \<Longrightarrow> grown P P' \<Longrightarrow> ptrs_ok P'"
  by (fastforce simp: ptrs_ok_def grown_def heap_grown_def)

lemma grown_views: "ptrs_ok P \<Longrightarrow> grown P P' \<Longrightarrow> views P' = views P"
  by (intro ext) (auto simp: views_def grown_def heap_grown_def ptrs_ok_def split: option.split intro!: option.map_cong0)

lemma grown_view: "grown P P' \<Longrightarrow> t < length (hp_tags (pr_heap P)) \<Longrightarrow>
  view (pr_heap P') t = view (pr_heap P) t \<and> t < length (hp_tags (pr_heap P'))"
  by (simp add: grown_def heap_grown_def)

lemma with_tags_frame [simp]:
  "r_subs (with_tags f r) = r_subs r" "r_sent (with_tags f r) = r_sent r" "r_pubsubs (with_tags f r) = r_pubsubs r"
  "length (r_pubs (with_tags f r)) = length (r_pubs r)"
  by (simp_all add: with_tags_def)

lemma onEvent_with_tags: "onEvent E i flv (with_tags f r) = apsnd (with_tags f) (onEvent E i flv r)"
  by (simp add: onEvent_def onEventCallback_def with_tags_def Let_def split: option.split outcome.split)

lemma onEvent_pubs: "r_pubs (snd (onEvent E i flv r)) = r_pubs r"
  by (simp add: onEvent_def onEventCallback_def Let_def split: option.split outcome.split)

lemma onEvent_ptr_spec:
  assumes "heap_grown h0 (pr_heap P)" "fresh_from (length (hp_tags h0)) t (pr_heap P)" "onEvent_ptr E unread i t P = (res, P')"
  shows "heap_grown h0 (pr_heap P')" "pr_seq P' = pr_seq P" "pr_key P' = pr_key P"
    "onEvent E i (view (pr_heap P) t) (pr_relay P) = (res, pr_relay P')"
proof -
  note heap = set_timestamp_spec(1,2) [OF assms(1,2)]
  have ts: "objTimestamp (hp_tags (pr_heap P) ! t) = tagTimestamp (view (pr_heap P) t)" by (simp add: view_def view_of_def)
  have "heap_grown h0 (pr_heap P') \<and> pr_seq P' = pr_seq P \<and> pr_key P' = pr_key P \<and>
    onEvent E i (view (pr_heap P) t) (pr_relay P) = (res, pr_relay P')"
    using assms(1,3) heap consume_spec [OF heap] set_timestamp_spec(3) [OF assms(1,2)]
    by (auto simp: onEvent_ptr_def onEvent_def ts Let_def split: if_splits option.splits prod.splits)
  then show "heap_grown h0 (pr_heap P')" "pr_seq P' = pr_seq P" "pr_key P' = pr_key P"
    "onEvent E i (view (pr_heap P) t) (pr_relay P) = (res, pr_relay P')" by blast+
qed

lemma on_clone_implements:
  assumes "ptrs_ok P" "t < length (hp_tags (pr_heap P))"
  shows "implements (on_clone E unread i t) (onEvent E i (view (pr_heap P) t)) P"
proof -
  obtain t' h where cl: "cloneView t (pr_heap P) = (t', h)" by fastforce
  have ok: "heap_ok (pr_heap P)" using assms(1) by (simp add: ptrs_ok_def)
  note clone = cloneView_spec [OF ok assms(2) cl]
  obtain res P' where ev: "onEvent_ptr E unread i t' (P\<lparr>pr_heap := h\<rparr>) = (res, P')" by fastforce
  note spec = onEvent_ptr_spec [of "pr_heap P" "P\<lparr>pr_heap := h\<rparr>" t', simplified, OF clone(1,2) ev]
  have run: "on_clone E unread i t P = (res, P')" by (simp add: on_clone_def cl ev)
  have "grown P P'"
    using spec onEvent_pubs [of E i "view h t'" "pr_relay P"] by (simp add: grown_def)
  moreover have "onEvent E i (view (pr_heap P) t) (abs_relay P) = (res, abs_relay P')"
    using spec(4) by (simp add: abs_relay_def grown_views [OF assms(1) \<open>grown P P'\<close>] onEvent_with_tags clone(3))
  ultimately show ?thesis by (simp add: implements_def run)
qed

lemma implements_dropped: "implements f g P \<Longrightarrow> implements (dropped f) (dropped g) P"
  by (auto simp: implements_def dropped_def apsnd_def map_prod_def split: prod.splits outcome.splits)

lemma implements_ok: "ptrs_ok P \<Longrightarrow> implements f g P \<Longrightarrow> f P = (res, P') \<Longrightarrow> ptrs_ok P' \<and> grown P P' \<and> g (abs_relay P) = (res, abs_relay P')"
  using grown_ok [of P P'] by (simp add: implements_def)

lemma implements_andthen:
  assumes "ptrs_ok P" "implements f g P" "\<And>P'. ptrs_ok P' \<Longrightarrow> grown P P' \<Longrightarrow> implements (f' ()) (g' ()) P'"
  shows "implements (\<lambda>P. andthen (f P) f') (\<lambda>r. andthen (g r) g') P"
proof -
  obtain res P' where f: "f P = (res, P')" by fastforce
  from implements_ok [OF assms(1,2) f] have step: "ptrs_ok P'" "grown P P'" "g (abs_relay P) = (res, abs_relay P')" by simp_all
  with assms(3) [OF step(1,2)] grown_trans [OF step(2)] show ?thesis
    by (cases res) (simp_all add: implements_def f)
qed

lemma implements_each:
  assumes "ptrs_ok P" "\<And>i P'. ptrs_ok P' \<Longrightarrow> grown P P' \<Longrightarrow> implements (f i) (g i) P'"
  shows "implements (each_sub f is) (each_sub g is) P"
  using assms
proof (induction "is" arbitrary: P)
  case Nil
  then show ?case by (simp add: implements_def grown_refl)
next
  case (Cons i "is")
  obtain res P' where f: "f i P = (res, P')" by fastforce
  from implements_ok [OF Cons.prems(1) Cons.prems(2) [OF Cons.prems(1) grown_refl [OF Cons.prems(1)]] f]
  have step: "ptrs_ok P'" "grown P P'" "g i (abs_relay P) = (res, abs_relay P')" by simp_all
  have "implements (each_sub f is) (each_sub g is) P'"
    by (rule Cons.IH [OF step(1)]) (blast intro: Cons.prems(2) grown_trans [OF step(2)])
  with step grown_trans [OF step(2)] show ?case by (cases res) (simp_all add: implements_def f)
qed

lemma implements_cong: "f P = f' P \<Longrightarrow> g (abs_relay P) = g' (abs_relay P) \<Longrightarrow> implements f g P = implements f' g' P"
  by (simp add: implements_def)

lemma abs_pubs:
  assumes "p < length (r_pubs (pr_relay P))"
  shows "r_pubs (abs_relay P) ! p = (r_pubs (pr_relay P) ! p)\<lparr>avcSeqHeader := map_option (view (pr_heap P)) (pr_seq P p),
    lastKeyFrame := map_option (view (pr_heap P)) (pr_key P p)\<rparr>"
  using assms by (simp add: abs_relay_def with_tags_def views_def)

lemma opt_clone_implements:
  assumes "ptrs_ok P" "pred_option (\<lambda>t. t < length (hp_tags (pr_heap P))) t"
  shows "implements (opt_clone E unread i t) (opt_event E i (map_option (view (pr_heap P)) t)) P"
proof (cases t)
  case (Some u)
  then have "implements (dropped (on_clone E unread i u)) (dropped (onEvent E i (view (pr_heap P) u))) P"
    using on_clone_implements [OF assms(1)] assms(2) by (simp add: implements_dropped)
  then show ?thesis by (simp add: Some implements_def opt_clone_def opt_event_def)
qed (simp add: implements_def opt_clone_def opt_event_def grown_refl assms(1))

lemma video_clone_implements:
  assumes "ptrs_ok P" "t < length (hp_tags (pr_heap P))" "p < length (r_pubs (pr_relay P))"
  shows "implements (video_clone E unread p t i) (video_event E p (view (pr_heap P) t) i) P"
proof (cases "initialized (r_subs (pr_relay P) ! i)")
  case False
  let ?done = "\<lambda>P :: ('a, 'b, 'c) ptr_relay. let r = pr_relay P in
    (Ok (), P\<lparr>pr_relay := r\<lparr>r_subs := (r_subs r)[i := (r_subs r ! i)\<lparr>initialized := True\<rparr>]\<rparr>\<rparr>)"
  let ?g = "\<lambda>r :: ('a, 'b, 'c) relay. (Ok (), r\<lparr>r_subs := (r_subs r)[i := (r_subs r ! i)\<lparr>initialized := True\<rparr>]\<rparr>)"
  have seq: "implements (opt_clone E unread i (pr_seq P p)) (opt_event E i (avcSeqHeader (r_pubs (abs_relay P) ! p))) P"
    using opt_clone_implements [OF assms(1), of "pr_seq P p"] assms(1) by (simp add: abs_pubs [OF assms(3)] ptrs_ok_def option.pred_set)
  have key: "implements (opt_clone E unread i (pr_key Q p)) (opt_event E i (lastKeyFrame (r_pubs (abs_relay Q) ! p))) Q"
    if "ptrs_ok Q" "grown P Q" for Q
    using opt_clone_implements [OF that(1), of "pr_key Q p"] that assms(3) abs_pubs [of p Q]
    by (simp add: ptrs_ok_def grown_def option.pred_set)
  have fin: "implements ?done ?g Q" if "ptrs_ok Q" for Q
    using grown_refl [OF that] by (simp add: implements_def grown_def abs_relay_def with_tags_def views_def Let_def)
  have rest: "implements (\<lambda>Q. andthen (opt_clone E unread i (pr_key Q p) Q) (\<lambda>_. ?done))
      (\<lambda>r. andthen (opt_event E i (lastKeyFrame (r_pubs r ! p)) r) (\<lambda>_. ?g)) Q" if "ptrs_ok Q" "grown P Q" for Q
    using implements_andthen [OF that(1) key [OF that], of "\<lambda>_. ?done" "\<lambda>_. ?g"] fin by (simp add: implements_def)
  from implements_andthen [OF assms(1) seq, of "\<lambda>_ Q. andthen (opt_clone E unread i (pr_key Q p) Q) (\<lambda>_. ?done)"
      "\<lambda>_ r. andthen (opt_event E i (lastKeyFrame (r_pubs r ! p)) r) (\<lambda>_. ?g)"] rest False
  show ?thesis by (simp add: implements_def video_clone_def video_event_def abs_relay_def)
next
  case True
  with on_clone_implements [OF assms(1,2), of E unread i] show ?thesis
    by (simp add: implements_def video_clone_def video_event_def abs_relay_def)
qed

lemma remember_ptr_spec:
  assumes "ptrs_ok P" "t < length (hp_tags (pr_heap P))" "p < length (r_pubs (pr_relay P))" "objData (hp_tags (pr_heap P) ! t) = VideoPtr d b"
  shows "ptrs_ok (remember_ptr E d p t P)" "pr_heap (remember_ptr E d p t P) = pr_heap P"
    "pr_relay (remember_ptr E d p t P) = pr_relay P"
    "abs_relay (remember_ptr E d p t P) =
       (abs_relay P)\<lparr>r_pubs := (r_pubs (abs_relay P))[p := remember E (view (pr_heap P) t) (r_pubs (abs_relay P) ! p)]\<rparr>"
proof -
  let ?P = "remember_ptr E d p t P"
  show ok: "ptrs_ok ?P" using assms(1,2) by (auto simp: ptrs_ok_def remember_ptr_def Let_def)
  show same: "pr_heap ?P = pr_heap P" "pr_relay ?P = pr_relay P" by (simp_all add: remember_ptr_def Let_def)
  have data: "tagData (view (pr_heap P) t) = VideoData d (hp_bufs (pr_heap P) ! b)" using assms(4) by (simp add: view_def view_of_def)
  have "r_pubs (abs_relay ?P) = (r_pubs (abs_relay P))[p := remember E (view (pr_heap P) t) (r_pubs (abs_relay P) ! p)]"
  proof (rule nth_equalityI)
    fix q assume "q < length (r_pubs (abs_relay ?P))"
    then have q: "q < length (r_pubs (pr_relay P))" by (simp add: abs_relay_def same)
    show "r_pubs (abs_relay ?P) ! q = (r_pubs (abs_relay P))[p := remember E (view (pr_heap P) t) (r_pubs (abs_relay P) ! p)] ! q"
      using q assms(3) abs_pubs [of q ?P] abs_pubs [OF q] abs_pubs [OF assms(3)]
      by (cases "q = p") (auto simp: same data remember_def remember_ptr_def Let_def abs_relay_def)
  qed (simp add: abs_relay_def same)
  then show "abs_relay ?P = (abs_relay P)\<lparr>r_pubs := (r_pubs (abs_relay P))[p := remember E (view (pr_heap P) t) (r_pubs (abs_relay P) ! p)]\<rparr>"
    by (simp add: abs_relay_def same with_tags_def)
qed

text \<open>
  C12. Publishing with pointers, where every event consumes the buffer it is made of and shifts the timestamp of its tag,
  is publishing on values, whatever go-flv leaves unread: the copies that \<open>cloneView\<close> makes keep the tag, the remembered
  sequence header and the remembered key frame as they were for every other subscriber.
\<close>

theorem publish_refines:
  assumes "ptrs_ok P" "t < length (hp_tags (pr_heap P))" "pred_option (\<lambda>p. p < length (r_pubs (pr_relay P))) pub"
  shows "Publish_tag E pub (view (pr_heap P) t) (abs_relay P) = apsnd abs_relay (Publish_ptr E unread pub t P) \<and>
    ptrs_ok (snd (Publish_ptr E unread pub t P)) \<and> heap_grown (pr_heap P) (pr_heap (snd (Publish_ptr E unread pub t P)))"
proof (cases pub)
  case None
  then show ?thesis using assms(1) grown_refl [OF assms(1)] by (simp add: Publish_tag_def Publish_ptr_def grown_def)
next
  case (Some p)
  with assms(3) have p: "p < length (r_pubs (pr_relay P))" by simp
  let ?subs = "pb_subs (r_pubsubs (pr_relay P) ! pub_pb (r_pubs (pr_relay P) ! p))"
  let ?ev = "\<lambda>i. onEvent E i (view (pr_heap P) t)"
  have subs: "pb_subs (r_pubsubs (abs_relay P) ! pub_pb (r_pubs (abs_relay P) ! p)) = ?subs"
    using abs_pubs [OF p] by (simp add: abs_relay_def)
  have plain: "implements (each_sub (\<lambda>i. on_clone E unread i t) ?subs) (each_sub ?ev ?subs) P"
  proof (rule implements_each [OF assms(1)])
    fix i P' assume "ptrs_ok P'" "grown P P'"
    with on_clone_implements [of P' t E unread i] grown_view [OF \<open>grown P P'\<close> assms(2)]
    show "implements (on_clone E unread i t) (?ev i) P'" by simp
  qed
  show ?thesis
  proof (cases "objData (hp_tags (pr_heap P) ! t)")
    case (VideoPtr d b)
    let ?P = "remember_ptr E d p t P"
    note rem = remember_ptr_spec [OF assms(1,2) p VideoPtr, of E]
    have "implements (each_sub (video_clone E unread p t) ?subs) (each_sub (video_event E p (view (pr_heap P) t)) ?subs) ?P"
    proof (rule implements_each [OF rem(1)])
      fix i P' assume P': "ptrs_ok P'" "grown ?P P'"
      with video_clone_implements [of P' t p E unread i] grown_view [OF P'(2), of t] assms(2) p rem(2,3)
      show "implements (video_clone E unread p t i) (video_event E p (view (pr_heap P) t) i) P'" by (simp add: grown_def)
    qed
    with rem grown_ok [OF rem(1)] show ?thesis
      by (simp add: Some Publish_tag_def Publish_ptr_def VideoPtr subs implements_def grown_def Let_def)
        (simp add: view_def view_of_def VideoPtr)
  next
    case (AudioPtr d b)
    with plain grown_ok [OF assms(1)] show ?thesis
      by (simp add: Some Publish_tag_def Publish_ptr_def subs implements_def grown_def Let_def) (simp add: view_def view_of_def)
  next
    case (ScriptPtr d)
    with plain grown_ok [OF assms(1)] show ?thesis
      by (simp add: Some Publish_tag_def Publish_ptr_def subs implements_def grown_def Let_def) (simp add: view_def view_of_def)
  qed
qed

text \<open>A room with two players, and an audio tag of two bytes.\<close>

definition viewRelay :: "(unit, bool, nat) ptr_relay" where
  "viewRelay = \<lparr>pr_relay = NewRelayService\<lparr>r_pubsubs := [\<lparr>pb_name = ''room'', pb_pub = Some 0, pb_subs = [0, 1]\<rparr>],
       r_pubs := [\<lparr>pub_pb = 0, avcSeqHeader = None, lastKeyFrame = None\<rparr>],
       r_subs := [\<lparr>initialized = True, sub_closed = False, lastTimestamp = 0, eventCallback = Some (1, 1)\<rparr>,
         \<lparr>initialized = True, sub_closed = False, lastTimestamp = 0, eventCallback = Some (2, 1)\<rparr>]\<rparr>,
     pr_heap = \<lparr>hp_tags = [\<lparr>objTimestamp = 7, objData = AudioPtr () 0\<rparr>], hp_bufs = [[1, 2]]\<rparr>,
     pr_seq = (\<lambda>_. None), pr_key = (\<lambda>_. None)\<rparr>"

theorem publish_refines_witness:
  "Publish_tag plainFlv (Some 0) \<lparr>tagTimestamp = 7, tagData = AudioData () [1, 2]\<rparr> (abs_relay viewRelay) =
     apsnd abs_relay (Publish_ptr plainFlv (\<lambda>_. []) (Some 0) 0 viewRelay)"
proof -
  have "ptrs_ok viewRelay" "0 < length (hp_tags (pr_heap viewRelay))" "pred_option (\<lambda>p. p < length (r_pubs (pr_relay viewRelay))) (Some 0)"
    "view (pr_heap viewRelay) 0 = \<lparr>tagTimestamp = 7, tagData = AudioData () [1, 2]\<rparr>"
    by (simp_all add: ptrs_ok_def heap_ok_def viewRelay_def view_def view_of_def)
  with publish_refines [of viewRelay 0 "Some 0" plainFlv "\<lambda>_. []"] show ?thesis by simp
qed

text \<open>Without the copies the second player would get what the first left of the buffer, with a timestamp shifted twice.\<close>

lemma clones_needed:
  "map (\<lambda>(k, csid, ts, m). (k, ts, Message m))
     (r_sent (pr_relay (snd (each_sub (\<lambda>i. onEvent_ptr plainFlv (\<lambda>_. []) i 0) [0, 1] viewRelay)))) =
   [(1, 0, AudioMessage [1, 2]), (2, 0, AudioMessage [])]"
  by (simp add: onEvent_ptr_def onEventCallback_def event_message_def view_def view_of_def consume_def set_timestamp_def viewRelay_def
      plainFlv_def NewRelayService_def Let_def)

end
