(* ===== verification/Messaging.thy ===== *)
theory Messaging
  imports Frames
begin

text \<open>
  The messaging client under concurrency: the goroutines that call \<open>Send\<close>, the heartbeat loop and the receiving loop
  share one client, and run in any order between the points at which they wait or take a lock. A schedule is the list
  of their turns.
\<close>

section \<open>The goroutines of a client\<close>

text \<open>
  A goroutine that sends its messages one after the other: those it has left, the one whose number it has taken and that
  it has not written, those that were written with their numbers, and what \<open>Send\<close> returned.
\<close>

record sender =
  todo :: "MessageEnvelope list"
  pending :: "(MessageEnvelope \<times> u64) option"
  written :: "(MessageEnvelope \<times> u64) list"
  returned :: "unit outcome list"

record msg_proc =
  mp_client :: MsgClient
  mp_senders :: "sender list"
  mp_beat :: "u64 option"

datatype turn = Sender nat | Ticker | Incoming ProtocolFrame | Disconnecting "go_err option"

definition start_send :: "MsgClient \<Rightarrow> sender \<Rightarrow> sender \<times> MsgClient" where
  "start_send c s =
     (case todo s of
        [] \<Rightarrow> (s, c)
      | e # es \<Rightarrow>
          (case Send_number c of
             (Ok seq, c) \<Rightarrow> (s\<lparr>todo := es, pending := Some (e, seq)\<rparr>, c)
           | (Err x, c) \<Rightarrow> (s\<lparr>todo := es, returned := returned s @ [Err x]\<rparr>, c)
           | (Panic m, c) \<Rightarrow> (s\<lparr>todo := es, returned := returned s @ [Panic m]\<rparr>, c)))"

definition finish_send :: "msg_env \<Rightarrow> MessageEnvelope \<Rightarrow> u64 \<Rightarrow> MsgClient \<Rightarrow> sender \<Rightarrow> sender \<times> MsgClient" where
  "finish_send E e seq c s =
     (case Send_write E e seq c of (res, c) \<Rightarrow>
        (s\<lparr>pending := None, written := (if res = Ok () then written s @ [(e, seq)] else written s),
           returned := returned s @ [res]\<rparr>, c))"

definition sender_turn :: "msg_env \<Rightarrow> MsgClient \<Rightarrow> sender \<Rightarrow> sender \<times> MsgClient" where
  "sender_turn E c s = (case pending s of Some (e, seq) \<Rightarrow> finish_send E e seq c s | None \<Rightarrow> start_send c s)"

text \<open>The heartbeat loop takes its number and writes in two turns as well, and ends without a connection.\<close>

definition ticker_turn :: "msg_env \<Rightarrow> msg_proc \<Rightarrow> msg_proc" where
  "ticker_turn E P =
     (case mp_beat P of
        Some seq \<Rightarrow> P\<lparr>mp_beat := None, mp_client := heartbeat E seq (mp_client P)\<rparr>
      | None \<Rightarrow>
          if \<not> mc_connected (mp_client P) then P
          else (case next_number (mp_client P) of (seq, c) \<Rightarrow> P\<lparr>mp_beat := Some seq, mp_client := c\<rparr>))"

fun turn_step :: "msg_env \<Rightarrow> turn \<Rightarrow> msg_proc \<Rightarrow> msg_proc" where
  "turn_step E (Sender g) P =
     (if g < length (mp_senders P) then
        (case sender_turn E (mp_client P) (mp_senders P ! g) of (s, c) \<Rightarrow>
           P\<lparr>mp_senders := (mp_senders P)[g := s], mp_client := c\<rparr>)
      else P)"
| "turn_step E Ticker P = ticker_turn E P"
| "turn_step E (Incoming f) P = P\<lparr>mp_client := handleFrame E f (mp_client P)\<rparr>"
| "turn_step E (Disconnecting closed) P = P\<lparr>mp_client := snd (MsgClient_Disconnect closed (mp_client P))\<rparr>"

definition run_turns :: "msg_env \<Rightarrow> turn list \<Rightarrow> msg_proc \<Rightarrow> msg_proc" where
  "run_turns E ts P = fold (turn_step E) ts P"

definition new_proc :: "MsgClient \<Rightarrow> MessageEnvelope list list \<Rightarrow> msg_proc" where
  "new_proc c programs = \<lparr>mp_client = c,
     mp_senders = map (\<lambda>es. \<lparr>todo = es, pending = None, written = [], returned = []\<rparr>) programs, mp_beat = None\<rparr>"

text \<open>Two turns of one sender in a row are \<open>Send\<close> itself.\<close>

lemma two_turns_Send:
  assumes "pending s = None" "todo s = e # es"
  shows "(case sender_turn E c s of (s', c') \<Rightarrow> if pending s' = None then c' else snd (sender_turn E c' s')) = snd (Send E e c)"
    "(case sender_turn E c s of (s', c') \<Rightarrow> if pending s' = None then returned s' else returned (fst (sender_turn E c' s'))) =
       returned s @ [fst (Send E e c)]"
  using assms
  by (cases "mc_connected c \<and> mc_conn c";
      auto simp: sender_turn_def start_send_def finish_send_def Send_def Send_number_def next_number_def split: prod.splits)+

section \<open>What is on the wire\<close>

text \<open>
  Every frame on the wire, with the goroutine, the envelope and the number behind it when it carries a message.
\<close>

type_synonym origin = "nat \<times> MessageEnvelope \<times> u64"

fun frame_for :: "msg_env \<Rightarrow> origin option \<times> ProtocolFrame \<Rightarrow> bool" where
  "frame_for E (None, f) \<longleftrightarrow> frType f = FrameTypeHeartbeat \<and> frPayload f = []"
| "frame_for E (Some (g, e, seq), f) \<longleftrightarrow>
     frType f = FrameTypeMessage \<and> frSequenceNumber f = seq \<and> json_marshal E e = Ok (frPayload f)"

definition origins :: "(origin option \<times> ProtocolFrame) list \<Rightarrow> origin list" where
  "origins ws = concat (map (\<lambda>w. case fst w of None \<Rightarrow> [] | Some x \<Rightarrow> [x]) ws)"

definition sent_by :: "nat \<Rightarrow> origin list \<Rightarrow> (MessageEnvelope \<times> u64) list" where
  "sent_by g os = map snd (filter (\<lambda>x. fst x = g) os)"

definition numbers :: "origin list \<Rightarrow> u64 list" where
  "numbers os = map (\<lambda>x. snd (snd x)) os"

lemma origins_simps [simp]:
  "origins [] = []" "origins (ws @ [(None, f)]) = origins ws" "origins (ws @ [(Some x, f)]) = origins ws @ [x]"
  "origins ((None, f) # ws) = origins ws" "origins ((Some x, f) # ws) = x # origins ws"
  by (simp_all add: origins_def)

lemma sent_by_simps [simp]:
  "sent_by g [] = []" "sent_by g (os @ [(h, x)]) = sent_by g os @ (if h = g then [x] else [])"
  by (simp_all add: sent_by_def)

lemma numbers_simps [simp]: "numbers [] = []" "numbers (os @ [(g, e, q)]) = numbers os @ [q]"
  by (simp_all add: numbers_def)

definition taken :: "sender list \<Rightarrow> nat \<Rightarrow> u64 \<Rightarrow> bool" where
  "taken ss g q \<longleftrightarrow> g < length ss \<and> (\<exists>e. pending (ss ! g) = Some (e, q))"

text \<open>
  The invariant of the wire: it holds the frames of \<open>ws\<close>, those of a goroutine are what it has written, and the numbers that
  are on the wire or taken are different and below the counter, which is at most the number of turns.
\<close>

definition wire_inv :: "msg_env \<Rightarrow> nat \<Rightarrow> (origin option \<times> ProtocolFrame) list \<Rightarrow> msg_proc \<Rightarrow> bool" where
  "wire_inv E k ws P \<longleftrightarrow>
     mc_wire (mp_client P) = map (EncodeFrame \<circ> snd) ws \<and> list_all (frame_for E) ws \<and>
     (\<forall>x \<in> set (origins ws). fst x < length (mp_senders P)) \<and>
     (\<forall>g < length (mp_senders P). sent_by g (origins ws) = written (mp_senders P ! g)) \<and>
     unat (sequenceNum (mp_client P)) \<le> k \<and>
     distinct (numbers (origins ws)) \<and> (\<forall>q \<in> set (numbers (origins ws)). q < sequenceNum (mp_client P)) \<and>
     (\<forall>g q. taken (mp_senders P) g q \<longrightarrow> q < sequenceNum (mp_client P) \<and> q \<notin> set (numbers (origins ws))) \<and>
     (\<forall>g h q. taken (mp_senders P) g q \<longrightarrow> taken (mp_senders P) h q \<longrightarrow> g = h)"

lemma taken_update: "g < length ss \<Longrightarrow> taken (ss[g := s]) h q \<longleftrightarrow> (if h = g then \<exists>e. pending s = Some (e, q) else taken ss h q)"
  by (auto simp: taken_def)

lemma number_grows:
  fixes x :: u64
  assumes "unat x \<le> k" "Suc k < 2 ^ 64"
  shows "unat (x + 1) = Suc (unat x)" "q < x \<Longrightarrow> q < x + 1" "x < x + 1"
proof -
  show u: "unat (x + 1) = Suc (unat x)" using assms unat_add_lem [of x 1] by simp
  show "q < x \<Longrightarrow> q < x + 1" "x < x + 1" by (simp_all add: word_less_nat_alt u)
qed

text \<open>The receiving and the heartbeat loop write heartbeats, or nothing.\<close>

definition beats :: "MsgClient \<Rightarrow> MsgClient \<Rightarrow> bool" where
  "beats c c' \<longleftrightarrow> sequenceNum c' = sequenceNum c \<and>
     (mc_wire c' = mc_wire c \<or>
      (\<exists>f. frType f = FrameTypeHeartbeat \<and> frPayload f = [] \<and> mc_wire c' = mc_wire c @ [EncodeFrame f]))"

lemma beats_heartbeat: "beats c (heartbeat E seq c)"
proof -
  let ?f = "\<lparr>frType = FrameTypeHeartbeat, frPayload = [], frSequenceNumber = seq, frTimestamp = now_ms E (mc_wire c)\<rparr>"
  have "heartbeat E seq c = c \<or> heartbeat E seq c = c\<lparr>mc_wire := mc_wire c @ [EncodeFrame ?f]\<rparr>"
    by (simp add: heartbeat_def write_dropped_def net_Write_def split: option.split)
  then show ?thesis by (auto simp: beats_def intro!: exI [of _ ?f])
qed

lemma beats_handleFrame: "beats c (handleFrame E f c)"
  using beats_heartbeat [of c E] by (auto simp: handleFrame_def show_it_def beats_def split: option.split)

lemma beats_Disconnect: "beats c (snd (MsgClient_Disconnect closed c))"
  by (simp add: beats_def MsgClient_Disconnect_def)

lemma wire_inv_mono: "wire_inv E k ws P \<Longrightarrow> k \<le> k' \<Longrightarrow> wire_inv E k' ws P"
  by (auto simp: wire_inv_def)

lemma wire_inv_beats:
  assumes "wire_inv E k ws P" "beats (mp_client P) c'"
  obtains ws' where "wire_inv E k ws' (P\<lparr>mp_client := c'\<rparr>)" "origins ws' = origins ws"
proof (cases "mc_wire c' = mc_wire (mp_client P)")
  case True
  with assms have "wire_inv E k ws (P\<lparr>mp_client := c'\<rparr>)" by (simp add: wire_inv_def beats_def)
  with that show thesis by simp
next
  case False
  with assms(2) obtain f where "frType f = FrameTypeHeartbeat" "frPayload f = []" "mc_wire c' = mc_wire (mp_client P) @ [EncodeFrame f]"
    by (auto simp: beats_def)
  with assms have "wire_inv E k (ws @ [(None, f)]) (P\<lparr>mp_client := c'\<rparr>)" by (simp add: wire_inv_def beats_def)
  with that show thesis by simp
qed

lemma wire_inv_number:
  assumes "wire_inv E k ws P" "Suc k < 2 ^ 64" "next_number (mp_client P) = (q, c')"
  shows "wire_inv E (Suc k) ws (P\<lparr>mp_client := c'\<rparr>)"
    "g < length (mp_senders P) \<Longrightarrow> pending s = Some (e, q) \<Longrightarrow> written s = written (mp_senders P ! g) \<Longrightarrow>
     wire_inv E (Suc k) ws (P\<lparr>mp_senders := (mp_senders P)[g := s], mp_client := c'\<rparr>)"
proof -
  let ?n = "sequenceNum (mp_client P)"
  have c': "q = ?n" "c' = (mp_client P)\<lparr>sequenceNum := ?n + 1\<rparr>" using assms(3) by (auto simp: next_number_def)
  have u: "unat ?n \<le> k" using assms(1) by (simp add: wire_inv_def)
  note grow = number_grows [OF u assms(2)]
  show "wire_inv E (Suc k) ws (P\<lparr>mp_client := c'\<rparr>)"
    using assms(1) grow u by (auto simp: wire_inv_def c')
  assume g: "g < length (mp_senders P)" "pending s = Some (e, q)" "written s = written (mp_senders P ! g)"
  have tk: "taken ((mp_senders P)[g := s]) h r \<longleftrightarrow> (if h = g then r = q else taken (mp_senders P) h r)" for h r
    using g by (auto simp: taken_update)
  have old: "r \<noteq> q" if "taken (mp_senders P) h r" for h r
    using assms(1) that unfolding wire_inv_def c' by blast
  have new: "q \<notin> set (numbers (origins ws))" using assms(1) unfolding wire_inv_def c' by blast
  show "wire_inv E (Suc k) ws (P\<lparr>mp_senders := (mp_senders P)[g := s], mp_client := c'\<rparr>)"
    unfolding wire_inv_def
  proof (intro conjI)
    show "\<forall>h r. taken (mp_senders (P\<lparr>mp_senders := (mp_senders P)[g := s], mp_client := c'\<rparr>)) h r \<longrightarrow>
        r < sequenceNum (mp_client (P\<lparr>mp_senders := (mp_senders P)[g := s], mp_client := c'\<rparr>)) \<and> r \<notin> set (numbers (origins ws))"
      using assms(1) new grow by (auto simp: tk c' wire_inv_def)
    show "\<forall>h i r. taken (mp_senders (P\<lparr>mp_senders := (mp_senders P)[g := s], mp_client := c'\<rparr>)) h r \<longrightarrow>
        taken (mp_senders (P\<lparr>mp_senders := (mp_senders P)[g := s], mp_client := c'\<rparr>)) i r \<longrightarrow> h = i"
      using assms(1) old by (auto simp: tk wire_inv_def)
  qed (use assms(1) grow g u in \<open>auto simp: wire_inv_def c' nth_list_update\<close>)
qed

lemma wire_inv_written:
  assumes "wire_inv E k ws P" "g < length (mp_senders P)" "pending (mp_senders P ! g) = Some (e, q)"
    and "json_marshal E e = Ok p" "mc_wire c' = mc_wire (mp_client P) @ [EncodeFrame f]" "sequenceNum c' = sequenceNum (mp_client P)"
    and "f = \<lparr>frType = FrameTypeMessage, frPayload = p, frSequenceNumber = q, frTimestamp = t\<rparr>"
    and "pending s = None" "written s = written (mp_senders P ! g) @ [(e, q)]"
  shows "wire_inv E k (ws @ [(Some (g, e, q), f)]) (P\<lparr>mp_senders := (mp_senders P)[g := s], mp_client := c'\<rparr>)"
proof -
  have q: "taken (mp_senders P) g q" using assms(2,3) by (simp add: taken_def)
  have tk: "taken ((mp_senders P)[g := s]) h r \<longleftrightarrow> h \<noteq> g \<and> taken (mp_senders P) h r" for h r
    using assms(2,8) by (simp add: taken_update)
  have one: "r \<noteq> q" if "h \<noteq> g" "taken (mp_senders P) h r" for h r
    using assms(1) that q unfolding wire_inv_def by blast
  show ?thesis
    unfolding wire_inv_def
  proof (intro conjI)
    show "\<forall>h r. taken (mp_senders (P\<lparr>mp_senders := (mp_senders P)[g := s], mp_client := c'\<rparr>)) h r \<longrightarrow>
        r < sequenceNum (mp_client (P\<lparr>mp_senders := (mp_senders P)[g := s], mp_client := c'\<rparr>)) \<and>
        r \<notin> set (numbers (origins (ws @ [(Some (g, e, q), f)])))"
      using assms(1) one by (auto simp: tk assms(6) wire_inv_def)
    show "\<forall>h i r. taken (mp_senders (P\<lparr>mp_senders := (mp_senders P)[g := s], mp_client := c'\<rparr>)) h r \<longrightarrow>
        taken (mp_senders (P\<lparr>mp_senders := (mp_senders P)[g := s], mp_client := c'\<rparr>)) i r \<longrightarrow> h = i"
      using assms(1) by (auto simp: tk wire_inv_def)
  qed (use assms q in \<open>auto simp: wire_inv_def nth_list_update\<close>)
qed

lemma wire_inv_dropped:
  assumes "wire_inv E k ws P" "g < length (mp_senders P)" "pending s = None" "written s = written (mp_senders P ! g)"
  shows "wire_inv E k ws (P\<lparr>mp_senders := (mp_senders P)[g := s]\<rparr>)"
proof -
  have "taken ((mp_senders P)[g := s]) h r \<longleftrightarrow> h \<noteq> g \<and> taken (mp_senders P) h r" for h r
    using assms(2,3) by (simp add: taken_update)
  then show ?thesis
    using assms(1,2,4) by (simp add: wire_inv_def nth_list_update) blast
qed

text \<open>A turn keeps the invariant, and the wire only grows.\<close>

lemma finish_cases:
  assumes "finish_send E e q c s = (s', c')"
  obtains (wrote) p t where "json_marshal E e = Ok p" "returned s' = returned s @ [Ok ()]" "written s' = written s @ [(e, q)]"
      "mc_wire c' = mc_wire c @ [EncodeFrame \<lparr>frType = FrameTypeMessage, frPayload = p, frSequenceNumber = q, frTimestamp = t\<rparr>]"
      "sequenceNum c' = sequenceNum c"
  | (failed) res where "res \<noteq> Ok ()" "returned s' = returned s @ [res]" "written s' = written s" "c' = c"
proof (cases "fst (Send_write E e q c) = Ok ()")
  case True
  with assms wrote [of _ "now_ms E (mc_wire c)"] show thesis
    by (auto simp: finish_send_def Send_write_def ToFrame_def net_Write_def apfst_def map_prod_def bindr_Ok_iff
        split: outcome.splits if_splits option.splits prod.splits)
next
  case False
  have "snd (Send_write E e q c) = c"
    using False by (auto simp: Send_write_def net_Write_def split: outcome.splits option.splits)
  with assms False failed [of "fst (Send_write E e q c)"] show thesis
    by (auto simp: finish_send_def split: prod.splits)
qed

lemma finish_fields: "finish_send E e q c s = (s', c') \<Longrightarrow> pending s' = None \<and> todo s' = todo s"
  by (auto simp: finish_send_def split: prod.splits)

lemma turn_keeps:
  assumes "wire_inv E k ws P" "Suc k < 2 ^ 64"
  shows "\<exists>ws'. wire_inv E (Suc k) ws' (turn_step E t P)"
proof (cases t)
  case (Sender g)
  show ?thesis
  proof (cases "g < length (mp_senders P)")
    case g: True
    let ?s = "mp_senders P ! g"
    obtain s' c' where st: "sender_turn E (mp_client P) ?s = (s', c')" by (cases "sender_turn E (mp_client P) ?s")
    then have P': "turn_step E t P = P\<lparr>mp_senders := (mp_senders P)[g := s'], mp_client := c'\<rparr>" by (simp add: Sender g)
    note inv = wire_inv_mono [OF assms(1), of "Suc k", simplified]
    show ?thesis
    proof (cases "pending ?s")
      case (Some x)
      obtain e q where x: "x = (e, q)" by (cases x)
      with Some st have f: "finish_send E e q (mp_client P) ?s = (s', c')" by (simp add: sender_turn_def)
      from f show ?thesis
      proof (cases rule: finish_cases)
        case (wrote p t)
        with wire_inv_written [OF inv g Some [unfolded x] wrote(1) wrote(4,5) refl] finish_fields [OF f] show ?thesis unfolding P' by blast
      next
        case (failed res)
        with wire_inv_dropped [OF inv g] finish_fields [OF f] show ?thesis unfolding P' by force
      qed
    next
      case None
      show ?thesis
      proof (cases "todo ?s")
        case Nil
        with None st have "s' = ?s" "c' = mp_client P" by (auto simp: sender_turn_def start_send_def)
        with inv show ?thesis unfolding P' by auto
      next
        case (Cons e es)
        show ?thesis
        proof (cases "mc_connected (mp_client P) \<and> mc_conn (mp_client P)")
          case True
          obtain q c2 where n: "next_number (mp_client P) = (q, c2)" by (cases "next_number (mp_client P)")
          with True Cons None st have "c' = c2" "pending s' = Some (e, q)" "written s' = written ?s"
            by (auto simp: sender_turn_def start_send_def Send_number_def)
          with wire_inv_number(2) [OF assms n g] show ?thesis unfolding P' by blast
        next
          case False
          with Cons None st have "c' = mp_client P" "pending s' = None" "written s' = written ?s"
            by (auto simp: sender_turn_def start_send_def Send_number_def)
          with wire_inv_dropped [OF inv g] show ?thesis unfolding P' by force
        qed
      qed
    qed
  qed (use wire_inv_mono [OF assms(1), of "Suc k"] in \<open>auto simp: Sender\<close>)
next
  case Ticker
  show ?thesis
  proof (cases "mp_beat P")
    case (Some q)
    from wire_inv_beats [OF assms(1) beats_heartbeat] obtain ws' where "wire_inv E k ws' (P\<lparr>mp_client := heartbeat E q (mp_client P)\<rparr>)" by blast
    then have "wire_inv E (Suc k) ws' (turn_step E t P)" by (simp add: Ticker ticker_turn_def Some wire_inv_def)
    then show ?thesis by blast
  next
    case None
    obtain q c2 where n: "next_number (mp_client P) = (q, c2)" by (cases "next_number (mp_client P)")
    from wire_inv_number(1) [OF assms n] wire_inv_mono [OF assms(1), of "Suc k"] show ?thesis
      by (auto simp: Ticker ticker_turn_def None n wire_inv_def)
  qed
next
  case (Incoming f)
  from wire_inv_beats [OF wire_inv_mono [OF assms(1), of "Suc k"] beats_handleFrame] show ?thesis by (simp add: Incoming) blast
next
  case (Disconnecting closed)
  from wire_inv_beats [OF wire_inv_mono [OF assms(1), of "Suc k"] beats_Disconnect] show ?thesis by (simp add: Disconnecting) blast
qed

lemma turns_keep:
  "wire_inv E k ws P \<Longrightarrow> k + length ts < 2 ^ 64 \<Longrightarrow> \<exists>ws'. wire_inv E (k + length ts) ws' (run_turns E ts P)"
proof (induction ts arbitrary: k ws P)
  case (Cons t ts)
  from turn_keeps [OF Cons.prems(1), of t] Cons.prems(2) obtain ws' where "wire_inv E (Suc k) ws' (turn_step E t P)" by auto
  from Cons.IH [OF this] Cons.prems(2) show ?case by (simp add: run_turns_def)
qed (auto simp: run_turns_def)

section \<open>What the goroutines were told\<close>

text \<open>The messages of a program whose \<open>Send\<close> returned nil, in the order of the program.\<close>

definition accepted :: "MessageEnvelope list \<Rightarrow> unit outcome list \<Rightarrow> MessageEnvelope list" where
  "accepted es rs = map fst (filter (\<lambda>x. snd x = Ok ()) (zip es rs))"

definition sender_inv :: "MessageEnvelope list \<Rightarrow> sender \<Rightarrow> bool" where
  "sender_inv es s \<longleftrightarrow> (\<exists>ds. es = ds @ (case pending s of None \<Rightarrow> [] | Some (e, q) \<Rightarrow> [e]) @ todo s \<and>
     length ds = length (returned s) \<and> map fst (written s) = accepted ds (returned s))"

lemma accepted_append: "length es = length rs \<Longrightarrow> accepted (es @ es') (rs @ rs') = accepted es rs @ accepted es' rs'"
  by (simp add: accepted_def)

lemma accepted_prefix: "length es = length rs \<Longrightarrow> accepted (es @ es') rs = accepted es rs"
  using accepted_append [of es rs es' "[]"] by (simp add: accepted_def)

lemma accepted_subset: "set (accepted es rs) \<subseteq> set es"
  by (auto simp: accepted_def dest: set_zip_leftD)

lemma sender_inv_turn:
  assumes "sender_inv es s" "sender_turn E c s = (s', c')"
  shows "sender_inv es s'"
proof -
  obtain ds where ds: "es = ds @ (case pending s of None \<Rightarrow> [] | Some (e, q) \<Rightarrow> [e]) @ todo s" "length ds = length (returned s)"
      "map fst (written s) = accepted ds (returned s)" using assms(1) by (auto simp: sender_inv_def)
  have next_one: "sender_inv es s'" if "es = ds @ [e] @ todo s'" "pending s' = None" "returned s' = returned s @ [res]"
      "written s' = (if res = Ok () then written s @ [(e, q)] else written s)" for e q res
    using that ds by (auto simp: sender_inv_def accepted_append accepted_def intro!: exI [of _ "ds @ [e]"])
  show ?thesis
  proof (cases "pending s")
    case (Some x)
    obtain e q where x: "x = (e, q)" by (cases x)
    with Some assms(2) have f: "finish_send E e q c s = (s', c')" by (simp add: sender_turn_def)
    from f show ?thesis
    proof (cases rule: finish_cases)
      case (wrote p t)
      with finish_fields [OF f] ds(1) next_one [of e "Ok ()" q] show ?thesis by (simp add: Some x)
    next
      case (failed res)
      with finish_fields [OF f] ds(1) next_one [of e res q] show ?thesis by (simp add: Some x)
    qed
  next
    case None
    show ?thesis
    proof (cases "todo s")
      case Nil
      with None assms show ?thesis by (simp add: sender_turn_def start_send_def)
    next
      case (Cons e es')
      with None assms(2) ds next_one [of e "Err (Errorf ''not connected'' [])" 0] show ?thesis
        by (auto simp: sender_turn_def start_send_def Send_number_def next_number_def sender_inv_def split: if_splits)
    qed
  qed
qed

lemma senders_inv_turn:
  assumes "list_all2 sender_inv programs (mp_senders P)"
  shows "list_all2 sender_inv programs (mp_senders (turn_step E t P))"
proof (cases t)
  case (Sender g)
  with assms sender_inv_turn [of "programs ! g" "mp_senders P ! g" E "mp_client P"] show ?thesis
    by (auto simp: list_all2_conv_all_nth nth_list_update split: prod.splits)
qed (use assms in \<open>auto simp: ticker_turn_def split: option.splits prod.splits\<close>)

lemma senders_inv_run:
  "list_all2 sender_inv programs (mp_senders P) \<Longrightarrow> list_all2 sender_inv programs (mp_senders (run_turns E ts P))"
  by (induction ts arbitrary: P) (simp_all add: run_turns_def senders_inv_turn)

lemma new_proc_inv:
  assumes "mc_wire c = []"
  shows "list_all2 sender_inv programs (mp_senders (new_proc c programs))"
    "sequenceNum c = 0 \<Longrightarrow> wire_inv E 0 [] (new_proc c programs)"
  using assms by (auto simp: new_proc_def list_all2_conv_all_nth sender_inv_def accepted_def wire_inv_def taken_def)

section \<open>From one client to the next\<close>

text \<open>What the peers need of JSON: an envelope that could be serialised is read back, and fits into a frame.\<close>

definition json_ok :: "msg_env \<Rightarrow> msg_env \<Rightarrow> MessageEnvelope \<Rightarrow> bool" where
  "json_ok E E' e = (case json_marshal E e of Ok p \<Rightarrow> length p \<le> maxAlloc \<and> json_envelope E' p = Some e | _ \<Rightarrow> True)"

definition shown_for :: "origin \<Rightarrow> shown" where
  "shown_for x = ShownMessage (msgPayload (envMessage (fst (snd x))))"

lemma handled_shown:
  assumes "list_all (frame_for E) ws" "list_all (\<lambda>x. json_ok E E' (fst (snd x))) (origins ws)"
  shows "mc_shown (fold (handleFrame E') (map snd ws) r) = mc_shown r @ map shown_for (origins ws)"
  using assms
proof (induction ws arbitrary: r)
  case (Cons w ws)
  have beat: "mc_shown (heartbeat E' q r) = mc_shown r" for q
    by (simp add: heartbeat_def write_dropped_def net_Write_def split: option.split)
  have "mc_shown (handleFrame E' (snd w) r) = mc_shown r @ map shown_for (origins [w])"
    using Cons.prems by (cases w; cases "fst w")
      (auto simp: handleFrame_def frame_types show_it_def json_ok_def shown_for_def beat)
  with Cons show ?case by (cases w; cases "fst w") auto
qed simp

lemma frames_fit:
  assumes "list_all (frame_for E) ws" "list_all (\<lambda>x. json_ok E E' (fst (snd x))) (origins ws)"
  shows "list_all frame_ok (map snd ws)"
  using assms
proof (induction ws)
  case (Cons w ws)
  then show ?case by (cases w; cases "fst w") (auto simp: frame_ok_def json_ok_def)
qed simp

lemma wire_origins:
  assumes "sequenceNum c = 0" "mc_wire c = []" "length ts < 2 ^ 64"
  obtains ws where "mc_wire (mp_client (run_turns E ts (new_proc c programs))) = map (EncodeFrame \<circ> snd) ws"
    "list_all (frame_for E) ws" "distinct (numbers (origins ws))"
    "\<forall>x \<in> set (origins ws). fst x < length programs"
    "\<And>g. g < length programs \<Longrightarrow> sent_by g (origins ws) = written (mp_senders (run_turns E ts (new_proc c programs)) ! g)"
proof -
  let ?P = "run_turns E ts (new_proc c programs)"
  from turns_keep [OF new_proc_inv(2) [OF assms(2,1)], of ts E programs] assms(3) obtain ws where ws: "wire_inv E (length ts) ws ?P" by auto
  have len: "length (mp_senders ?P) = length programs"
    using list_all2_lengthD [OF senders_inv_run [OF new_proc_inv(1) [OF assms(2)]]] by metis
  show thesis by (rule that [of ws]) (use ws len in \<open>auto simp: wire_inv_def\<close>)
qed

section \<open>Properties\<close>

lemma programs_sent:
  assumes "mc_wire c = []" "g < length programs"
    "sent_by g os = written (mp_senders (run_turns E ts (new_proc c programs)) ! g)"
  shows "map fst (sent_by g os) = accepted (programs ! g) (returned (mp_senders (run_turns E ts (new_proc c programs)) ! g))"
proof -
  let ?s = "mp_senders (run_turns E ts (new_proc c programs)) ! g"
  have "sender_inv (programs ! g) ?s"
    using senders_inv_run [OF new_proc_inv(1) [OF assms(1)]] assms(2) by (simp add: list_all2_conv_all_nth)
  then show ?thesis using assms(3) by (auto simp: sender_inv_def accepted_prefix)
qed

text \<open>
  C15. Any number of goroutines send through one client, in any interleaving with each other, with the heartbeats, with
  what arrives and with a disconnect. A second client that reads the bytes, however they are cut, shows exactly the messages
  whose \<open>Send\<close> returned nil, those of each goroutine in the order it sent them, and no two of them bear the same number.
\<close>

theorem messages_exchanged:
  assumes "sequenceNum c = 0" "mc_wire c = []" "length ts < 2 ^ 64"
    and "list_all (list_all (json_ok E E')) programs"
    and "mc_connected r" "receiveBuffer r = []"
    and "concat segs = concat (mc_wire (mp_client (run_turns E ts (new_proc c programs))))"
  shows "\<exists>os r'. receiveLoop E' (map Inl segs) r = Some (Ok (), r') \<and> mc_shown r' = mc_shown r @ map shown_for os \<and>
    distinct (numbers os) \<and> (\<forall>x \<in> set os. fst x < length programs) \<and>
    (\<forall>g < length programs. map fst (sent_by g os) =
      accepted (programs ! g) (returned (mp_senders (run_turns E ts (new_proc c programs)) ! g)))"
proof -
  let ?P = "run_turns E ts (new_proc c programs)"
  from wire_origins [OF assms(1-3), of E programs] obtain ws where ws: "mc_wire (mp_client ?P) = map (EncodeFrame \<circ> snd) ws"
      "list_all (frame_for E) ws" "distinct (numbers (origins ws))" "\<forall>x \<in> set (origins ws). fst x < length programs"
      "\<And>g. g < length programs \<Longrightarrow> sent_by g (origins ws) = written (mp_senders ?P ! g)" by blast
  note order = programs_sent [OF assms(2) _ ws(5)]
  have json: "list_all (\<lambda>x. json_ok E E' (fst (snd x))) (origins ws)"
    unfolding list_all_iff
  proof
    fix x assume x: "x \<in> set (origins ws)"
    with ws(4) have g: "fst x < length programs" by blast
    from x have "fst (snd x) \<in> set (map fst (sent_by (fst x) (origins ws)))" by (force simp: sent_by_def)
    with order [OF g g] accepted_subset have "fst (snd x) \<in> set (programs ! fst x)" by fastforce
    with g assms(4) show "json_ok E E' (fst (snd x))" by (auto simp: list_all_iff)
  qed
  let ?f = "\<lparr>frType = 0, frPayload = [], frSequenceNumber = 0, frTimestamp = 0\<rparr>"
  have "receiveLoop E' (map Inl segs) r = Some (Ok (), (fold (handleFrame E') (map snd ws) r)\<lparr>receiveBuffer := []\<rparr>)"
    using assms(5-7) ws(1) frames_fit [OF ws(2) json]
    by (intro receive_frames [where missing = "EncodeFrame ?f" and next_one = ?f]) (simp_all add: frame_ok_def EncodeFrame_def)
  with handled_shown [OF ws(2) json, of r] order ws(3,4) show ?thesis by auto
qed

text \<open>The numbers are taken in one order and written in another: a receiver cannot rely on them to see a gap.\<close>

lemma numbers_reordered:
  assumes "mc_connected c" "mc_conn c" "conn_err E = (\<lambda>_. None)" "json_marshal E e1 = Ok p1" "json_marshal E e2 = Ok p2"
  shows "\<exists>t t'. mc_wire (mp_client (run_turns E [Sender 0, Sender 1, Sender 1, Sender 0] (new_proc c [[e1], [e2]]))) = mc_wire c @
    [EncodeFrame \<lparr>frType = FrameTypeMessage, frPayload = p2, frSequenceNumber = sequenceNum c + 1, frTimestamp = t\<rparr>,
     EncodeFrame \<lparr>frType = FrameTypeMessage, frPayload = p1, frSequenceNumber = sequenceNum c, frTimestamp = t'\<rparr>]"
  using assms by (auto simp: run_turns_def new_proc_def sender_turn_def start_send_def finish_send_def Send_number_def next_number_def
    Send_write_def ToFrame_def net_Write_def)

definition sampleEnvelope :: "byte list \<Rightarrow> MessageEnvelope" where
  "sampleEnvelope p = \<lparr>envMessage = \<lparr>msgID = ''id'', msgTimestamp = 7, msgPayload = p, msgTopic = Some ''t'', msgPriority = 1\<rparr>,
     envSource = ''a'', envDestination = None, envMetadata = []\<rparr>"

definition sampleReader :: msg_env where
  "sampleReader = sampleMsgEnv\<lparr>json_envelope := (\<lambda>p. Some (sampleEnvelope p))\<rparr>"

theorem messages_exchanged_witness:
  "\<exists>os r'. receiveLoop sampleReader
      (map Inl [concat (mc_wire (mp_client (run_turns sampleMsgEnv [Sender 0, Sender 1, Sender 1, Sender 0, Ticker]
         (new_proc sampleClient [[sampleEnvelope [1]], [sampleEnvelope [2]]]))))]) sampleClient = Some (Ok (), r') \<and>
    mc_shown r' = map shown_for os \<and> distinct (numbers os)"
proof -
  let ?ts = "[Sender 0, Sender 1, Sender 1, Sender 0, Ticker]" and ?ps = "[[sampleEnvelope [1]], [sampleEnvelope [2]]]"
  have c: "sequenceNum sampleClient = 0" "mc_wire sampleClient = []" "mc_connected sampleClient" "receiveBuffer sampleClient = []"
      "mc_shown sampleClient = []"
    by (simp_all add: sampleClient_def MsgClient_Connect_def NewClient_def)
  have j: "list_all (list_all (json_ok sampleMsgEnv sampleReader)) ?ps"
    by (simp add: json_ok_def sampleMsgEnv_def sampleReader_def sampleEnvelope_def maxAlloc_def)
  have seg: "concat [x] = x" for x :: "byte list" by simp
  have n: "length ?ts < 2 ^ 64" by simp
  from messages_exchanged [OF c(1,2) n j c(3,4) seg] show ?thesis unfolding c(5) append_Nil by blast
qed

end
