(* ===== verification/TestClients.thy ===== *)
theory TestClients
  imports Hls Messaging
begin

text \<open>
  The programs that try the messaging out: integration/test-integration (twice in the repository) and integration/demo-client.
  Each is its \<open>main\<close>, with what it prints as a list of reports; what its receiving and heartbeat loops do
  while it sleeps or waits is an argument. The functions of log that end the program give \<open>Panic\<close>.
\<close>

section \<open>Sending one event\<close>

datatype report = ReportConnected | ReportSent | ReportFailed go_err | ReportExample string "byte list"
  | ReportComplete | ReportListening | ReportDisconnecting | ReportEvent StreamingEvent

text \<open>What the other goroutines do meanwhile: a frame that arrives, or a tick of the heartbeat.\<close>

definition meanwhile :: "msg_env \<Rightarrow> ProtocolFrame option list \<Rightarrow> MsgClient \<Rightarrow> MsgClient" where
  "meanwhile E xs c = fold (\<lambda>x c. case x of Some f \<Rightarrow> handleFrame E f c | None \<Rightarrow> snd (heartbeat_tick E c)) xs c"

text \<open>The error of \<open>ToJSON\<close> is dropped: the message is empty then.\<close>

definition streaming_message :: "hls_env \<Rightarrow> string \<Rightarrow> int \<Rightarrow> StreamingEvent \<Rightarrow> MsgClient \<Rightarrow> MessageEnvelope" where
  "streaming_message H source priority event c =
     (let eventJSON = (case json_event H event of Ok bs \<Rightarrow> bs | _ \<Rightarrow> []) in
      NewMessageEnvelope (NewMessage (he_msg H) eventJSON ''streaming.events'' priority c) source)"

definition send_event :: "hls_env \<Rightarrow> string \<Rightarrow> int \<Rightarrow> StreamingEvent \<Rightarrow> MsgClient \<Rightarrow> report outcome \<times> MsgClient" where
  "send_event H source priority event c =
     (case Send (he_msg H) (streaming_message H source priority event c) c of
        (Ok _, c) \<Rightarrow> (Ok ReportSent, c)
      | (Err e, c) \<Rightarrow> (Ok (ReportFailed e), c)
      | (Panic m, c) \<Rightarrow> (Panic m, c))"

section \<open>test-integration\<close>

definition test_clock :: "hls_env \<Rightarrow> MsgClient \<Rightarrow> i64" where
  "test_clock H c = now_ms (he_msg H) (mc_wire c)"

text \<open>\<open>slept\<close> gives what happens in each of the three pauses; \<open>json_indent\<close> is \<open>json.MarshalIndent\<close>.\<close>

definition test_integration_main ::
    "hls_env \<Rightarrow> (StreamingEvent \<Rightarrow> byte list) \<Rightarrow> go_err option \<Rightarrow> (nat \<Rightarrow> ProtocolFrame option list) \<Rightarrow> go_err option \<Rightarrow>
     report list outcome \<times> MsgClient" where
  "test_integration_main H json_indent dialed slept closed =
     (case MsgClient_Connect dialed NewClient of
        (Err e, c) \<Rightarrow> (Panic ''exit status 1'', c)
      | (Panic m, c) \<Rightarrow> (Panic m, c)
      | (Ok _, c) \<Rightarrow>
          apsnd (\<lambda>c. snd (MsgClient_Disconnect closed c))
            (let event1 = NewStreamStartedEvent (test_clock H c) ''test-channel'' ''test-publisher'' in
             andthen (send_event H ''test-client'' PriorityNormal event1 c) (\<lambda>r1 c.
             let c = meanwhile (he_msg H) (slept 0) c;
                 event2 = NewViewerJoinedEvent (test_clock H c) ''test-channel'' ''viewer-1'' in
             andthen (send_event H ''test-client'' PriorityNormal event2 c) (\<lambda>r2 c.
             let c = meanwhile (he_msg H) (slept 1) c;
                 event3 = NewHLSReadyEvent (test_clock H c) ''test-channel'' ''http://localhost:9002/test-channel/index.m3u8'' in
             andthen (send_event H ''test-client'' PriorityHigh event3 c) (\<lambda>r3 c.
             let c = meanwhile (he_msg H) (slept 2) c;
                 examples = map2 (\<lambda>name event. ReportExample name (json_indent event))
                   [''stream.started'', ''viewer.joined'', ''hls.ready''] [event1, event2, event3] in
             (Ok ([ReportConnected, r1, r2, r3] @ examples @ [ReportComplete]), c))))))"

section \<open>demo-client\<close>

text \<open>\<open>waited\<close> is what happens until the signal comes.\<close>

definition demo_client_main ::
    "hls_env \<Rightarrow> go_err option \<Rightarrow> ProtocolFrame option list \<Rightarrow> go_err option \<Rightarrow> report list outcome \<times> MsgClient" where
  "demo_client_main H dialed waited closed =
     (case MsgClient_Connect dialed NewClient of
        (Err e, c) \<Rightarrow> (Panic ''exit status 1'', c)
      | (Panic m, c) \<Rightarrow> (Panic m, c)
      | (Ok _, c) \<Rightarrow>
          apsnd (\<lambda>c. snd (MsgClient_Disconnect closed c))
            (let testEvent = NewStreamStartedEvent (test_clock H c) ''demo-channel'' ''demo-publisher'' in
             andthen (send_event H ''demo-client'' PriorityNormal testEvent c) (\<lambda>r c.
             let c = meanwhile (he_msg H) waited c in
             (Ok [ReportConnected, r, ReportListening, ReportDisconnecting], c))))"

definition displayEvent :: "(byte list \<Rightarrow> StreamingEvent option) \<Rightarrow> byte list \<Rightarrow> report list" where
  "displayEvent json_read data = (case json_read data of None \<Rightarrow> [] | Some event \<Rightarrow> [ReportEvent event])"

section \<open>What the programs send\<close>

text \<open>The other goroutines write nothing that is a message.\<close>

definition messages_on :: "byte list list \<Rightarrow> byte list list" where
  "messages_on wire = filter (\<lambda>data. data ! 0 = FrameTypeMessage) wire"

lemma messages_on_beats: "beats c c' \<Longrightarrow> messages_on (mc_wire c') = messages_on (mc_wire c)"
  by (auto simp: beats_def messages_on_def EncodeFrame_parts frame_types)

lemma tick_beats: "messages_on (mc_wire (snd (heartbeat_tick E c))) = messages_on (mc_wire c)"
  using messages_on_beats [OF beats_heartbeat [of "snd (next_number c)" E "fst (next_number c)"]]
  by (simp add: heartbeat_tick_def next_number_def)

lemma meanwhile_messages: "messages_on (mc_wire (meanwhile E xs c)) = messages_on (mc_wire c)"
  unfolding meanwhile_def
  by (induction xs arbitrary: c) (simp_all add: messages_on_beats [OF beats_handleFrame] tick_beats split: option.split)

lemma meanwhile_connected [simp]:
  "mc_connected (meanwhile E xs c) = mc_connected c" "mc_conn (meanwhile E xs c) = mc_conn c"
  unfolding meanwhile_def
  by (induction xs arbitrary: c)
     (simp_all add: handleFrame_def show_it_def heartbeat_tick_def heartbeat_def write_dropped_def net_Write_def next_number_def
       split: option.split)

text \<open>The frame of an event, with the clock of the moment it is sent at.\<close>

definition event_frame :: "hls_env \<Rightarrow> string \<Rightarrow> int \<Rightarrow> StreamingEvent \<Rightarrow> MsgClient \<Rightarrow> byte list \<Rightarrow> ProtocolFrame" where
  "event_frame H source priority event c p = \<lparr>frType = FrameTypeMessage, frPayload = p, frSequenceNumber = sequenceNum c,
     frTimestamp = test_clock H c\<rparr>"

lemma send_event_sends:
  assumes "mc_connected c" "mc_conn c" "conn_err (he_msg H) (mc_wire c) = None"
    "json_marshal (he_msg H) (streaming_message H source priority event c) = Ok p"
  shows "send_event H source priority event c = (Ok ReportSent, c\<lparr>sequenceNum := sequenceNum c + 1,
    mc_wire := mc_wire c @ [EncodeFrame (event_frame H source priority event c p)]\<rparr>)"
  using assms by (simp add: send_event_def Send_def Send_number_def next_number_def Send_write_def ToFrame_def net_Write_def
    event_frame_def test_clock_def)

definition event_sent :: "hls_env \<Rightarrow> (MessageEnvelope \<Rightarrow> byte list) \<Rightarrow> string \<Rightarrow> int \<Rightarrow> (i64 \<Rightarrow> StreamingEvent) \<Rightarrow> MsgClient \<Rightarrow> byte list" where
  "event_sent H js source priority event c =
     (let e = event (test_clock H c) in EncodeFrame (event_frame H source priority e c (js (streaming_message H source priority e c))))"

text \<open>
  When the engine takes everything, the integration test sends its three events in order, whatever arrives in its pauses
  and between heartbeats, reports each as sent, and is disconnected at the end.
\<close>

lemma test_integration_sends:
  assumes "conn_err (he_msg H) = (\<lambda>_. None)" "json_marshal (he_msg H) = (\<lambda>e. Ok (js e))"
  shows "\<exists>c1 c2 c3 c. test_integration_main H json_indent None slept closed =
      (Ok ([ReportConnected, ReportSent, ReportSent, ReportSent,
            ReportExample ''stream.started'' (json_indent (NewStreamStartedEvent (test_clock H c1) ''test-channel'' ''test-publisher'')),
            ReportExample ''viewer.joined'' (json_indent (NewViewerJoinedEvent (test_clock H c2) ''test-channel'' ''viewer-1'')),
            ReportExample ''hls.ready'' (json_indent (NewHLSReadyEvent (test_clock H c3) ''test-channel''
              ''http://localhost:9002/test-channel/index.m3u8'')), ReportComplete]), c) \<and>
    \<not> mc_connected c \<and>
    messages_on (mc_wire c) =
      [event_sent H js ''test-client'' PriorityNormal (\<lambda>now. NewStreamStartedEvent now ''test-channel'' ''test-publisher'') c1,
       event_sent H js ''test-client'' PriorityNormal (\<lambda>now. NewViewerJoinedEvent now ''test-channel'' ''viewer-1'') c2,
       event_sent H js ''test-client'' PriorityHigh
         (\<lambda>now. NewHLSReadyEvent now ''test-channel'' ''http://localhost:9002/test-channel/index.m3u8'') c3]"
proof -
  let ?ev1 = "\<lambda>now. NewStreamStartedEvent now ''test-channel'' ''test-publisher''"
  let ?ev2 = "\<lambda>now. NewViewerJoinedEvent now ''test-channel'' ''viewer-1''"
  let ?ev3 = "\<lambda>now. NewHLSReadyEvent now ''test-channel'' ''http://localhost:9002/test-channel/index.m3u8''"
  define c1 where "c1 = NewClient\<lparr>mc_conn := True, mc_connected := True\<rparr>"
  have sends: "\<exists>c'. send_event H src prio (ev (test_clock H c)) c = (Ok ReportSent, c') \<and> mc_connected c' \<and> mc_conn c' \<and>
      messages_on (mc_wire c') = messages_on (mc_wire c) @ [event_sent H js src prio ev c]"
    if "mc_connected c" "mc_conn c" for src prio ev c
    using send_event_sends [OF that, of H src prio "ev (test_clock H c)" "js (streaming_message H src prio (ev (test_clock H c)) c)"] assms that
    by (simp add: messages_on_def event_sent_def Let_def EncodeFrame_parts event_frame_def)
  have c1: "mc_connected c1" "mc_conn c1" "messages_on (mc_wire c1) = []" by (simp_all add: c1_def NewClient_def messages_on_def)
  from sends [OF c1(1,2), of "''test-client''" PriorityNormal ?ev1] obtain d1 where
    d1: "send_event H ''test-client'' PriorityNormal (?ev1 (test_clock H c1)) c1 = (Ok ReportSent, d1)" "mc_connected d1" "mc_conn d1"
      "messages_on (mc_wire d1) = [event_sent H js ''test-client'' PriorityNormal ?ev1 c1]" by (auto simp: c1(3))
  define c2 where "c2 = meanwhile (he_msg H) (slept 0) d1"
  from sends [of c2 "''test-client''" PriorityNormal ?ev2] d1 obtain d2 where
    d2: "send_event H ''test-client'' PriorityNormal (?ev2 (test_clock H c2)) c2 = (Ok ReportSent, d2)" "mc_connected d2" "mc_conn d2"
      "messages_on (mc_wire d2) = messages_on (mc_wire d1) @ [event_sent H js ''test-client'' PriorityNormal ?ev2 c2]"
    by (auto simp: c2_def meanwhile_messages)
  define c3 where "c3 = meanwhile (he_msg H) (slept (Suc 0)) d2"
  from sends [of c3 "''test-client''" PriorityHigh ?ev3] d2 obtain d3 where
    d3: "send_event H ''test-client'' PriorityHigh (?ev3 (test_clock H c3)) c3 = (Ok ReportSent, d3)" "mc_connected d3" "mc_conn d3"
      "messages_on (mc_wire d3) = messages_on (mc_wire d2) @ [event_sent H js ''test-client'' PriorityHigh ?ev3 c3]"
    by (auto simp: c3_def meanwhile_messages)
  let ?c = "snd (MsgClient_Disconnect closed (meanwhile (he_msg H) (slept 2) d3))"
  have run: "test_integration_main H json_indent None slept closed =
      (Ok ([ReportConnected, ReportSent, ReportSent, ReportSent, ReportExample ''stream.started'' (json_indent (?ev1 (test_clock H c1))),
            ReportExample ''viewer.joined'' (json_indent (?ev2 (test_clock H c2))),
            ReportExample ''hls.ready'' (json_indent (?ev3 (test_clock H c3))), ReportComplete]), ?c)"
    unfolding test_integration_main_def MsgClient_Connect_def Let_def option.case outcome.case prod.case c1_def [symmetric]
    by (simp add: d1 d2 d3 flip: c2_def c3_def)
  have off: "\<not> mc_connected ?c" using d3(2,3) by (simp add: MsgClient_Disconnect_def)
  have wire: "messages_on (mc_wire ?c) = messages_on (mc_wire d3)"
    using meanwhile_messages [of "he_msg H" "slept 2" d3] by (simp add: MsgClient_Disconnect_def)
  show ?thesis
    by (rule exI [of _ c1], rule exI [of _ c2], rule exI [of _ c3], rule exI [of _ ?c])
       (intro conjI run off, simp only: wire d3(4) d2(4) d1(4) append_Cons append_Nil)
qed

lemma test_integration_sends_witness:
  "\<exists>c1 c2 c3. messages_on (mc_wire (snd (test_integration_main sampleHls (\<lambda>_. []) None (\<lambda>_. [None]) None))) =
    [event_sent sampleHls (\<lambda>e. msgPayload (envMessage e)) ''test-client'' PriorityNormal
       (\<lambda>now. NewStreamStartedEvent now ''test-channel'' ''test-publisher'') c1,
     event_sent sampleHls (\<lambda>e. msgPayload (envMessage e)) ''test-client'' PriorityNormal
       (\<lambda>now. NewViewerJoinedEvent now ''test-channel'' ''viewer-1'') c2,
     event_sent sampleHls (\<lambda>e. msgPayload (envMessage e)) ''test-client'' PriorityHigh
       (\<lambda>now. NewHLSReadyEvent now ''test-channel'' ''http://localhost:9002/test-channel/index.m3u8'') c3]"
proof -
  have "conn_err (he_msg sampleHls) = (\<lambda>_. None)" "json_marshal (he_msg sampleHls) = (\<lambda>e. Ok (msgPayload (envMessage e)))"
    by (simp_all add: sampleHls_def sampleMsgEnv_def)
  from test_integration_sends [OF this, of "\<lambda>_. []" "\<lambda>_. [None]" None] show ?thesis by (metis snd_conv)
qed

end
