(* ===== verification/StreamStates.thy ===== *)
theory StreamStates
  imports ServerInv
begin

text \<open>
  The life of a connection's streams as a protocol of its own: the states a stream passes through, in the order the
  handlers' comments give, and who may add and remove streams. The server implements it: whatever a client sends, the
  states of its streams are a state of the protocol.
\<close>

section \<open>The order of the states\<close>

text \<open>The transitions the state handlers document; a stream is made in the unknown state and leaves it at once.\<close>

fun later_states :: "streamState \<Rightarrow> streamState list" where
  "later_states streamStateUnknown =
     [streamStateServerNotConnected, streamStateServerConnected, streamStateServerInactive, streamStateServerPublish,
      streamStateServerPlay, streamStateClientNotConnected, streamStateClientConnected]"
| "later_states streamStateServerNotConnected = [streamStateServerConnected]"
| "later_states streamStateServerInactive = [streamStateServerPublish, streamStateServerPlay]"
| "later_states streamStateClientNotConnected = [streamStateClientConnected]"
| "later_states _ = []"

lemma later_irrefl: "st \<notin> set (later_states st)"
  by (cases st) simp_all

lemma later_trans: "st2 \<in> set (later_states st1) \<Longrightarrow> st3 \<in> set (later_states st2) \<Longrightarrow> st3 \<in> set (later_states st1)"
  by (cases st1) auto

instantiation streamState :: order_bot
begin

definition less_eq_streamState :: "streamState \<Rightarrow> streamState \<Rightarrow> bool" where
  "less_eq_streamState st st' \<longleftrightarrow> st = st' \<or> st' \<in> set (later_states st)"

definition less_streamState :: "streamState \<Rightarrow> streamState \<Rightarrow> bool" where
  "less_streamState st st' \<longleftrightarrow> st' \<in> set (later_states st)"

definition bot_streamState :: streamState where
  "bot_streamState = streamStateUnknown"

instance
proof
  fix x y z :: streamState
  show "x < y \<longleftrightarrow> x \<le> y \<and> \<not> y \<le> x"
    using later_irrefl [of x] later_trans [of y x x] by (auto simp: less_eq_streamState_def less_streamState_def)
  show "x \<le> x" by (simp add: less_eq_streamState_def)
  show "x \<le> y \<Longrightarrow> y \<le> z \<Longrightarrow> x \<le> z" using later_trans [of y x z] by (auto simp: less_eq_streamState_def)
  show "x \<le> y \<Longrightarrow> y \<le> x \<Longrightarrow> x = y"
    using later_irrefl [of x] later_trans [of y x x] by (auto simp: less_eq_streamState_def)
  show "bot \<le> x" by (cases x) (simp_all add: less_eq_streamState_def bot_streamState_def)
qed

end

section \<open>The protocol\<close>

type_synonym stream_states = "u32 \<rightharpoonup> streamState"

text \<open>
  A stream moves on to a later state. A connected control stream adds a stream under a free id, and removes one.
\<close>

inductive protocol_step :: "stream_states \<Rightarrow> stream_states \<Rightarrow> bool" where
  move: "T sid = Some st \<Longrightarrow> st < st' \<Longrightarrow> protocol_step T (T(sid \<mapsto> st'))"
| spawn: "T ControlStreamID = Some streamStateServerConnected \<Longrightarrow> T sid = None \<Longrightarrow>
    protocol_step T (T(sid \<mapsto> streamStateServerInactive))"
| remove: "T ControlStreamID = Some streamStateServerConnected \<Longrightarrow> protocol_step T (T(sid := None))"

inductive protocol :: "stream_states \<Rightarrow> bool" where
  opened: "protocol [ControlStreamID \<mapsto> streamStateServerNotConnected]"
| stepped: "protocol T \<Longrightarrow> protocol_step T T' \<Longrightarrow> protocol T'"

inductive_cases protocol_stepE: "protocol_step T T'"

text \<open>A step takes no stream that stays back to an earlier state.\<close>

lemma protocol_step_mono: "protocol_step T T' \<Longrightarrow> T sid = Some st \<Longrightarrow> T' sid = Some st' \<Longrightarrow> st \<le> st'"
  by (auto elim!: protocol_stepE split: if_splits)

text \<open>The control stream and the data streams keep to their parts of the order.\<close>

definition kept_apart :: "stream_states \<Rightarrow> bool" where
  "kept_apart T \<longleftrightarrow> (\<forall>sid st. T sid = Some st \<longrightarrow>
     (if sid = ControlStreamID then streamStateServerNotConnected \<le> st else streamStateServerInactive \<le> st))"

lemma protocol_kept_apart: "protocol T \<Longrightarrow> kept_apart T"
proof (induction rule: protocol.induct)
  case (stepped T T')
  from stepped(2,3) show ?case
  proof (cases rule: protocol_step.cases)
    case (move sid st st')
    with stepped(3) show ?thesis by (force simp: kept_apart_def)
  next
    case (spawn sid)
    with stepped(3) show ?thesis by (force simp: kept_apart_def)
  qed (auto simp: kept_apart_def)
qed (simp add: kept_apart_def)

lemma control_states:
  "protocol T \<Longrightarrow> T ControlStreamID = Some st \<Longrightarrow> st = streamStateServerNotConnected \<or> st = streamStateServerConnected"
  using protocol_kept_apart [of T] by (force simp: kept_apart_def less_eq_streamState_def)

text \<open>Before the control stream is connected it is alone, and no other stream exists.\<close>

lemma protocol_alone: "protocol T \<Longrightarrow> T ControlStreamID = Some streamStateServerNotConnected \<Longrightarrow> dom T = {ControlStreamID}"
proof (induction rule: protocol.induct)
  case (stepped T T')
  from stepped(2) show ?case
  proof (cases rule: protocol_step.cases)
    case (move sid st st')
    have "st' \<noteq> streamStateServerNotConnected"
      using protocol_kept_apart [OF stepped(1)] move stepped(4)
      by (cases st) (force simp: kept_apart_def less_eq_streamState_def less_streamState_def split: if_splits)+
    with move stepped(4) stepped.IH show ?thesis by (auto split: if_splits)
  qed (use stepped.prems in \<open>auto split: if_splits\<close>)
qed simp

section \<open>The server implements the protocol\<close>

definition stream_states :: "'u Conn \<Rightarrow> stream_states" where
  "stream_states c = (\<lambda>sid. map_option sh_state (stream_at c sid))"

lemma stream_states_cong: "conn_streams c' = conn_streams c \<Longrightarrow> stream_states c' = stream_states c"
  by (simp add: stream_states_def)

lemma stream_states_put: "stream_states (c\<lparr>conn_streams := putStream sid s (conn_streams c)\<rparr>) = (stream_states c)(sid \<mapsto> sh_state s)"
  by (auto simp: stream_states_def putStream_def)

lemma stream_states_change:
  "stream_at c sid = Some s \<Longrightarrow> settable st \<Longrightarrow> stream_states (snd (ChangeState sid st c)) = (stream_states c)(sid \<mapsto> st)"
  by (simp add: ChangeState_at stream_states_put) (simp add: with_state_def)

definition follows :: "'u Conn \<Rightarrow> bool" where
  "follows c \<longleftrightarrow> server_ok c \<and> (stream_states c = Map.empty \<or> protocol (stream_states c))"

lemma follows_cong: "follows c \<Longrightarrow> conn_streams c' = conn_streams c \<Longrightarrow> follows c'"
  using server_ok_cong [of c' c] stream_states_cong [of c' c] by (simp add: follows_def)

lemma follows_ok: "follows c \<Longrightarrow> server_ok c"
  by (simp add: follows_def)

lemma follows_protocol: "follows c \<Longrightarrow> stream_at c sid = Some s \<Longrightarrow> protocol (stream_states c)"
  by (auto simp: follows_def stream_states_def fun_eq_iff)

lemma follows_step: "protocol T \<Longrightarrow> protocol_step T T' \<Longrightarrow> stream_states c = T' \<Longrightarrow> server_ok c \<Longrightarrow> follows c"
  by (auto simp: follows_def intro: protocol.stepped)

lemma follows_world: "follows c \<Longrightarrow> follows (snd (on_world f c))"
  by (rule follows_cong) (simp_all add: on_world_def split_def)

lemma follows_at:
  assumes "follows c" "stream_at c sid = Some s"
  shows "streamID s = sid" "sh_handler s = Some (sh_state s)" "stream_states c sid = Some (sh_state s)"
    "sh_state s = streamStateServerConnected \<Longrightarrow> sid = ControlStreamID"
  using assms server_ok_at [OF _ assms(2)]
  by (auto simp: follows_def server_stream_ok_def states_of_def stream_states_def split: if_splits)

lemma follows_connected: "follows c \<Longrightarrow> has_connected c \<Longrightarrow> stream_states c ControlStreamID = Some streamStateServerConnected"
  unfolding has_connected_def using follows_at by (metis option.inject)

text \<open>A handler's change of its own stream is a move.\<close>

lemma follows_moved:
  assumes "follows c" "stream_at c sid = Some s" "sh_handler s = Some st" "st < st'" "settable st'"
    and "on_world f c = (res, c1)"
    and "server_ok c1 \<and> (res = Ok () \<longrightarrow> io_step c1 c2 \<longrightarrow> server_ok (snd (ChangeState (streamID s) st' c2)))"
  shows "follows c1 \<and> (res = Ok () \<longrightarrow> io_step c1 c2 \<longrightarrow> follows (snd (ChangeState (streamID s) st' c2)))"
proof (intro conjI impI)
  show "follows c1" using follows_world [OF assms(1)] assms(6) by (metis snd_conv)
  assume "res = Ok ()" and io: "io_step c1 c2"
  with assms(7) have ok: "server_ok (snd (ChangeState (streamID s) st' c2))" by blast
  have ss: "conn_streams c2 = conn_streams c" using on_world_streams [OF assms(6)] io_streams [OF io] by simp
  have "stream_states (snd (ChangeState (streamID s) st' c2)) = (stream_states c)(sid \<mapsto> st')"
    using stream_states_change [of c2 sid s st'] stream_states_cong [OF ss] assms(2,5) follows_at(1) [OF assms(1,2)] ss by simp
  moreover have "protocol_step (stream_states c) ((stream_states c)(sid \<mapsto> st'))"
    using follows_at(2,3) [OF assms(1,2)] assms(3,4) by (intro protocol_step.move) simp_all
  ultimately show "follows (snd (ChangeState (streamID s) st' c2))"
    using follows_step [OF follows_protocol [OF assms(1,2)]] ok by blast
qed

text \<open>A stream the connected control stream makes is new.\<close>

lemma follows_spawned:
  assumes "follows c" "stream_at c sid = Some s" "sh_handler s = Some streamStateServerConnected"
    and "on_streams CreateIfAvailable c = (Ok new, c2)"
  shows "follows (snd (ChangeState (streamID new) streamStateServerInactive c2))"
proof -
  from assms(4) obtain ss where cr: "CreateIfAvailable (conn_streams c) = (Ok new, ss)" and c2: "c2 = c\<lparr>conn_streams := ss\<rparr>"
    by (auto simp: on_streams_def split: prod.splits)
  from cr obtain n where "streams_Create n (conn_streams c) = (Ok new, ss)"
    by (cases rule: CreateIfAvailable_cases) auto
  then have on: "on_streams (streams_Create n) c = (Ok new, c2)" by (simp add: on_streams_def c2)
  note made = on_streams_Create [OF on]
  have n: "streamID new = n" by (simp add: made(1) newStream_def)
  have at: "stream_at c2 n = Some (newStream n)" by (simp add: made(2) putStream_def)
  have "stream_states (snd (ChangeState n streamStateServerInactive c2)) = (stream_states c)(n \<mapsto> streamStateServerInactive)"
    using stream_states_change [OF at, of streamStateServerInactive]
    by (simp add: settable_def) (simp add: made(2) stream_states_put)
  moreover have "protocol_step (stream_states c) ((stream_states c)(n \<mapsto> streamStateServerInactive))"
  proof (rule protocol_step.spawn)
    show "stream_states c ControlStreamID = Some streamStateServerConnected"
      by (rule follows_connected [OF assms(1) has_connectedI [OF assms(2,3)]])
    show "stream_states c n = None" using made(3) by (simp add: stream_states_def)
  qed
  moreover have "server_ok (snd (ChangeState n streamStateServerInactive c2))"
    using server_ok_spawn [OF _ assms(2-4)] assms(1) n by (simp add: follows_def)
  ultimately show ?thesis unfolding n using follows_step [OF follows_protocol [OF assms(1,2)]] by blast
qed

lemma follows_deleted:
  assumes "follows c" "has_connected c"
  shows "follows (snd (on_streams (streams_Delete t) c))"
proof (cases "stream_at c t")
  case None
  then show ?thesis using assms(1) by (intro follows_cong [OF assms(1)]) (simp add: on_streams_def streams_Delete_def)
next
  case (Some s)
  then have "stream_states (snd (on_streams (streams_Delete t) c)) = (stream_states c)(t := None)"
    using follows_at(1) [OF assms(1) Some] by (auto simp: on_streams_def streams_Delete_def stream_states_def)
  moreover have "protocol_step (stream_states c) ((stream_states c)(t := None))"
    by (rule protocol_step.remove) (rule follows_connected [OF assms])
  moreover have "server_ok (snd (on_streams (streams_Delete t) c))" using states.P_delete [of c t] assms by (simp add: follows_def)
  ultimately show ?thesis using follows_step [OF follows_protocol [OF assms(1) Some]] by blast
qed

interpretation follow: loop_inv rt follows
proof (unfold_locales, goal_cases)
  case (1 c c')
  then show ?case using follows_cong io_streams by blast
next
  case (2 c ps)
  then show ?case by (rule follows_cong) simp
next
  case (3 c sid s tt)
  have "server_ok (c\<lparr>conn_streams := putStream (streamID s) (s\<lparr>trs := tt\<rparr>) (conn_streams c)\<rparr>)"
    using states.P_reply [of c sid s tt] 3 by (simp add: follows_def)
  with 3 follows_at(1,3) [OF 3] show ?case by (simp add: follows_def stream_states_put fun_upd_idem)
next
  case (4 c t)
  then show ?case by (rule follows_deleted)
next
  case (8 c sid s ts cmd res c1 c2)
  show ?case
    by (rule follows_moved [OF 8(1-3) _ _ 8(4) states.P_connect [OF _ 8(2-4)]])
      (use 8(1) in \<open>simp_all add: follows_def less_streamState_def settable_def\<close>)
next
  case (9 c sid s ts res c1 new c2)
  have "follows c1" using follows_world [OF 9(1)] 9(4) by (metis snd_conv)
  with 9 on_world_streams [OF 9(4)] show ?case using follows_spawned by metis
next
  case (11 c sid s ts name ty res c1 c2)
  show ?case
    by (rule follows_moved [OF 11(1-3) _ _ 11(4) states.P_publish [OF _ 11(2-4)]])
      (use 11(1) in \<open>simp_all add: follows_def less_streamState_def settable_def\<close>)
next
  case (12 c sid s ts name start res c1 c2)
  show ?case
    by (rule follows_moved [OF 12(1-3) _ _ 12(4) states.P_play [OF _ 12(2-4)]])
      (use 12(1) in \<open>simp_all add: follows_def less_streamState_def settable_def\<close>)
next
  case (14 c c')
  then show ?case using follows_cong by blast
qed (simp_all add: follows_world)

section \<open>Properties\<close>


end
