(* ===== verification/Addr.thy ===== *)
theory Addr
  imports Prelude
begin

text \<open>
  client.go: the address a client dials. \<open>SplitHostPort\<close> and \<open>JoinHostPort\<close> are those of Go's package net, on which
  \<open>makeValidAddr\<close> rests; it calls itself with the default RTMP port added as long as the port is missing, which is for
  ever on some addresses.
\<close>

section \<open>Package net\<close>

record AddrError =
  ae_Err :: string
  ae_Addr :: string

fun IndexByte :: "char \<Rightarrow> string \<Rightarrow> nat option" where
  "IndexByte c [] = None"
| "IndexByte c (x # xs) = (if x = c then Some 0 else map_option Suc (IndexByte c xs))"

definition LastIndexByte :: "char \<Rightarrow> string \<Rightarrow> nat option" where
  "LastIndexByte c s = map_option (\<lambda>i. length s - Suc i) (IndexByte c (rev s))"

definition missingPort :: string where
  "missingPort = ''missing port in address''"

definition tooManyColons :: string where
  "tooManyColons = ''too many colons in address''"

definition addrErr :: "string \<Rightarrow> string \<Rightarrow> AddrError + 'a" where
  "addrErr addr why = Inl \<lparr>ae_Err = why, ae_Addr = addr\<rparr>"

text \<open>The last checks of \<open>SplitHostPort\<close>, from the positions \<open>j\<close> and \<open>k\<close> on; \<open>i\<close> is where the last colon stands.\<close>

definition split_at :: "string \<Rightarrow> nat \<Rightarrow> string \<Rightarrow> nat \<Rightarrow> nat \<Rightarrow> AddrError + string \<times> string" where
  "split_at hostport i host j k =
     (if CHR ''['' \<in> set (drop j hostport) then addrErr hostport ''unexpected '[' in address''
      else if CHR '']'' \<in> set (drop k hostport) then addrErr hostport ''unexpected ']' in address''
      else Inr (host, drop (i + 1) hostport))"

definition SplitHostPort :: "string \<Rightarrow> AddrError + string \<times> string" where
  "SplitHostPort hostport =
     (case LastIndexByte CHR '':'' hostport of
        None \<Rightarrow> addrErr hostport missingPort
      | Some i \<Rightarrow>
          if hd hostport = CHR ''['' then
            (case IndexByte CHR '']'' hostport of
               None \<Rightarrow> addrErr hostport ''missing ']' in address''
             | Some e \<Rightarrow>
                 if e + 1 = length hostport then addrErr hostport missingPort
                 else if e + 1 = i then split_at hostport i (drop 1 (take e hostport)) 1 (e + 1)
                 else if hostport ! (e + 1) = CHR '':'' then addrErr hostport tooManyColons
                 else addrErr hostport missingPort)
          else if CHR '':'' \<in> set (take i hostport) then addrErr hostport tooManyColons
          else split_at hostport i (take i hostport) 0 0)"

definition JoinHostPort :: "string \<Rightarrow> string \<Rightarrow> string" where
  "JoinHostPort host port =
     (if CHR '':'' \<in> set host then ''['' @ host @ '']:'' @ port else host @ '':'' @ port)"

section \<open>client.go\<close>

partial_function (option) makeValidAddr :: "string \<Rightarrow> (AddrError + string) option" where
  "makeValidAddr addr =
     (case SplitHostPort addr of
        Inl err \<Rightarrow> if ae_Err err = missingPort then makeValidAddr (addr @ '':1935'') else Some (Inl err)
      | Inr (host, port) \<Rightarrow> Some (Inr (JoinHostPort host port)))"

section \<open>Splitting by shape\<close>

lemma IndexByte_None: "IndexByte c s = None \<longleftrightarrow> c \<notin> set s"
  by (induction s) auto

lemma IndexByte_first: "c \<notin> set a \<Longrightarrow> IndexByte c (a @ c # b) = Some (length a)"
  by (induction a) auto

lemma IndexByte_Some: "IndexByte c s = Some i \<Longrightarrow> \<exists>a b. s = a @ c # b \<and> c \<notin> set a \<and> i = length a"
proof (induction s arbitrary: i)
  case (Cons x xs)
  show ?case
  proof (cases "x = c")
    case True
    with Cons.prems show ?thesis by (intro exI [of _ "[]"] exI [of _ xs]) auto
  next
    case False
    with Cons obtain j where j: "IndexByte c xs = Some j" "i = Suc j" by auto
    from Cons.IH [OF j(1)] obtain a b where "xs = a @ c # b" "c \<notin> set a" "j = length a" by blast
    with j(2) False show ?thesis by (intro exI [of _ "x # a"] exI [of _ b]) auto
  qed
qed simp

lemma LastIndexByte_None: "LastIndexByte c s = None \<longleftrightarrow> c \<notin> set s"
  by (simp add: LastIndexByte_def IndexByte_None)

lemma LastIndexByte_last: "c \<notin> set b \<Longrightarrow> LastIndexByte c (a @ c # b) = Some (length a)"
  using IndexByte_first [of c "rev b" "rev a"] by (simp add: LastIndexByte_def)

lemma LastIndexByte_nth: "LastIndexByte c s = Some i \<Longrightarrow> s ! i = c"
  using LastIndexByte_last by (metis LastIndexByte_None nth_append_length option.distinct(1) option.inject split_list_last)

text \<open>An address is a name, a bracket that is not closed, or a bracket and what follows it.\<close>

lemma split_no_port: "CHR '':'' \<notin> set addr \<Longrightarrow> SplitHostPort addr = addrErr addr missingPort"
  by (simp add: SplitHostPort_def iffD2 [OF LastIndexByte_None])

lemma split_plain:
  assumes "CHR '':'' \<notin> set port" "hd (host @ '':'') \<noteq> CHR ''[''"
  shows "SplitHostPort (host @ '':'' @ port) =
    (if CHR '':'' \<in> set host then addrErr (host @ '':'' @ port) tooManyColons
     else split_at (host @ '':'' @ port) (length host) host 0 0)"
  using assms LastIndexByte_last [OF assms(1), of host] by (cases host) (simp_all add: SplitHostPort_def)

lemma split_unclosed:
  assumes "CHR '']'' \<notin> set addr" "hd addr = CHR ''[''" "CHR '':'' \<in> set addr"
  shows "SplitHostPort addr = addrErr addr ''missing ']' in address''"
  using assms LastIndexByte_None [of "CHR '':''" addr]
  by (auto simp: SplitHostPort_def iffD2 [OF IndexByte_None] split: option.split)

lemma split_bracket:
  assumes "CHR '']'' \<notin> set host" "CHR '':'' \<notin> set port"
  shows "SplitHostPort (''['' @ host @ '']:'' @ port) = split_at (''['' @ host @ '']:'' @ port) (length host + 2) host 1 (length host + 2)"
  using IndexByte_first [of "CHR '']''" "''['' @ host" "CHR '':'' # port"]
    LastIndexByte_last [OF assms(2), of "''['' @ host @ '']''"] assms(1)
  by (simp add: SplitHostPort_def)

lemma split_bracket_colons:
  assumes "CHR '']'' \<notin> set host" "CHR '':'' \<in> set r"
  shows "SplitHostPort (''['' @ host @ '']:'' @ r) = addrErr (''['' @ host @ '']:'' @ r) tooManyColons"
proof -
  from split_list_last [OF assms(2)] obtain r1 r2 where r: "r = r1 @ CHR '':'' # r2" "CHR '':'' \<notin> set r2" by blast
  show ?thesis
    using IndexByte_first [of "CHR '']''" "''['' @ host" "CHR '':'' # r"] assms(1) r(1)
      LastIndexByte_last [OF r(2), of "''['' @ host @ '']:'' @ r1"]
    by (simp add: SplitHostPort_def nth_append)
qed

lemma split_at_not_missing: "split_at hp i host j k = Inl err \<Longrightarrow> ae_Err err \<noteq> missingPort"
  by (auto simp: split_at_def addrErr_def missingPort_def split: if_splits)

section \<open>Addresses that never have a port\<close>

text \<open>Something other than a colon follows the closing bracket: whatever is added at the end, the port is missing.\<close>

definition stuck :: "string \<Rightarrow> bool" where
  "stuck addr \<longleftrightarrow>
     (case IndexByte CHR '']'' addr of
        None \<Rightarrow> False
      | Some e \<Rightarrow> hd addr = CHR ''['' \<and> e + 1 < length addr \<and> addr ! (e + 1) \<noteq> CHR '':'')"

lemma stuck_shape:
  "stuck addr \<longleftrightarrow> (\<exists>h x r. addr = ''['' @ h @ CHR '']'' # x # r \<and> CHR '']'' \<notin> set h \<and> x \<noteq> CHR '':'')"
proof
  assume st: "stuck addr"
  then obtain e where e: "IndexByte CHR '']'' addr = Some e" by (auto simp: stuck_def split: option.splits)
  from IndexByte_Some [OF e] obtain a b where ab: "addr = a @ CHR '']'' # b" "CHR '']'' \<notin> set a" "e = length a" by blast
  with st e have b: "b \<noteq> []" "hd b \<noteq> CHR '':''" "hd addr = CHR ''[''" by (auto simp: stuck_def nth_append hd_conv_nth)
  from ab(1) b(3) obtain h where "a = CHR ''['' # h" by (cases a) auto
  with ab b show "\<exists>h x r. addr = ''['' @ h @ CHR '']'' # x # r \<and> CHR '']'' \<notin> set h \<and> x \<noteq> CHR '':''"
    by (cases b) auto
next
  assume "\<exists>h x r. addr = ''['' @ h @ CHR '']'' # x # r \<and> CHR '']'' \<notin> set h \<and> x \<noteq> CHR '':''"
  then obtain h x r where a: "addr = ''['' @ h @ CHR '']'' # x # r" "CHR '']'' \<notin> set h" "x \<noteq> CHR '':''" by blast
  have "IndexByte CHR '']'' addr = Some (Suc (length h))" using IndexByte_first [of "CHR '']''" "''['' @ h" "x # r"] a by simp
  then show "stuck addr" using a by (simp add: stuck_def nth_append)
qed

lemma stuck_more:
  assumes "stuck addr"
  shows "stuck (addr @ t)"
proof -
  from assms obtain h x r where "addr = ''['' @ h @ CHR '']'' # x # r" "CHR '']'' \<notin> set h" "x \<noteq> CHR '':''"
    unfolding stuck_shape by blast
  then show ?thesis unfolding stuck_shape by (intro exI [of _ h] exI [of _ x] exI [of _ "r @ t"]) simp
qed

lemma stuck_split: "stuck addr \<Longrightarrow> SplitHostPort addr = addrErr addr missingPort"
  using LastIndexByte_nth [of "CHR '':''" addr] by (auto simp: stuck_def SplitHostPort_def split: option.splits)

text \<open>On such an address the code calls itself without end: there is no result.\<close>

lemma makeValidAddr_stuck:
  assumes "makeValidAddr addr = Some res"
  shows "\<not> stuck addr"
proof (rule makeValidAddr.raw_induct [OF _ assms], rule notI)
  fix f addr res
  assume IH: "\<And>addr res. f addr = Some res \<Longrightarrow> \<not> stuck addr"
    and body: "(case SplitHostPort addr of
        Inl err \<Rightarrow> if ae_Err err = missingPort then f (addr @ '':1935'') else Some (Inl err)
      | Inr (host, port) \<Rightarrow> Some (Inr (JoinHostPort host port))) = Some res"
    and st: "stuck addr"
  have "f (addr @ '':1935'') = Some res" using body stuck_split [OF st] by (simp add: addrErr_def)
  with IH stuck_more [OF st] show False by blast
qed

lemma missing_shape:
  assumes "SplitHostPort addr = Inl err" "ae_Err err = missingPort" "\<not> stuck addr"
  shows "SplitHostPort (addr @ '':1935'') = Inl err2 \<Longrightarrow> ae_Err err2 \<noteq> missingPort"
proof (cases "hd addr = CHR ''['' \<and> addr \<noteq> []")
  case False
  then have hd: "hd (addr @ '':'') \<noteq> CHR ''[''" by (cases addr) auto
  assume "SplitHostPort (addr @ '':1935'') = Inl err2"
  then show ?thesis using split_plain [of "''1935''" addr] hd split_at_not_missing
    by (auto simp: addrErr_def tooManyColons_def missingPort_def split: if_splits)
next
  case br: True
  assume sp: "SplitHostPort (addr @ '':1935'') = Inl err2"
  show ?thesis
  proof (cases "CHR '']'' \<in> set addr")
    case False
    then show ?thesis using split_unclosed [of "addr @ '':1935''"] br sp by (auto simp: addrErr_def missingPort_def)
  next
    case True
    then obtain e where "IndexByte CHR '']'' addr = Some e" using IndexByte_None [of "CHR '']''" addr] by auto
    from IndexByte_Some [OF this] obtain a b where ab: "addr = a @ CHR '']'' # b" "CHR '']'' \<notin> set a" by blast
    with br obtain h where h: "a = CHR ''['' # h" by (cases a) auto
    show ?thesis
    proof (cases b)
      case Nil
      then show ?thesis using split_bracket [of h "''1935''"] ab h sp split_at_not_missing by auto
    next
      case (Cons x r)
      with assms(3) ab h have "x = CHR '':''" unfolding stuck_shape by auto
      then show ?thesis using assms(1,2) ab h Cons split_bracket [of h r] split_bracket_colons [of h r] split_at_not_missing
        by (cases "CHR '':'' \<in> set r") (auto simp: addrErr_def tooManyColons_def missingPort_def)
    qed
  qed
qed

section \<open>The answer\<close>

text \<open>A host and a port that were split can be joined and split again.\<close>

definition plain_parts :: "string \<Rightarrow> string \<Rightarrow> bool" where
  "plain_parts host port \<longleftrightarrow>
     CHR '':'' \<notin> set port \<and> {CHR ''['', CHR '']''} \<inter> (set host \<union> set port) = {}"

lemma LastIndexByte_drop: "LastIndexByte c s = Some i \<Longrightarrow> c \<notin> set (drop (i + 1) s)"
  using LastIndexByte_last by (metis (no_types, lifting) LastIndexByte_None Suc_eq_plus1 append_Cons append_Nil append_assoc
      append_eq_conv_conj length_append_singleton option.distinct(1) option.inject split_list_last)

lemma IndexByte_take: "IndexByte c s = Some i \<Longrightarrow> c \<notin> set (take i s)"
  using IndexByte_Some by fastforce

lemma split_parts:
  assumes "SplitHostPort addr = Inr (host, port)"
  shows "plain_parts host port"
proof -
  from assms obtain i where i: "LastIndexByte CHR '':'' addr = Some i"
    by (auto simp: SplitHostPort_def addrErr_def split: option.splits)
  note last = LastIndexByte_drop [OF i]
  show ?thesis
  proof (cases "hd addr = CHR ''[''")
    case True
    with assms i obtain e where e: "IndexByte CHR '']'' addr = Some e" "e + 1 = i"
      and at: "split_at addr i (drop 1 (take e addr)) 1 (e + 1) = Inr (host, port)"
      by (auto simp: SplitHostPort_def addrErr_def split: option.splits if_splits)
    then have "host = drop 1 (take e addr)" "port = drop (i + 1) addr" "CHR ''['' \<notin> set (drop 1 addr)" "CHR '']'' \<notin> set (drop i addr)"
      by (auto simp: split_at_def addrErr_def split: if_splits)
    moreover have "set (drop 1 (take e addr)) \<subseteq> set (drop 1 addr)" by (simp add: drop_take set_take_subset)
    moreover have "set (drop 1 (take e addr)) \<subseteq> set (take e addr)" by (rule set_drop_subset)
    moreover have "set (drop (i + 1) addr) \<subseteq> set (drop 1 addr)" "set (drop (i + 1) addr) \<subseteq> set (drop i addr)"
      by (rule set_drop_subset_set_drop; simp)+
    ultimately show ?thesis using last IndexByte_take [OF e(1)] unfolding plain_parts_def by blast
  next
    case False
    with assms i have "host = take i addr" "port = drop (i + 1) addr" "CHR ''['' \<notin> set addr" "CHR '']'' \<notin> set addr"
      by (auto simp: SplitHostPort_def split_at_def addrErr_def split: if_splits)
    with last show ?thesis by (auto simp: plain_parts_def dest: in_set_takeD in_set_dropD)
  qed
qed

lemma split_join:
  assumes "plain_parts host port"
  shows "SplitHostPort (JoinHostPort host port) = Inr (host, port)"
proof (cases "CHR '':'' \<in> set host")
  case True
  with assms show ?thesis using split_bracket [of host port] by (auto simp: plain_parts_def JoinHostPort_def split_at_def)
next
  case False
  have "hd (host @ '':'') \<noteq> CHR ''[''" using assms by (cases host) (auto simp: plain_parts_def)
  with False assms show ?thesis using split_plain [of port host] by (auto simp: plain_parts_def JoinHostPort_def split_at_def)
qed

lemma makeValidAddr_split:
  "SplitHostPort addr = Inr (host, port) \<Longrightarrow> makeValidAddr addr = Some (Inr (JoinHostPort host port))"
  by (simp add: makeValidAddr.simps)

lemma makeValidAddr_answers: "\<not> stuck addr \<Longrightarrow> \<exists>res. makeValidAddr addr = Some res"
proof (cases "SplitHostPort addr")
  case (Inl err)
  assume ns: "\<not> stuck addr"
  show ?thesis
  proof (cases "ae_Err err = missingPort")
    case True
    show ?thesis
    proof (cases "SplitHostPort (addr @ '':1935'')")
      case (Inl err2)
      with missing_shape [OF \<open>SplitHostPort addr = Inl err\<close> True ns] have "ae_Err err2 \<noteq> missingPort" by blast
      with Inl have "makeValidAddr (addr @ '':1935'') = Some (Inl err2)" by (simp add: makeValidAddr.simps)
      then show ?thesis using \<open>SplitHostPort addr = Inl err\<close> True by (simp add: makeValidAddr.simps [of addr])
    next
      case (Inr hp)
      then have "\<exists>res. makeValidAddr (addr @ '':1935'') = Some res" by (cases hp) (simp add: makeValidAddr_split)
      then show ?thesis using \<open>SplitHostPort addr = Inl err\<close> True by (simp add: makeValidAddr.simps [of addr])
    qed
  qed (simp add: Inl makeValidAddr.simps [of addr])
qed (auto simp: makeValidAddr.simps [of addr])

text \<open>What is answered is a host and a port that were split and joined.\<close>

lemma makeValidAddr_joined:
  assumes "makeValidAddr addr = Some (Inr a)"
  shows "\<exists>host port. plain_parts host port \<and> a = JoinHostPort host port"
proof -
  have "\<forall>a. res = Inr a \<longrightarrow> (\<exists>host port. plain_parts host port \<and> a = JoinHostPort host port)"
    if "makeValidAddr addr = Some res" for addr res
  proof (rule makeValidAddr.raw_induct [OF _ that], intro allI impI)
    fix f addr res a
    assume IH: "\<And>addr res. f addr = Some res \<Longrightarrow> \<forall>a. res = Inr a \<longrightarrow> (\<exists>host port. plain_parts host port \<and> a = JoinHostPort host port)"
      and body: "(case SplitHostPort addr of
          Inl err \<Rightarrow> if ae_Err err = missingPort then f (addr @ '':1935'') else Some (Inl err)
        | Inr (host, port) \<Rightarrow> Some (Inr (JoinHostPort host port))) = Some res"
      and a: "res = Inr a"
    show "\<exists>host port. plain_parts host port \<and> a = JoinHostPort host port"
    proof (cases "SplitHostPort addr")
      case (Inl err)
      with body a have "f (addr @ '':1935'') = Some res" by (auto split: if_splits)
      with IH a show ?thesis by blast
    next
      case (Inr hp)
      obtain h p where hp: "hp = (h, p)" by (cases hp)
      with body a Inr have "a = JoinHostPort h p" by simp
      then show ?thesis using split_parts [OF Inr [unfolded hp]] by blast
    qed
  qed
  with assms show ?thesis by blast
qed

text \<open>
  C21. \<open>makeValidAddr\<close> calls itself without end exactly on the addresses in which something other than a colon follows
  a closing bracket; on every other it answers, after at most one call of itself. A name without a port and without
  brackets gets the RTMP port, and what is answered is a valid address: asked again, it is answered as it is.
\<close>

theorem address_answered:
  "(makeValidAddr addr = None \<longleftrightarrow> stuck addr) \<and>
   ({CHR '':'', CHR ''['', CHR '']''} \<inter> set addr = {} \<longrightarrow> makeValidAddr addr = Some (Inr (addr @ '':1935''))) \<and>
   (\<forall>a. makeValidAddr addr = Some (Inr a) \<longrightarrow> makeValidAddr a = Some (Inr a))"
proof (intro conjI impI allI)
  show "makeValidAddr addr = None \<longleftrightarrow> stuck addr"
    using makeValidAddr_stuck [of addr] makeValidAddr_answers [of addr] by (cases "makeValidAddr addr") auto
next
  assume plain: "{CHR '':'', CHR ''['', CHR '']''} \<inter> set addr = {}"
  then have "plain_parts addr ''1935''" "addr @ '':1935'' = JoinHostPort addr ''1935''"
    by (auto simp: plain_parts_def JoinHostPort_def)
  with split_join makeValidAddr_split have "makeValidAddr (addr @ '':1935'') = Some (Inr (addr @ '':1935''))" by metis
  then show "makeValidAddr addr = Some (Inr (addr @ '':1935''))"
    using plain split_no_port [of addr] by (simp add: makeValidAddr.simps [of addr] addrErr_def)
next
  fix a
  assume "makeValidAddr addr = Some (Inr a)"
  from makeValidAddr_joined [OF this] show "makeValidAddr a = Some (Inr a)"
    using makeValidAddr_split [OF split_join] by auto
qed

theorem address_answered_witness:
  "makeValidAddr ''[::1]1935'' = None \<and> makeValidAddr ''host'' = Some (Inr ''host:1935'') \<and>
   makeValidAddr ''host:1935'' = Some (Inr ''host:1935'')"
proof (intro conjI)
  have "stuck ''[::1]1935''" by (simp add: stuck_def)
  with address_answered [of "''[::1]1935''"] show "makeValidAddr ''[::1]1935'' = None" by blast
  show host: "makeValidAddr ''host'' = Some (Inr ''host:1935'')" using address_answered [of "''host''"] by simp
  with address_answered [of "''host''"] show "makeValidAddr ''host:1935'' = Some (Inr ''host:1935'')" by blast
qed

text \<open>The addresses of the repository's tests.\<close>

lemma test_addresses:
  "makeValidAddr ''host:123'' = Some (Inr ''host:123'')" "makeValidAddr ''host:'' = Some (Inr ''host:'')"
  "makeValidAddr '':1111'' = Some (Inr '':1111'')"
  by (simp_all add: makeValidAddr.simps SplitHostPort_def LastIndexByte_def split_at_def JoinHostPort_def)

end
