(* ===== verification/Spec2Isabelle.thy ===== *)
theory Spec2Isabelle
  imports ChunkSched ChunkInput Platform RelayViews TestClients StreamStates Addr
begin

text \<open>
  A model of a live streaming platform in Go and the theorems that make it correct. The platform is an RTMP
  server library (go-rtmp-master), a relay built on it (go-rtmp-master/example/server_relay_demo), two HTTP
  servers that turn a stream into HLS and serve it (cchls, hlsnew, and their versions under integration),
  and a client of a messaging engine that tells what happens (integration/messaging-client,
  integration/streaming-events).

  \<^bold>\<open>How the parts interact.\<close> A server accepts connections (server.go) and serves each in a goroutine (conn.go,
  server_conn.go). After the handshake the connection's message loop reads messages from its chunk streamer
  (chunk_streamer.go and the files chunk_*.go) and hands each to the message stream it is for (streams.go,
  stream.go), whose state handler (stream_handler.go and the handlers of the states) calls the user's handler
  (handler.go), changes the state and answers, through the writing half of the same streamer. A client
  connection (client_conn.go) runs the same loop and waits in its calls for the replies. The relay is a user's
  handler; it writes the media of a publisher to the connections of its players. The RTMP server fires
  a request at cchls, cchls runs ffmpeg and calls hlsnew, both publish events through the messaging client.

  \<^bold>\<open>How Go is modelled.\<close> Integers keep their width (\<^typ>\<open>32 word\<close> and the like, where the code can wrap around) or
  are \<open>int\<close> where the code's \<open>int\<close> only counts. A function that returns an error or may panic is a function into
  \<open>outcome\<close>: \<open>Ok\<close>, \<open>Err\<close> with a value of \<open>go_err\<close>, or \<open>Panic\<close>; state is passed and returned, also beside an error, so that
  what an operation changed before it failed is visible. Maps are association lists; what the code shares by
  pointer is put back under its key, or lives in a store with indices where the sharing matters (the relay).
  Goroutines that share a streamer are a step relation (\<open>out_step\<close>); the streamer's users see it through
  \<open>rt_turn\<close> and \<open>rt_idle\<close>, arbitrary functions that say what the others did while a call waited, so that
  the theorems hold for every interleaving. The libraries the source calls are arguments: go-amf0
  (\<open>amf0_lib\<close>), mapstructure (\<open>mapstructure\<close>), go-flv and the writes to players (\<open>relay_env\<close>), JSON and the clock
  (\<open>msg_env\<close>), files and processes (\<open>hls_env\<close>), the random bytes and clock of the handshake (\<open>hs_env\<close>). What is assumed of
  them is named where it is used (\<open>amf_string_law\<close> and its siblings, \<open>encodes\<close>) and each has an instance.

  \<^bold>\<open>The theories.\<close>

  Prelude, ByteOrder and GoIO are the vocabulary: outcomes and their sequencing, the collections \<open>go_step\<close>, \<open>wire\<close>
  and \<open>frame\<close>, encoding/binary, and package io with the locales \<open>io_reader\<close> and \<open>at_least_reader\<close>, which the
  transport, a buffer and the streamer's counting reader interpret.

  ChunkHeader (chunk_header.go), ConnState (conn_state.go), Messages (message/message.go, encoder.go, decoder.go and the
  user control events) and BodyCodec (message/body_decoder.go, body_encoder.go, net_connection.go,
  net_stream.go) are the codecs. Their lemmas are the round trips under every segmentation of the input, and
  what happens to unknown and ill-typed bodies.

  ChunkReader and ChunkWriter model the two halves of chunk_streamer.go; ChunkSync relates a writer and the reader at the
  other end over one chunk, ChunkDelivery over any run of the scheduler, which gives the delivery theorem.
  ChunkSched holds the scheduler's own invariant, ChunkInput the bounds and panics of the reader on
  arbitrary bytes. Handshake models package handshake over the locale \<open>wire_codec\<close>.

  Streams has the tables of streams and transactions as interpretations of the locale \<open>keyed_table\<close>, StreamIO what a
  stream writes, StreamHandler what a message does in every state, HandlerInv the locale \<open>handler_inv\<close> of what a
  property must satisfy to be kept by every message. Conn models conn.go and server_conn.go; ServerInv extends the locale to the
  whole loop (\<open>loop_inv\<close>) and interprets it for the states of the streams, StreamStates for the order the states have
  (an instance of \<open>order_bot\<close>) and the protocol of the stream table, an inductive step relation which the server
  implements, CallbackOrder for the order of the user's callbacks, Server (server.go) for the one call of \<open>OnClose\<close>.
  ConnProps has the end of the message loop and the budget of ignored messages, ServerProps the exchanges of the protocol, Client
  and ClientProps the client's side, Addr the address a client dials (client.go). Session puts the two together: a client and a
  server of the library over the messages each reads of the other, which shows what the client learns of a createStream and of a
  publish. SampleConn is a connection for the witnesses.

  Relay models the relay demo, RelayInv its references under any interleaving and the effect of a publication on one
  subscriber alone, RelayProps what players receive and what stays behind; RelayServe puts the relay's handler on a
  served connection, another interpretation of \<open>loop_inv\<close>. RelayNet is the demo as a whole: any number of served
  connections share the relay and what it writes goes out on the players' connections (\<open>net_step\<close>), a round of a connection's
  message loop at a time (\<open>serve_round\<close>, of which Server shows that run to their end they are the loop), with the locale
  \<open>relay_keeps\<close> of what every callback of the relay keeps. RelayViews is publishing with the pointers, shared tags and
  consumed buffers of the code, and shows that Relay, on values, is what it does.

  Http has the response writer of the HTTP handlers, Frames the messaging client with its receiving loop, Messaging its
  goroutines and their turns, Hls the events and the handlers of the four HTTP servers, with the integrated server against the
  plain one, Processes their goroutines in any order and their \<open>main\<close>, TestClients the programs that try the messaging out.

  Platform puts the relay demo, cchls and hlsnew together, with the HTTP requests between them delivered in any order: it shows
  which channels are served, and that a publication starts the channel that was asked for last.

  \<^bold>\<open>Loops and bounds.\<close> The reading loops of package io take fuel, one more than the segments left, which is
  shown to be enough (\<open>io_reader\<close>); the decoder of unknown bodies takes one more than the bytes, enough for every
  library that consumes a byte per value. \<open>NewChunkReader\<close> and the message loop terminate because a round consumes
  input, by a proof of termination. The messaging client's loop may not end, so it is a partial function, and
  \<open>peer_stops_client\<close> shows an input on which it does not; \<open>makeValidAddr\<close> is another, and
  \<open>address_answered\<close> says exactly when it ends. The search for a free stream id takes as many rounds as the code.

  \<^bold>\<open>Not modelled.\<close> Logging and what programs print; the sizes of bufio's buffers, which change nothing that is
  read or written once it is flushed; timeouts other than as a way for a wait to end; data races between goroutines
  other than through the streamer's lock and channels (the races found by reading are in the list of
  findings); the text the test programs print, of which the model keeps
  what it reports; the dashboards and the engine in other languages. A relay's players are written to in one step of the
  publisher: a write that waits for a slow player is the stop of that step. In Platform a handler of an HTTP server
  runs in one step, and the relay's writes go out at the end of the turn that makes them.
\<close>

end
